(* ===== verification/Prelude.thy ===== *)
theory Prelude
  imports Main "HOL-Library.Word"
begin

section \<open>Shared types, error results and automation\<close>

text \<open>
  What every component of the development uses: the machine integers of the C sources, the
  ways in which the process can stop, the sequencing of operations that may stop it, and the
  collections of facts that carry the component proofs.
\<close>

type_synonym u8 = "8 word"
type_synonym u16 = "16 word"
type_synonym u32 = "32 word"
type_synonym u64 = "64 word"

text \<open>
  The ways an operation can fail to return. \<open>Null_Deref\<close> is a read or write through a NULL
  pointer, \<open>Out_Of_Bounds\<close> a read past the end of an object, \<open>Exit_Failure\<close> and
  \<open>Exit_Success\<close> a call of \<open>exit\<close>, \<open>Abort\<close> a failed \<open>assert\<close>, and \<open>No_Fuel\<close> the exhaustion of the fuel given to a loop over a pointer structure.
\<close>

datatype fault = Null_Deref | Out_Of_Bounds | Exit_Failure | Exit_Success | Abort | No_Fuel

type_synonym 'a result = "fault + 'a"

text \<open>Sequencing: the first fault ends the run.\<close>

definition and_then :: "'a result \<Rightarrow> ('a \<Rightarrow> 'b result) \<Rightarrow> 'b result" where
  "and_then r f = (case r of Inl e \<Rightarrow> Inl e | Inr x \<Rightarrow> f x)"

text \<open>Total correctness of a result: it is no fault and its value satisfies the predicate.\<close>

definition succeeds :: "'a result \<Rightarrow> ('a \<Rightarrow> bool) \<Rightarrow> bool" where
  "succeeds r Q \<longleftrightarrow> (case r of Inl _ \<Rightarrow> False | Inr x \<Rightarrow> Q x)"

named_theorems frame_simps \<open>fields that an operation leaves unchanged\<close>
named_theorems step_simps \<open>one-step equations of the operations on well-formed states\<close>

lemma and_then_simps [simp]:
  "and_then (Inl e) f = Inl e"
  "and_then (Inr x) f = f x"
  by (simp_all add: and_then_def)

lemma and_then_assoc: "and_then (and_then r f) g = and_then r (\<lambda>x. and_then (f x) g)"
  by (simp add: and_then_def split: sum.split)

lemma and_then_eq_Inr:
  "and_then r f = Inr y \<longleftrightarrow> (\<exists>x. r = Inr x \<and> f x = Inr y)"
  by (cases r) auto

lemma and_then_eq_Inl:
  "and_then r f = Inl e \<longleftrightarrow> r = Inl e \<or> (\<exists>x. r = Inr x \<and> f x = Inl e)"
  by (cases r) auto

lemma succeeds_simps [simp]:
  "succeeds (Inl e) Q \<longleftrightarrow> False"
  "succeeds (Inr x) Q \<longleftrightarrow> Q x"
  by (simp_all add: succeeds_def)

lemma succeeds_and_then [simp]:
  "succeeds (and_then r f) Q \<longleftrightarrow> succeeds r (\<lambda>x. succeeds (f x) Q)"
  by (cases r) simp_all

lemma succeeds_case_prod [simp]:
  "succeeds (case x of (a, b) \<Rightarrow> f a b) Q \<longleftrightarrow> (case x of (a, b) \<Rightarrow> succeeds (f a b) Q)"
  by (cases x) simp

lemma succeeds_iff: "succeeds r Q \<longleftrightarrow> (\<exists>x. r = Inr x \<and> Q x)"
  by (cases r) simp_all

lemma succeeds_pairE:
  assumes "succeeds f (\<lambda>(r, s). Q r s)"
  obtains r s where "f = Inr (r, s)" and "Q r s"
  using assms by (auto simp: succeeds_iff)

lemma succeeds_mono: "succeeds r P \<Longrightarrow> (\<And>x. P x \<Longrightarrow> Q x) \<Longrightarrow> succeeds r Q"
  by (cases r) simp_all

lemma succeedsE:
  assumes "succeeds r Q"
  obtains x where "r = Inr x" and "Q x"
  using assms by (auto simp: succeeds_iff)

section \<open>Lists\<close>

lemma remove1_split [simp]: "x \<notin> set ys \<Longrightarrow> remove1 x (ys @ x # zs) = ys @ zs"
  by (induction ys) auto

lemma not_in_remove1: "distinct xs \<Longrightarrow> x \<notin> set (remove1 x xs)"
  by (simp add: set_remove1_eq)

lemma takeWhile_all: "\<forall>x\<in>set xs. P x \<Longrightarrow> takeWhile P xs = xs"
  by (induction xs) auto

end
