(* ===== verification/Intrusive_List.thy ===== *)
theory Intrusive_List
  imports Prelude
begin

section \<open>Intrusive lists (the LIST macros of sys/queue.h)\<close>

text \<open>
  The ports waiting for a timeout and the timers of the event loop are chained by the
  \<open>LIST\<close> macros: every element carries \<open>le_next\<close>, a pointer to the next element, and
  \<open>le_prev\<close>, the address of the pointer that points to it, which is either the head's
  \<open>lh_first\<close> or the previous element's \<open>le_next\<close>. The model keeps these pointers, because
  the sources test them for NULL to decide whether an element is on a list, walk a list
  while callbacks change it, and can insert an element twice.

  The second half relates the pointers to the list of elements they represent.
\<close>

datatype 'a slot = Head_Slot | Next_Slot 'a

record 'a lq =
  lh_first :: "'a option"
  le_next :: "'a \<Rightarrow> 'a option"
  le_prev :: "'a \<Rightarrow> 'a slot option"

text \<open>\<open>LIST_INIT\<close>, with the link fields of every element zeroed by \<open>calloc\<close> or \<open>memset\<close>.\<close>

definition lq_init :: "'a lq" where
  "lq_init = \<lparr>lh_first = None, le_next = (\<lambda>_. None), le_prev = (\<lambda>_. None)\<rparr>"

definition list_insert_head :: "'a \<Rightarrow> 'a lq \<Rightarrow> 'a lq" where
  "list_insert_head x q =
     (let q = q\<lparr>le_next := (le_next q)(x := lh_first q)\<rparr>;
          q = (case lh_first q of
                 None \<Rightarrow> q
               | Some y \<Rightarrow> q\<lparr>le_prev := (le_prev q)(y := Some (Next_Slot x))\<rparr>);
          q = q\<lparr>lh_first := Some x\<rparr>
      in q\<lparr>le_prev := (le_prev q)(x := Some Head_Slot)\<rparr>)"

definition list_insert_after :: "'a \<Rightarrow> 'a \<Rightarrow> 'a lq \<Rightarrow> 'a lq" where
  "list_insert_after y x q =
     (let q = q\<lparr>le_next := (le_next q)(x := le_next q y)\<rparr>;
          q = (case le_next q y of
                 None \<Rightarrow> q
               | Some z \<Rightarrow> q\<lparr>le_prev := (le_prev q)(z := Some (Next_Slot x))\<rparr>);
          q = q\<lparr>le_next := (le_next q)(y := Some x)\<rparr>
      in q\<lparr>le_prev := (le_prev q)(x := Some (Next_Slot y))\<rparr>)"

definition store_slot :: "'a slot \<Rightarrow> 'a option \<Rightarrow> 'a lq \<Rightarrow> 'a lq" where
  "store_slot sl v q =
     (case sl of
        Head_Slot \<Rightarrow> q\<lparr>lh_first := v\<rparr>
      | Next_Slot y \<Rightarrow> q\<lparr>le_next := (le_next q)(y := v)\<rparr>)"

text \<open>\<open>LIST_REMOVE\<close> writes through \<open>le_prev\<close> without a test.\<close>

definition list_remove :: "'a \<Rightarrow> 'a lq \<Rightarrow> 'a lq result" where
  "list_remove x q =
     (let q1 = (case le_next q x of
                  None \<Rightarrow> q
                | Some y \<Rightarrow> q\<lparr>le_prev := (le_prev q)(y := le_prev q x)\<rparr>)
      in case le_prev q1 x of
           None \<Rightarrow> Inl Null_Deref
         | Some sl \<Rightarrow> Inr (store_slot sl (le_next q1 x) q1))"

text \<open>The pattern the sources use around it: remove, then clear the two links.\<close>

definition lq_unlink :: "'a \<Rightarrow> 'a lq \<Rightarrow> 'a lq result" where
  "lq_unlink x q =
     and_then (list_remove x q)
       (\<lambda>q. Inr (q\<lparr>le_next := (le_next q)(x := None), le_prev := (le_prev q)(x := None)\<rparr>))"

text \<open>The membership test the sources use: one of the links is not NULL.\<close>

definition lq_active :: "'a lq \<Rightarrow> 'a \<Rightarrow> bool" where
  "lq_active q x \<longleftrightarrow> le_next q x \<noteq> None \<or> le_prev q x \<noteq> None"

subsection \<open>The list that the pointers represent\<close>

definition read_slot :: "'a slot \<Rightarrow> 'a lq \<Rightarrow> 'a option" where
  "read_slot sl q = (case sl of Head_Slot \<Rightarrow> lh_first q | Next_Slot y \<Rightarrow> le_next q y)"

primrec lseg :: "'a lq \<Rightarrow> 'a slot \<Rightarrow> 'a list \<Rightarrow> bool" where
  "lseg q sl [] \<longleftrightarrow> read_slot sl q = None"
| "lseg q sl (x # xs) \<longleftrightarrow>
     read_slot sl q = Some x \<and> le_prev q x = Some sl \<and> lseg q (Next_Slot x) xs"

definition lq_list :: "'a lq \<Rightarrow> 'a list \<Rightarrow> bool" where
  "lq_list q xs \<longleftrightarrow>
     distinct xs \<and> lseg q Head_Slot xs \<and>
     (\<forall>x. x \<notin> set xs \<longrightarrow> le_next q x = None \<and> le_prev q x = None)"

lemma read_slot_simps [simp]:
  "read_slot Head_Slot q = lh_first q"
  "read_slot (Next_Slot y) q = le_next q y"
  by (simp_all add: read_slot_def)

text \<open>A segment depends only on the slot it starts from and on the links of its elements.\<close>

lemma lseg_cong:
  assumes "read_slot sl q' = read_slot sl q"
    and "\<And>x. x \<in> set xs \<Longrightarrow> le_next q' x = le_next q x \<and> le_prev q' x = le_prev q x"
  shows "lseg q' sl xs = lseg q sl xs"
  using assms
proof (induction xs arbitrary: sl)
  case (Cons x xs)
  have "lseg q' (Next_Slot x) xs = lseg q (Next_Slot x) xs"
    by (rule Cons.IH) (use Cons.prems in auto)
  with Cons.prems show ?case by auto
qed simp

text \<open>The part of a segment before a given slot, and the slot at its end.\<close>

primrec end_slot :: "'a slot \<Rightarrow> 'a list \<Rightarrow> 'a slot" where
  "end_slot sl [] = sl"
| "end_slot sl (x # xs) = end_slot (Next_Slot x) xs"

primrec lpath :: "'a lq \<Rightarrow> 'a slot \<Rightarrow> 'a list \<Rightarrow> bool" where
  "lpath q sl [] \<longleftrightarrow> True"
| "lpath q sl (x # xs) \<longleftrightarrow>
     read_slot sl q = Some x \<and> le_prev q x = Some sl \<and> lpath q (Next_Slot x) xs"

lemma lseg_append:
  "lseg q sl (ys @ zs) \<longleftrightarrow> lpath q sl ys \<and> lseg q (end_slot sl ys) zs"
  by (induction ys arbitrary: sl) auto

lemma end_slot_in: "end_slot sl ys \<in> insert sl (Next_Slot ` set ys)"
  by (induction ys arbitrary: sl) auto

lemma end_slot_Next: "ys \<noteq> [] \<Longrightarrow> end_slot sl ys \<in> Next_Slot ` set ys"
  using end_slot_in [of "Next_Slot (hd ys)" "tl ys"] by (cases ys) auto

text \<open>A path survives changes elsewhere, and a change of the slot at its end.\<close>

lemma lpath_cong:
  assumes "lpath q sl ys" and "distinct ys" and "sl \<notin> Next_Slot ` set ys"
    and "\<And>s. s \<in> insert sl (Next_Slot ` set ys) \<Longrightarrow> s \<noteq> end_slot sl ys \<Longrightarrow>
           read_slot s q' = read_slot s q"
    and "\<And>y. y \<in> set ys \<Longrightarrow> le_prev q' y = le_prev q y"
  shows "lpath q' sl ys"
  using assms
proof (induction ys arbitrary: sl)
  case (Cons y ys)
  have ne: "sl \<noteq> end_slot (Next_Slot y) ys"
    using Cons.prems(3) end_slot_in [of "Next_Slot y" ys] by auto
  have "lpath q' (Next_Slot y) ys"
    by (rule Cons.IH) (use Cons.prems in auto)
  with Cons.prems(1,5) Cons.prems(4) [of sl] ne show ?case by simp
qed simp

lemma lq_listD:
  assumes "lq_list q xs"
  shows "distinct xs" and "lseg q Head_Slot xs"
    and "x \<notin> set xs \<Longrightarrow> le_next q x = None" and "x \<notin> set xs \<Longrightarrow> le_prev q x = None"
  using assms by (auto simp: lq_list_def)

text \<open>The two halves of a list around one element.\<close>

lemma lq_list_split:
  assumes "lq_list q (ys @ x # zs)"
  shows "lpath q Head_Slot ys" and "read_slot (end_slot Head_Slot ys) q = Some x"
    and "le_prev q x = Some (end_slot Head_Slot ys)" and "lseg q (Next_Slot x) zs"
  using assms by (simp_all add: lq_list_def lseg_append)

lemma lq_next:
  assumes "lq_list q (ys @ x # zs)"
  shows "le_next q x = (case zs of [] \<Rightarrow> None | z # _ \<Rightarrow> Some z)"
  using lq_list_split(4) [OF assms] by (cases zs) auto

lemma lq_first:
  assumes "lq_list q xs"
  shows "lh_first q = (case xs of [] \<Rightarrow> None | x # _ \<Rightarrow> Some x)"
  using lq_listD(2) [OF assms] by (cases xs) auto

subsection \<open>The operations on a well-formed list\<close>

lemma lq_list_init [simp]: "lq_list lq_init []"
  by (simp add: lq_list_def lq_init_def)

lemma lq_active_iff:
  assumes "lq_list q xs"
  shows "lq_active q x \<longleftrightarrow> x \<in> set xs"
proof (cases "x \<in> set xs")
  case True
  then obtain ys zs where "xs = ys @ x # zs" by (meson split_list)
  with assms have "le_prev q x \<noteq> None" using lq_list_split(3) [of q ys x zs] by simp
  with True show ?thesis by (simp add: lq_active_def)
next
  case False
  with assms show ?thesis by (simp add: lq_active_def lq_listD)
qed

lemma list_insert_head_list:
  assumes "lq_list q xs" and "x \<notin> set xs"
  shows "lq_list (list_insert_head x q) (x # xs)"
proof (cases xs)
  case Nil
  with assms show ?thesis
    by (auto simp: lq_list_def list_insert_head_def)
next
  case (Cons y ys)
  with assms have "lseg q (Next_Slot y) ys" and "lh_first q = Some y" and "distinct (x # y # ys)"
    by (auto simp: lq_list_def)
  moreover from this have "lseg (list_insert_head x q) (Next_Slot y) ys = lseg q (Next_Slot y) ys"
    by (intro lseg_cong) (auto simp: list_insert_head_def)
  ultimately show ?thesis
    using assms Cons by (auto simp: lq_list_def list_insert_head_def)
qed

lemma end_slot_fresh:
  assumes "distinct (ys @ y # zs)"
  shows "end_slot Head_Slot ys \<noteq> Next_Slot y"
    and "z \<in> set zs \<Longrightarrow> end_slot Head_Slot ys \<noteq> Next_Slot z"
  using end_slot_in [of Head_Slot ys] assms by auto

lemma list_insert_after_list:
  assumes q: "lq_list q (ys @ y # zs)" and x: "x \<notin> set (ys @ y # zs)"
  shows "lq_list (list_insert_after y x q) (ys @ y # x # zs)" (is "lq_list ?q _")
proof -
  have dist: "distinct (ys @ y # zs)" using q by (simp add: lq_list_def)
  note split = lq_list_split [OF q]
  have end_y: "end_slot Head_Slot ys \<noteq> Next_Slot y" "end_slot Head_Slot ys \<noteq> Next_Slot x"
    using end_slot_in [of Head_Slot ys] dist x by auto
  have prev: "le_prev ?q u = le_prev q u" if "u \<noteq> x" "zs = [] \<or> u \<noteq> hd zs" for u
    using that lq_next [OF q] by (auto simp: list_insert_after_def Let_def split: list.splits)
  have nxt: "le_next ?q u = le_next q u" if "u \<noteq> x" "u \<noteq> y" for u
    using that by (auto simp: list_insert_after_def Let_def split: option.split)
  have new: "le_next ?q y = Some x" "le_next ?q x = le_next q y"
    "le_prev ?q x = Some (Next_Slot y)" "lh_first ?q = lh_first q"
    using x by (auto simp: list_insert_after_def Let_def split: option.split)
  have ne: "u \<noteq> x" "u \<noteq> y" "zs = [] \<or> u \<noteq> hd zs" if "u \<in> set ys" for u
    using that dist x by (cases zs; auto)+
  have path: "lpath ?q Head_Slot ys"
  proof (rule lpath_cong [OF split(1)])
    fix s assume s: "s \<in> insert Head_Slot (Next_Slot ` set ys)"
    then show "read_slot s ?q = read_slot s q"
      using ne new(4) by (cases s) (auto simp: nxt)
  next
    fix u assume "u \<in> set ys"
    then show "le_prev ?q u = le_prev q u" using ne by (intro prev) auto
  qed (use dist in auto)
  have rest: "lseg ?q (Next_Slot x) zs"
  proof (cases zs)
    case Nil
    with split(4) show ?thesis by (simp add: new)
  next
    case (Cons z zs')
    have "lseg ?q (Next_Slot z) zs' = lseg q (Next_Slot z) zs'"
      by (rule lseg_cong) (use dist x Cons in \<open>auto intro!: nxt prev\<close>)
    moreover have "le_prev ?q z = Some (Next_Slot x)"
      using split(4) Cons x by (auto simp: list_insert_after_def)
    ultimately show ?thesis using split(4) Cons by (simp add: new)
  qed
  have mid: "read_slot (end_slot Head_Slot ys) ?q = Some y \<and>
             le_prev ?q y = Some (end_slot Head_Slot ys)"
  proof -
    have "read_slot (end_slot Head_Slot ys) ?q = read_slot (end_slot Head_Slot ys) q"
      using end_y nxt new(4) by (cases "end_slot Head_Slot ys") auto
    moreover have "le_prev ?q y = le_prev q y"
      by (rule prev) (use dist x in \<open>auto simp: neq_Nil_conv\<close>)
    ultimately show ?thesis using split by simp
  qed
  have out: "le_next ?q u = None \<and> le_prev ?q u = None" if "u \<notin> set (ys @ y # x # zs)" for u
    using that nxt [of u] prev [of u] q by (cases zs) (auto simp: lq_list_def)
  show ?thesis
    unfolding lq_list_def lseg_append using dist x path mid rest out new by auto
qed

text \<open>Removing an element of the list leaves the list without it.\<close>

lemma lq_unlink_list:
  assumes q: "lq_list q (ys @ x # zs)"
  shows "\<exists>q'. lq_unlink x q = Inr q' \<and> lq_list q' (ys @ zs)"
proof -
  have dist: "distinct (ys @ x # zs)" using q by (simp add: lq_list_def)
  note split = lq_list_split [OF q]
  let ?e = "end_slot Head_Slot ys"
  have e_ne: "?e \<noteq> Next_Slot x" "\<And>z. z \<in> set zs \<Longrightarrow> ?e \<noteq> Next_Slot z"
    using end_slot_fresh [OF dist] by auto
  define q1 where "q1 = (case le_next q x of None \<Rightarrow> q
                         | Some y \<Rightarrow> q\<lparr>le_prev := (le_prev q)(y := Some ?e)\<rparr>)"
  define q' where "q' = (store_slot ?e (le_next q x) q1)\<lparr>
                           le_next := (le_next (store_slot ?e (le_next q x) q1))(x := None),
                           le_prev := (le_prev q1)(x := None)\<rparr>"
  have prev_x: "le_prev q1 x = Some ?e"
    using split(3) by (auto simp: q1_def split: option.split)
  have next_q1: "le_next q1 = le_next q" "lh_first q1 = lh_first q"
    by (auto simp: q1_def split: option.split)
  have run: "lq_unlink x q = Inr q'"
    using split(3) prev_x next_q1
    by (auto simp: lq_unlink_def list_remove_def q'_def Let_def q1_def store_slot_def
        split: option.splits slot.splits)
  have nxt: "le_next q' u = le_next q u" if "u \<noteq> x" "Next_Slot u \<noteq> ?e" for u
    using that next_q1 by (auto simp: q'_def store_slot_def split: slot.split)
  have first: "lh_first q' = (if ?e = Head_Slot then le_next q x else lh_first q)"
    using next_q1 by (auto simp: q'_def store_slot_def split: slot.split)
  have at_e: "read_slot ?e q' = le_next q x"
    using e_ne next_q1 by (auto simp: q'_def store_slot_def split: slot.split)
  have prev: "le_prev q' u = le_prev q u" if "u \<noteq> x" "zs = [] \<or> u \<noteq> hd zs" for u
    using that lq_next [OF q] by (auto simp: q'_def q1_def split: list.splits option.splits)
  have path: "lpath q' Head_Slot ys"
  proof (rule lpath_cong [OF split(1)])
    fix s assume s: "s \<in> insert Head_Slot (Next_Slot ` set ys)" "s \<noteq> ?e"
    show "read_slot s q' = read_slot s q"
    proof (cases s)
      case Head_Slot
      with s first show ?thesis by auto
    next
      case (Next_Slot u)
      with s dist have "u \<noteq> x" by auto
      with s Next_Slot nxt show ?thesis by simp
    qed
  next
    fix u assume "u \<in> set ys"
    then show "le_prev q' u = le_prev q u" using dist by (intro prev; cases zs) auto
  qed (use dist in auto)
  have rest: "lseg q' ?e zs"
  proof (cases zs)
    case Nil
    with split(4) show ?thesis by (simp add: at_e)
  next
    case (Cons z zs')
    have "lseg q' (Next_Slot z) zs' = lseg q (Next_Slot z) zs'"
      by (rule lseg_cong) (use nxt prev dist Cons e_ne in \<open>force+\<close>)
    moreover have "le_prev q' z = Some ?e"
      using lq_next [OF q] Cons dist by (auto simp: q'_def q1_def)
    ultimately show ?thesis using split(4) Cons at_e by simp
  qed
  have out: "le_next q' u = None \<and> le_prev q' u = None" if "u \<notin> set (ys @ zs)" for u
  proof (cases "u = x")
    case True
    then show ?thesis by (simp add: q'_def)
  next
    case False
    have "Next_Slot u \<noteq> ?e" using that end_slot_in [of Head_Slot ys] by auto
    with False that nxt [of u] prev [of u] q show ?thesis
      by (cases zs) (auto simp: lq_list_def)
  qed
  have "lq_list q' (ys @ zs)"
    unfolding lq_list_def lseg_append using dist path rest out by auto
  with run show ?thesis by blast
qed

lemma lq_unlink_member:
  assumes "lq_list q xs" and "x \<in> set xs"
  obtains q' where "lq_unlink x q = Inr q'" and "lq_list q' (remove1 x xs)"
proof -
  obtain ys zs where xs: "xs = ys @ x # zs" using assms(2) by (meson split_list)
  have "x \<notin> set ys" using assms(1) xs by (simp add: lq_list_def)
  with lq_unlink_list [of q ys x zs] assms(1) xs that show thesis by auto
qed

text \<open>Removing an element that is on no list writes through a NULL pointer.\<close>

lemma lq_unlink_non_member:
  assumes "lq_list q xs" and "x \<notin> set xs"
  shows "lq_unlink x q = Inl Null_Deref"
  using assms by (simp add: lq_unlink_def list_remove_def lq_listD)

text \<open>The pointers represent one list only.\<close>

lemma lseg_unique: "lseg q sl xs \<Longrightarrow> lseg q sl ys \<Longrightarrow> xs = ys"
proof (induction xs arbitrary: sl ys)
  case Nil
  then show ?case by (cases ys) auto
next
  case (Cons x xs)
  then show ?case by (cases ys) auto
qed

lemma lq_list_unique: "lq_list q xs \<Longrightarrow> lq_list q ys \<Longrightarrow> xs = ys"
  by (auto simp: lq_list_def intro: lseg_unique)

text \<open>
  Inserting the element at the head once more makes it its own successor: the list it
  represents is gone, and a walk over it never reaches the end.
\<close>

lemma insert_head_twice:
  assumes "lh_first q = Some x"
  shows "le_next (list_insert_head x q) x = Some x"
    and "lh_first (list_insert_head x q) = Some x"
  using assms by (simp_all add: list_insert_head_def)

lemma self_loop_no_list:
  assumes "lh_first q = Some x" and "le_next q x = Some x"
  shows "\<not> lq_list q xs"
proof
  assume l: "lq_list q xs"
  with assms(1) obtain zs where "xs = [] @ x # zs" by (cases xs) (auto dest: lq_first)
  with l assms(2) lq_next [of q "[]" x zs] show False
    by (cases zs) (auto simp: lq_list_def)
qed

lemma unused_links: "lq_list q xs \<Longrightarrow> t \<notin> set xs \<Longrightarrow>
   q\<lparr>le_next := (le_next q)(t := None), le_prev := (le_prev q)(t := None)\<rparr> = q"
  by (simp add: lq_listD(3,4) fun_upd_idem)

end
