(* ===== verification/Usb_Path.thy ===== *)
theory Usb_Path
  imports Prelude
begin

section \<open>USB paths as text (usb_helpers.c)\<close>

text \<open>
  A USB path is the bus number followed by the port numbers down to the device, one byte
  each. The configuration, the REST requests and the replies write it as decimal numbers
  joined by dashes. This theory models the two conversions with the C library calls they
  use: \<open>strtok\<close>, \<open>atoi\<close>, \<open>snprintf\<close> into a fixed buffer, and \<open>strndup\<close>, which makes the
  copy of the path kept in a port. A C string is a \<open>string\<close> without its terminator.
\<close>

subsection \<open>Decimal numbers\<close>

definition digit_char :: "nat \<Rightarrow> char" where
  "digit_char d = char_of (48 + d)"

text \<open>The conversion \<open>%u\<close> of \<open>printf\<close>.\<close>

fun dec :: "nat \<Rightarrow> string" where
  "dec n = (if n < 10 then [digit_char n] else dec (n div 10) @ [digit_char (n mod 10)])"

declare dec.simps [simp del]

definition is_digit :: "char \<Rightarrow> bool" where
  "is_digit c \<longleftrightarrow> 48 \<le> (of_char c :: nat) \<and> (of_char c :: nat) \<le> 57"

definition is_space :: "char \<Rightarrow> bool" where
  "is_space c \<longleftrightarrow> (of_char c :: nat) = 32 \<or> (9 \<le> (of_char c :: nat) \<and> (of_char c :: nat) \<le> 13)"

fun digits_val :: "int \<Rightarrow> string \<Rightarrow> int" where
  "digits_val v [] = v"
| "digits_val v (c # cs) =
     (if is_digit c then digits_val (10 * v + int (of_char c) - 48) cs else v)"

text \<open>
  \<open>atoi\<close>: leading white space, an optional sign, then digits up to the first other
  character. The value is a mathematical integer; the callers keep its low eight bits.
\<close>

definition atoi :: "string \<Rightarrow> int" where
  "atoi s =
     (case dropWhile is_space s of
        [] \<Rightarrow> 0
      | c # cs \<Rightarrow>
          if c = CHR ''-'' then - digits_val 0 cs
          else if c = CHR ''+'' then digits_val 0 cs
          else digits_val 0 (c # cs))"

subsection \<open>Text to path\<close>

text \<open>One call of \<open>strtok\<close> with the delimiter dash: the token and the text after it.\<close>

definition next_token :: "string \<Rightarrow> (string \<times> string) option" where
  "next_token s =
     (let s = dropWhile (\<lambda>c. c = CHR ''-'') s
      in if s = [] then None
         else Some (takeWhile (\<lambda>c. c \<noteq> CHR ''-'') s, tl (dropWhile (\<lambda>c. c \<noteq> CHR ''-'') s)))"

text \<open>
  The loop of \<open>usb_helpers_convert_char_to_path\<close>: at most eight times, store the current
  token's value and get the next token. \<open>cur\<close> is the current token with the rest of the
  text, \<open>None\<close> for NULL.
\<close>

fun char_path_loop ::
  "nat \<Rightarrow> u8 list \<Rightarrow> (string \<times> string) option \<Rightarrow> u8 list \<times> (string \<times> string) option" where
  "char_path_loop 0 acc cur = (acc, cur)"
| "char_path_loop (Suc n) acc None = (acc, None)"
| "char_path_loop (Suc n) acc (Some (tok, rest)) =
     char_path_loop n (acc @ [word_of_int (atoi tok)]) (next_token rest)"

text \<open>The path on success (its length is \<open>path_len\<close>), \<open>None\<close> for the return value 1.\<close>

definition usb_helpers_convert_char_to_path :: "string \<Rightarrow> u8 list option" where
  "usb_helpers_convert_char_to_path path_str =
     (let (path, cur_val) = char_path_loop 8 [] (next_token path_str)
      in if length path = 8 \<and> cur_val \<noteq> None then None else Some path)"

subsection \<open>Path to text\<close>

text \<open>\<open>strndup\<close> copies up to the given length or the first zero byte.\<close>

definition strndup :: "u8 list \<Rightarrow> nat \<Rightarrow> u8 list" where
  "strndup p n = takeWhile (\<lambda>b. b \<noteq> 0) (take n p)"

text \<open>Reading byte \<open>i\<close> of an allocated string: its bytes, its terminator, nothing beyond.\<close>

definition cstr_read :: "u8 list \<Rightarrow> nat \<Rightarrow> u8 result" where
  "cstr_read s i =
     (if i < length s then Inr (s ! i) else if i = length s then Inr 0 else Inl Out_Of_Bounds)"

text \<open>
  The value \<open>%u\<close> prints for an element of a \<open>char\<close> array: on a platform where \<open>char\<close> is
  signed a byte from 128 up is sign-extended to 32 bits first. The signedness is a parameter of the model.
\<close>

definition promote_char :: "bool \<Rightarrow> u8 \<Rightarrow> nat" where
  "promote_char char_signed c =
     (if char_signed \<and> 128 \<le> unat c then 2 ^ 32 - 256 + unat c else unat c)"

text \<open>
  \<open>snprintf (buf + off, sz, \<dots>)\<close> of a text: it writes at most \<open>sz - 1\<close> characters and a
  terminator. Its return value is the length of the whole text.
\<close>

definition snprintf_at :: "string \<Rightarrow> nat \<Rightarrow> nat \<Rightarrow> string \<Rightarrow> string result" where
  "snprintf_at buf off sz txt =
     (let out = take (sz - 1) txt @ [CHR 0x00]
      in if off + length out \<le> length buf
         then Inr (take off buf @ out @ drop (off + length out) buf)
         else Inl Out_Of_Bounds)"

abbreviation MAX_USB_PATH :: nat where
  "MAX_USB_PATH \<equiv> 32"

fun path_char_loop ::
  "bool \<Rightarrow> u8 list \<Rightarrow> nat \<Rightarrow> nat \<Rightarrow> string \<Rightarrow> u8 \<Rightarrow> (string \<times> u8) result" where
  "path_char_loop sg path 0 i output len = Inr (output, len)"
| "path_char_loop sg path (Suc n) i output len =
     and_then (cstr_read path i) (\<lambda>c.
       let txt = dec (promote_char sg c) @ ''-''
       in and_then (snprintf_at output (unat len) 4 txt) (\<lambda>output.
            path_char_loop sg path n (Suc i) output (len + of_nat (length txt))))"

text \<open>
  \<open>usb_helpers_convert_path_char\<close>: \<open>path\<close> is the port's copy of the path, \<open>path_len\<close> the
  length kept beside it. The result is the buffer with \<open>output_len\<close>.
\<close>

definition usb_helpers_convert_path_char ::
  "bool \<Rightarrow> u8 list \<Rightarrow> u8 \<Rightarrow> (string \<times> u8) result" where
  "usb_helpers_convert_path_char sg path path_len =
     (let output = replicate MAX_USB_PATH (CHR 0x00);
          n = unat path_len - 1
      in and_then (path_char_loop sg path n 0 output 0) (\<lambda>(output, len).
           and_then (cstr_read path n) (\<lambda>c.
             let txt = dec (promote_char sg c)
             in and_then (snprintf_at output (unat len) 3 txt) (\<lambda>output.
                  Inr (output, len + of_nat (length txt))))))"

text \<open>The text a caller takes from the buffer.\<close>

definition path_text :: "string \<times> u8 \<Rightarrow> string" where
  "path_text r = take (unat (snd r)) (fst r)"

subsection \<open>Decimal numbers are read back\<close>

lemma digit_char_props:
  assumes "d < 10"
  shows "is_digit (digit_char d)" and "(of_char (digit_char d) :: nat) = 48 + d"
    and "digit_char d \<noteq> CHR ''-''" and "\<not> is_space (digit_char d)"
    and "digit_char d \<noteq> CHR ''+''" and "digit_char d \<noteq> CHR 0x00"
proof -
  show code: "(of_char (digit_char d) :: nat) = 48 + d"
    using assms by (simp add: digit_char_def)
  show "is_digit (digit_char d)" "\<not> is_space (digit_char d)"
    using assms code by (simp_all add: is_digit_def is_space_def)
  have "digit_char d \<noteq> c" if "(of_char c :: nat) < 48" for c
    using code that by auto
  then show "digit_char d \<noteq> CHR ''-''" "digit_char d \<noteq> CHR ''+''" "digit_char d \<noteq> CHR 0x00"
    by simp_all
qed

lemma dec_chars: "\<exists>d<10. c = digit_char d" if "c \<in> set (dec n)"
  using that
proof (induction n rule: dec.induct)
  case (1 n)
  show ?case
  proof (cases "n < 10")
    case True
    with "1.prems" show ?thesis by (auto simp: dec.simps [of n])
  next
    case False
    with "1.prems" consider "c \<in> set (dec (n div 10))" | "c = digit_char (n mod 10)"
      by (auto simp: dec.simps [of n])
    then show ?thesis
    proof cases
      case 1
      with False "1.IH" show ?thesis by blast
    next
      case 2
      then show ?thesis by (auto intro!: exI [of _ "n mod 10"])
    qed
  qed
qed

lemma dec_not_Nil [simp]: "dec n \<noteq> []"
  by (subst dec.simps) simp

lemma dec_no_dash: "c \<in> set (dec n) \<Longrightarrow> c \<noteq> CHR ''-''"
  by (auto dest!: dec_chars simp: digit_char_props)

lemma digits_val_snoc:
  assumes "\<forall>c\<in>set cs. is_digit c" and "is_digit d"
  shows "digits_val v (cs @ [d]) = 10 * digits_val v cs + int (of_char d) - 48"
  using assms by (induction cs arbitrary: v) auto

lemma digits_val_dec: "digits_val 0 (dec n) = int n"
proof (induction n rule: dec.induct)
  case (1 n)
  show ?case
  proof (cases "n < 10")
    case True
    then show ?thesis
      by (simp add: dec.simps [of n] digit_char_props)
  next
    case False
    have "\<forall>c\<in>set (dec (n div 10)). is_digit c"
      using dec_chars digit_char_props(1) by blast
    moreover have "10 * int (n div 10) + int (n mod 10) = int n" by presburger
    ultimately show ?thesis
      using False 1 by (simp add: dec.simps [of n] digits_val_snoc digit_char_props)
  qed
qed

lemma atoi_dec [simp]: "atoi (dec n) = int n"
proof -
  obtain c cs where ccs: "dec n = c # cs" by (cases "dec n") auto
  then obtain d where d: "d < 10" "c = digit_char d" using dec_chars [of c n] by auto
  have "dropWhile is_space (dec n) = c # cs" using d ccs by (simp add: digit_char_props)
  with d show ?thesis
    using digits_val_dec [of n] ccs by (simp add: atoi_def digit_char_props)
qed

lemma length_dec:
  "n < 10 \<Longrightarrow> length (dec n) = 1"
  "10 \<le> n \<Longrightarrow> n < 100 \<Longrightarrow> length (dec n) = 2"
  by (simp_all add: dec.simps)

lemma length_dec_le: "n < 100 \<Longrightarrow> length (dec n) \<le> 2"
  by (cases "n < 10") (simp_all add: length_dec)

lemma dec_3: "100 \<le> n \<Longrightarrow> n < 1000 \<Longrightarrow> dec n = dec (n div 10) @ [digit_char (n mod 10)] \<and> length (dec (n div 10)) = 2"
  by (simp add: dec.simps [of n] length_dec)

subsection \<open>Tokens\<close>

text \<open>The text of a path as it should be: the numbers joined by dashes.\<close>

fun join_dash :: "string list \<Rightarrow> string" where
  "join_dash [] = []"
| "join_dash [t] = t"
| "join_dash (t # ts) = t @ CHR ''-'' # join_dash ts"

lemma next_token_last:
  assumes "t \<noteq> []" and "CHR ''-'' \<notin> set t"
  shows "next_token t = Some (t, [])"
proof -
  have "takeWhile (\<lambda>c. c \<noteq> CHR ''-'') t = t" "dropWhile (\<lambda>c. c \<noteq> CHR ''-'') t = []"
    using assms by (auto simp: dropWhile_eq_Nil_conv intro!: takeWhile_all)
  moreover have "dropWhile (\<lambda>c. c = CHR ''-'') t = t"
    using assms by (cases t) auto
  ultimately show ?thesis
    using assms by (simp add: next_token_def del: dropWhile_eq_Nil_conv)
qed

lemma next_token_dash:
  assumes "t \<noteq> []" and "CHR ''-'' \<notin> set t"
  shows "next_token (t @ CHR ''-'' # rest) = Some (t, rest)"
proof -
  have "takeWhile (\<lambda>c. c \<noteq> CHR ''-'') (t @ CHR ''-'' # rest) = t"
    "dropWhile (\<lambda>c. c \<noteq> CHR ''-'') (t @ CHR ''-'' # rest) = CHR ''-'' # rest"
    using assms by (auto simp: takeWhile_append dropWhile_append)
  moreover have "dropWhile (\<lambda>c. c = CHR ''-'') (t @ CHR ''-'' # rest) = t @ CHR ''-'' # rest"
    using assms by (cases t) auto
  ultimately show ?thesis using assms by (simp add: next_token_def)
qed

text \<open>All the tokens of a text, in order.\<close>

lemma next_token_shorter: "next_token s = Some (t, r) \<Longrightarrow> length r < length s"
proof -
  assume "next_token s = Some (t, r)"
  then have ne: "dropWhile (\<lambda>c. c = CHR ''-'') s \<noteq> []"
    and r: "r = tl (dropWhile (\<lambda>c. c \<noteq> CHR ''-'') (dropWhile (\<lambda>c. c = CHR ''-'') s))"
    by (auto simp: next_token_def Let_def split: if_splits)
  let ?s = "dropWhile (\<lambda>c. c = CHR ''-'') s"
  have "length r \<le> length ?s - 1"
    using length_dropWhile_le [of "\<lambda>c. c \<noteq> CHR ''-''" ?s] r by simp
  also have "\<dots> < length ?s" using ne by (cases ?s) auto
  also have "\<dots> \<le> length s" by (rule length_dropWhile_le)
  finally show ?thesis .
qed

function tokens :: "string \<Rightarrow> string list" where
  "tokens s = (case next_token s of None \<Rightarrow> [] | Some (t, r) \<Rightarrow> t # tokens r)"
  by pat_completeness auto
termination
  by (relation "measure length") (auto dest: next_token_shorter)

declare tokens.simps [simp del]

lemma tokens_step:
  "next_token s = None \<Longrightarrow> tokens s = []"
  "next_token s = Some (t, r) \<Longrightarrow> tokens s = t # tokens r"
  by (simp_all add: tokens.simps)

lemma tokens_join_dash:
  "\<forall>t\<in>set ts. t \<noteq> [] \<and> CHR ''-'' \<notin> set t \<Longrightarrow> tokens (join_dash ts) = ts"
proof (induction ts rule: join_dash.induct)
  case 1
  have "next_token [] = None" by (simp add: next_token_def)
  then show ?case by (simp add: tokens_step)
next
  case (2 t)
  have "next_token [] = None" by (simp add: next_token_def)
  then have "tokens [] = []" by (simp add: tokens_step)
  with 2 show ?case by (simp add: tokens_step next_token_last)
next
  case (3 t t' ts)
  then show ?case by (simp add: tokens_step next_token_dash)
qed

text \<open>The loop stores the values of the first eight tokens.\<close>

definition token_byte :: "string \<Rightarrow> u8" where
  "token_byte t = word_of_int (atoi t)"

lemma char_path_loop_tokens:
  shows fst_char_path_loop: "fst (char_path_loop n acc (next_token s)) =
           acc @ map token_byte (take n (tokens s))"
    and snd_char_path_loop: "snd (char_path_loop n acc (next_token s)) = None \<longleftrightarrow>
           length (tokens s) \<le> n"
proof (induction n arbitrary: acc s)
  case 0
  {
    case 1
    then show ?case by simp
  next
    case 2
    then show ?case by (cases "next_token s") (auto simp: tokens_step)
  }
next
  case (Suc n)
  {
    case 1
    then show ?case
      using Suc.IH(1) by (cases "next_token s") (auto simp: tokens_step token_byte_def)
  next
    case 2
    then show ?case
      using Suc.IH(2) by (cases "next_token s") (auto simp: tokens_step token_byte_def)
  }
qed

lemma convert_char_to_path_tokens:
  "usb_helpers_convert_char_to_path s =
     (if length (tokens s) \<le> 8 then Some (map token_byte (tokens s)) else None)"
proof -
  obtain p c where pc: "char_path_loop 8 [] (next_token s) = (p, c)" by fastforce
  then have "p = map token_byte (take 8 (tokens s))" "c = None \<longleftrightarrow> length (tokens s) \<le> 8"
    using fst_char_path_loop [of 8 "[]" s] snd_char_path_loop [of 8 "[]" s] by auto
  with pc show ?thesis by (auto simp: usb_helpers_convert_char_to_path_def min_def)
qed

subsection \<open>Printing\<close>

lemma snprintf_at_fits:
  assumes "length txt < sz" and "off + sz \<le> length buf" and "0 < sz"
  shows "\<exists>buf'. snprintf_at buf off sz txt = Inr buf' \<and> length buf' = length buf \<and>
           take (off + length txt) buf' = take off buf @ txt"
  using assms by (auto simp: snprintf_at_def Let_def min_def)

lemma promote_char_small: "unat c < 128 \<Longrightarrow> promote_char sg c = unat c"
  by (simp add: promote_char_def)

definition printed :: "u8 list \<Rightarrow> string" where
  "printed p = join_dash (map (\<lambda>b. dec (unat b)) p)"

lemma join_dash_snoc:
  "join_dash (ts @ [t]) = concat (map (\<lambda>t. t @ ''-'') ts) @ t"
  by (induction ts rule: join_dash.induct) auto

definition dashed :: "u8 list \<Rightarrow> string" where
  "dashed p = concat (map (\<lambda>b. dec (unat b) @ ''-'') p)"

lemma path_char_loop_prints:
  assumes "length buf = MAX_USB_PATH" and "take (length pre) buf = pre"
    and "length pre + 3 * n \<le> 28" and "i + n \<le> length path"
    and "\<forall>b\<in>set path. unat b < 100"
  shows "\<exists>buf'. path_char_loop sg path n i buf (of_nat (length pre)) =
             Inr (buf', of_nat (length (pre @ dashed (take n (drop i path))))) \<and>
           length buf' = MAX_USB_PATH \<and>
           take (length (pre @ dashed (take n (drop i path)))) buf' =
             pre @ dashed (take n (drop i path))"
  using assms
proof (induction n arbitrary: i buf pre)
  case 0
  then show ?case by (simp add: dashed_def)
next
  case (Suc n)
  let ?b = "path ! i"
  let ?t = "dec (unat ?b) @ ''-''"
  have i: "i < length path" and small: "unat ?b < 100" using Suc.prems by auto
  have t: "length ?t \<le> 3" using length_dec_le [OF small] by simp
  have len: "unat (of_nat (length pre) :: u8) = length pre"
    using Suc.prems(3) by (simp add: unat_of_nat)
  obtain out1 where out1: "snprintf_at buf (length pre) 4 ?t = Inr out1"
    "length out1 = MAX_USB_PATH" "take (length (pre @ ?t)) out1 = pre @ ?t"
    using snprintf_at_fits [of ?t 4 "length pre" buf] t Suc.prems(1,2,3) by auto
  have "drop i path = ?b # drop (Suc i) path" using i by (simp add: Cons_nth_drop_Suc)
  moreover have "promote_char sg ?b = unat ?b" using small by (simp add: promote_char_small)
  moreover have "length (pre @ ?t) + 3 * n \<le> 28" using Suc.prems(3) t by simp
  moreover note Suc.IH [of out1 "pre @ ?t" "Suc i"]
  ultimately show ?case
    using out1 Suc.prems i len by (simp add: cstr_read_def Let_def dashed_def add_ac)
qed

lemma convert_path_char_prints:
  assumes "path \<noteq> []" and "length path \<le> 8" and "\<forall>b\<in>set path. unat b < 100"
  shows "\<exists>r. usb_helpers_convert_path_char sg path (of_nat (length path)) = Inr r \<and>
           path_text r = printed path"
proof -
  define n where "n = length path - 1"
  let ?pre = "dashed (take n path)"
  let ?t = "dec (unat (path ! n))"
  have path: "path = take n path @ [path ! n]"
    using assms(1) take_Suc_conv_app_nth [of n path] by (simp add: n_def)
  have n: "n < length path" "n \<le> 7" using assms by (auto simp: n_def)
  have len: "unat (of_nat (length path) :: u8) - 1 = n"
    using assms(2) by (simp add: unat_of_nat n_def)
  obtain out1 where out1: "path_char_loop sg path n 0 (replicate MAX_USB_PATH (CHR 0x00)) 0 =
      Inr (out1, of_nat (length ?pre))" "length out1 = MAX_USB_PATH" "take (length ?pre) out1 = ?pre"
    using path_char_loop_prints [of "replicate MAX_USB_PATH (CHR 0x00)" "[]" n 0 path sg] n assms(3)
    by auto
  have small: "unat (path ! n) < 100" using n assms(3) by auto
  have pre: "length ?pre \<le> 3 * n"
  proof -
    have "length ?pre = sum_list (map (\<lambda>b. Suc (length (dec (unat b)))) (take n path))"
      by (simp add: dashed_def length_concat comp_def)
    also have "\<dots> \<le> sum_list (map (\<lambda>_. 3) (take n path))"
    proof (rule sum_list_mono)
      fix b assume "b \<in> set (take n path)"
      then have "unat b < 100" using assms(3) by (auto dest: in_set_takeD)
      then show "Suc (length (dec (unat b))) \<le> 3" using length_dec_le by simp
    qed
    finally show ?thesis using n by (simp add: sum_list_triv)
  qed
  have lens: "unat (of_nat (length ?pre) :: u8) = length ?pre"
      "unat (of_nat (length (?pre @ ?t)) :: u8) = length (?pre @ ?t)"
    using pre n length_dec_le [OF small] by (simp_all add: unat_of_nat del: of_nat_add)
  obtain out2 where out2: "snprintf_at out1 (length ?pre) 3 ?t = Inr out2"
    "take (length (?pre @ ?t)) out2 = ?pre @ ?t"
    using snprintf_at_fits [of ?t 3 "length ?pre" out1] out1 pre n length_dec_le [OF small] by auto
  have "usb_helpers_convert_path_char sg path (of_nat (length path)) =
      Inr (out2, of_nat (length (?pre @ ?t)))"
    using out1(1) out2(1) n len lens small
    by (simp add: usb_helpers_convert_path_char_def cstr_read_def Let_def promote_char_small)
  moreover have "printed path = ?pre @ ?t"
    unfolding printed_def by (subst path) (simp add: join_dash_snoc dashed_def comp_def)
  ultimately show ?thesis using out2(2) lens(2) by (simp add: path_text_def)
qed

lemma convert_char_to_path_printed:
  assumes "length path \<le> 8"
  shows "usb_helpers_convert_char_to_path (printed path) = Some path"
proof -
  have "tokens (printed path) = map (\<lambda>b. dec (unat b)) path"
    unfolding printed_def by (rule tokens_join_dash) (auto dest: dec_no_dash)
  then show ?thesis
    using assms by (simp add: convert_char_to_path_tokens token_byte_def comp_def)
qed

lemma strndup_no_zero: "0 \<notin> set p \<Longrightarrow> length p \<le> n \<Longrightarrow> strndup p n = p"
  unfolding strndup_def by (auto intro!: takeWhile_all)

end
