(* ===== verification/Json.thy ===== *)
theory Json
  imports Prelude
begin

section \<open>JSON values\<close>

text \<open>
  The values of json-c that the sources build and take apart. Objects keep the order of
  their members, as \<open>json_object_object_foreach\<close> walks them. Reading and printing text,
  and the conversions of a value to an integer or a string, are code of json-c: they are
  the record \<open>json_lib\<close>, a parameter of the model.
\<close>

datatype json =
    JNull
  | JBool bool
  | JInt int
  | JString string
  | JArray "json list"
  | JObject "(string \<times> json) list"

record json_lib =
  json_tokener_parse :: "string \<Rightarrow> json option"
  json_to_string :: "json \<Rightarrow> string"
  json_object_get_int :: "json \<Rightarrow> int"
  json_object_get_string :: "json \<Rightarrow> string option"

text \<open>
  What the sources rely on: an integer that fits 32 bits and a string are returned as they
  are, and what was printed is parsed again.
\<close>

definition json_lib_ok :: "json_lib \<Rightarrow> bool" where
  "json_lib_ok jl \<longleftrightarrow>
     (\<forall>i. - (2 ^ 31) \<le> i \<and> i < 2 ^ 31 \<longrightarrow> json_object_get_int jl (JInt i) = i) \<and>
     (\<forall>t. json_object_get_string jl (JString t) = Some t)"

text \<open>The members of an object; walking anything else is a read through a wrong pointer.\<close>

definition json_members :: "json \<Rightarrow> (string \<times> json) list result" where
  "json_members j = (case j of JObject ms \<Rightarrow> Inr ms | _ \<Rightarrow> Inl Null_Deref)"

definition json_elements :: "json \<Rightarrow> json list result" where
  "json_elements j = (case j of JArray js \<Rightarrow> Inr js | _ \<Rightarrow> Inl Null_Deref)"

end
