(* ===== verification/Http_Url.thy ===== *)
theory Http_Url
  imports Usb_Path
begin

text \<open>
  The part of http_parser.c that looks at single characters and at URLs: the classes of
  characters, the states of the parser, the automaton for the characters of a URL, which the
  parser of requests uses as well, and \<open>http_parser_parse_url\<close>, which finds the fields of a URL.
  The sources are built with \<open>HTTP_PARSER_STRICT\<close>, the default, and with assertions.
\<close>

section \<open>Classes of characters\<close>

abbreviation ccode :: "char \<Rightarrow> nat" where "ccode c \<equiv> of_char c"

abbreviation CR :: char where "CR \<equiv> CHR 0x0D"
abbreviation LF :: char where "LF \<equiv> CHR 0x0A"
abbreviation NUL :: char where "NUL \<equiv> CHR 0x00"
abbreviation TAB :: char where "TAB \<equiv> CHR 0x09"

text \<open>\<open>c | 0x20\<close>\<close>

fun lower :: "char \<Rightarrow> char" where
  "lower (Char b0 b1 b2 b3 b4 b5 b6 b7) = Char b0 b1 b2 b3 b4 True b6 b7"

definition is_alpha :: "char \<Rightarrow> bool" where
  "is_alpha c \<longleftrightarrow> 97 \<le> ccode (lower c) \<and> ccode (lower c) \<le> 122"

definition is_alphanum :: "char \<Rightarrow> bool" where
  "is_alphanum c \<longleftrightarrow> is_alpha c \<or> is_digit c"

definition is_hex :: "char \<Rightarrow> bool" where
  "is_hex c \<longleftrightarrow> is_digit c \<or> 97 \<le> ccode (lower c) \<and> ccode (lower c) \<le> 102"

definition is_mark :: "char \<Rightarrow> bool" where
  "is_mark c \<longleftrightarrow> c \<in> set ''-_.!~*()'' \<or> c = CHR 0x27"

definition is_userinfo_char :: "char \<Rightarrow> bool" where
  "is_userinfo_char c \<longleftrightarrow> is_alphanum c \<or> is_mark c \<or> c \<in> set ''%;:&=+$,''"

definition is_host_char :: "char \<Rightarrow> bool" where
  "is_host_char c \<longleftrightarrow> is_alphanum c \<or> c = CHR ''.'' \<or> c = CHR ''-''"

text \<open>The bit table: a bit for each character, eight to a number.\<close>

definition normal_url_char :: "nat list" where
  "normal_url_char =
     [0, 0, 0, 0,
      2 + 4 + 16 + 32 + 64 + 128,
      1 + 2 + 4 + 8 + 16 + 32 + 64 + 128,
      1 + 2 + 4 + 8 + 16 + 32 + 64 + 128,
      1 + 2 + 4 + 8 + 16 + 32 + 64,
      1 + 2 + 4 + 8 + 16 + 32 + 64 + 128,
      1 + 2 + 4 + 8 + 16 + 32 + 64 + 128,
      1 + 2 + 4 + 8 + 16 + 32 + 64 + 128,
      1 + 2 + 4 + 8 + 16 + 32 + 64 + 128,
      1 + 2 + 4 + 8 + 16 + 32 + 64 + 128,
      1 + 2 + 4 + 8 + 16 + 32 + 64 + 128,
      1 + 2 + 4 + 8 + 16 + 32 + 64 + 128,
      1 + 2 + 4 + 8 + 16 + 32 + 64] @ replicate 16 0"

definition is_url_char :: "char \<Rightarrow> bool" where
  "is_url_char c \<longleftrightarrow> bit (normal_url_char ! (ccode c div 8)) (ccode c mod 8)"

text \<open>The characters of the table without their table.\<close>

lemma is_url_char_range:
  "is_url_char c \<longleftrightarrow> 33 \<le> ccode c \<and> ccode c \<le> 126 \<and> c \<noteq> CHR ''#'' \<and> c \<noteq> CHR ''?''"
proof -
  have "list_all (\<lambda>q. list_all (\<lambda>r. bit (normal_url_char ! q) r \<longleftrightarrow>
      33 \<le> 8 * q + r \<and> 8 * q + r \<le> 126 \<and> 8 * q + r \<noteq> 35 \<and> 8 * q + r \<noteq> 63) [0..<8]) [0..<32]"
    by (simp add: normal_url_char_def upt_rec bit_numeral_rec bit_Suc_0_iff)
  then have "bit (normal_url_char ! q) r \<longleftrightarrow> 33 \<le> 8 * q + r \<and> 8 * q + r \<le> 126 \<and> 8 * q + r \<noteq> 35 \<and> 8 * q + r \<noteq> 63"
    if "q < 32" "r < 8" for q r
    using that unfolding list_all_iff by simp
  moreover have "ccode c div 8 < 32" "ccode c mod 8 < 8" "8 * (ccode c div 8) + ccode c mod 8 = ccode c"
    using nat_of_char_less_256 [of c] by (simp_all add: less_mult_imp_div_less)
  moreover have "c = CHR ''#'' \<longleftrightarrow> ccode c = 35" "c = CHR ''?'' \<longleftrightarrow> ccode c = 63"
    using of_char_eq_iff [of c "CHR ''#''", where ?'a = nat] of_char_eq_iff [of c "CHR ''?''", where ?'a = nat] by simp_all
  ultimately show ?thesis by (simp add: is_url_char_def)
qed

section \<open>The states of the parser\<close>

datatype (plugins only: code size) http_state =
    s_dead
  | s_start_req_or_res | s_res_or_resp_H | s_start_res | s_res_H | s_res_HT | s_res_HTT | s_res_HTTP
  | s_res_first_http_major | s_res_http_major | s_res_first_http_minor | s_res_http_minor
  | s_res_first_status_code | s_res_status_code | s_res_status_start | s_res_status
  | s_res_line_almost_done
  | s_start_req
  | s_req_method | s_req_spaces_before_url | s_req_schema | s_req_schema_slash
  | s_req_schema_slash_slash | s_req_server_start | s_req_server | s_req_server_with_at
  | s_req_path | s_req_query_string_start | s_req_query_string | s_req_fragment_start
  | s_req_fragment | s_req_http_start | s_req_http_H | s_req_http_HT | s_req_http_HTT
  | s_req_http_HTTP | s_req_first_http_major | s_req_http_major | s_req_first_http_minor
  | s_req_http_minor | s_req_line_almost_done
  | s_header_field_start | s_header_field | s_header_value_start | s_header_value
  | s_header_value_lws
  | s_header_almost_done
  | s_chunk_size_start | s_chunk_size | s_chunk_parameters | s_chunk_size_almost_done
  | s_headers_almost_done | s_headers_done
  | s_chunk_data | s_chunk_data_almost_done | s_chunk_data_done
  | s_body_identity | s_body_identity_eof
  | s_message_done

section \<open>The characters of a URL\<close>

definition parse_url_char :: "http_state \<Rightarrow> char \<Rightarrow> http_state" where
  "parse_url_char s ch =
     (if ch = CHR '' '' \<or> ch = CR \<or> ch = LF then s_dead
      else if ch = TAB \<or> ch = CHR 0x0C then s_dead
      else if s = s_req_spaces_before_url then
        if ch = CHR ''/'' \<or> ch = CHR ''*'' then s_req_path
        else if is_alpha ch then s_req_schema
        else s_dead
      else if s = s_req_schema then
        if is_alpha ch then s
        else if ch = CHR '':'' then s_req_schema_slash
        else s_dead
      else if s = s_req_schema_slash then
        if ch = CHR ''/'' then s_req_schema_slash_slash else s_dead
      else if s = s_req_schema_slash_slash then
        if ch = CHR ''/'' then s_req_server_start else s_dead
      else if s = s_req_server_with_at \<and> ch = CHR ''@'' then s_dead
      else if s = s_req_server_with_at \<or> s = s_req_server_start \<or> s = s_req_server then
        if ch = CHR ''/'' then s_req_path
        else if ch = CHR ''?'' then s_req_query_string_start
        else if ch = CHR ''@'' then s_req_server_with_at
        else if is_userinfo_char ch \<or> ch = CHR ''['' \<or> ch = CHR '']'' then s_req_server
        else s_dead
      else if s = s_req_path then
        if is_url_char ch then s
        else if ch = CHR ''?'' then s_req_query_string_start
        else if ch = CHR ''#'' then s_req_fragment_start
        else s_dead
      else if s = s_req_query_string_start \<or> s = s_req_query_string then
        if is_url_char ch then s_req_query_string
        else if ch = CHR ''?'' then s_req_query_string
        else if ch = CHR ''#'' then s_req_fragment_start
        else s_dead
      else if s = s_req_fragment_start then
        if is_url_char ch then s_req_fragment
        else if ch = CHR ''?'' then s_req_fragment
        else if ch = CHR ''#'' then s
        else s_dead
      else if s = s_req_fragment then
        if is_url_char ch then s
        else if ch = CHR ''?'' \<or> ch = CHR ''#'' then s
        else s_dead
      else s_dead)"

text \<open>The states inside a URL; a state that the automaton returns is one of them.\<close>

definition url_states :: "http_state set" where
  "url_states =
     {s_req_schema, s_req_schema_slash, s_req_schema_slash_slash, s_req_server_start, s_req_server,
      s_req_server_with_at, s_req_path, s_req_query_string_start, s_req_query_string,
      s_req_fragment_start, s_req_fragment}"

lemma parse_url_char_states: "parse_url_char s ch = s_dead \<or> parse_url_char s ch \<in> url_states"
  by (simp add: parse_url_char_def url_states_def)

section \<open>The host of a URL\<close>

datatype http_host_state =
    s_http_host_dead | s_http_userinfo_start | s_http_userinfo | s_http_host_start
  | s_http_host_v6_start | s_http_host | s_http_host_v6 | s_http_host_v6_end
  | s_http_host_port_start | s_http_host_port

definition http_parse_host_char :: "http_host_state \<Rightarrow> char \<Rightarrow> http_host_state" where
  "http_parse_host_char s ch =
     (if s = s_http_userinfo \<or> s = s_http_userinfo_start then
        if ch = CHR ''@'' then s_http_host_start
        else if is_userinfo_char ch then s_http_userinfo
        else s_http_host_dead
      else if s = s_http_host_start then
        if ch = CHR ''['' then s_http_host_v6_start
        else if is_host_char ch then s_http_host
        else s_http_host_dead
      else if s = s_http_host \<and> is_host_char ch then s_http_host
      else if s = s_http_host \<or> s = s_http_host_v6_end then
        if ch = CHR '':'' then s_http_host_port_start else s_http_host_dead
      else if s = s_http_host_v6 \<and> ch = CHR '']'' then s_http_host_v6_end
      else if s = s_http_host_v6 \<or> s = s_http_host_v6_start then
        if is_hex ch \<or> ch = CHR '':'' \<or> ch = CHR ''.'' then s_http_host_v6 else s_http_host_dead
      else if s = s_http_host_port \<or> s = s_http_host_port_start then
        if is_digit ch then s_http_host_port else s_http_host_dead
      else s_http_host_dead)"

text \<open>The fields of a URL: a set of bits, and an offset and a length for each.\<close>

datatype http_url_field = UF_SCHEMA | UF_HOST | UF_PORT | UF_PATH | UF_QUERY | UF_FRAGMENT | UF_USERINFO

primrec uf_num :: "http_url_field \<Rightarrow> nat" where
  "uf_num UF_SCHEMA = 0"
| "uf_num UF_HOST = 1"
| "uf_num UF_PORT = 2"
| "uf_num UF_PATH = 3"
| "uf_num UF_QUERY = 4"
| "uf_num UF_FRAGMENT = 5"
| "uf_num UF_USERINFO = 6"

record http_parser_url =
  field_set :: u16
  url_port :: u16
  field_off :: "http_url_field \<Rightarrow> u16"
  field_len :: "http_url_field \<Rightarrow> u16"

definition uf_bit :: "http_url_field \<Rightarrow> u16" where
  "uf_bit f = push_bit (uf_num f) 1"

definition has_field :: "http_parser_url \<Rightarrow> http_url_field \<Rightarrow> bool" where
  "has_field u f \<longleftrightarrow> and (field_set u) (uf_bit f) \<noteq> 0"

text \<open>A field begins at offset \<open>i\<close>; one more byte of it.\<close>

definition open_field :: "http_url_field \<Rightarrow> nat \<Rightarrow> http_parser_url \<Rightarrow> http_parser_url" where
  "open_field f i u =
     u\<lparr>field_off := (field_off u)(f := of_nat i), field_len := (field_len u)(f := 0),
       field_set := or (field_set u) (uf_bit f)\<rparr>"

definition grow_field :: "http_url_field \<Rightarrow> http_parser_url \<Rightarrow> http_parser_url" where
  "grow_field f u = u\<lparr>field_len := (field_len u)(f := field_len u f + 1)\<rparr>"

text \<open>What the loop does with the state reached at offset \<open>i\<close>; the host keeps its length.\<close>

definition host_fields :: "http_host_state \<Rightarrow> http_host_state \<Rightarrow> nat \<Rightarrow> http_parser_url \<Rightarrow> http_parser_url" where
  "host_fields s new_s i u =
     (if new_s = s_http_host \<or> new_s = s_http_host_v6 then
        grow_field UF_HOST
          (if s \<noteq> new_s then u\<lparr>field_off := (field_off u)(UF_HOST := of_nat i)\<rparr> else u)
      else if new_s = s_http_host_port then
        grow_field UF_PORT (if s \<noteq> s_http_host_port then open_field UF_PORT i u else u)
      else if new_s = s_http_userinfo then
        grow_field UF_USERINFO (if s \<noteq> s_http_userinfo then open_field UF_USERINFO i u else u)
      else u)"

text \<open>The characters from offset \<open>i\<close> on; \<open>None\<close> is a failure.\<close>

fun parse_host_loop ::
  "string \<Rightarrow> nat \<Rightarrow> http_host_state \<Rightarrow> http_parser_url \<Rightarrow> (http_host_state \<times> http_parser_url) option" where
  "parse_host_loop [] i s u = Some (s, u)"
| "parse_host_loop (c # cs) i s u =
     (let new_s = http_parse_host_char s c
      in if new_s = s_http_host_dead then None
         else parse_host_loop cs (Suc i) new_s (host_fields s new_s i u))"

definition http_parse_host :: "string \<Rightarrow> http_parser_url \<Rightarrow> bool \<Rightarrow> http_parser_url option" where
  "http_parse_host buf u found_at =
     (let off = unat (field_off u UF_HOST);
          len = unat (field_len u UF_HOST);
          u = u\<lparr>field_len := (field_len u)(UF_HOST := 0)\<rparr>
      in case parse_host_loop (take len (drop off buf)) off
                (if found_at then s_http_userinfo_start else s_http_host_start) u of
           None \<Rightarrow> None
         | Some (s, u) \<Rightarrow>
             if s \<in> {s_http_host_start, s_http_host_v6_start, s_http_host_v6, s_http_host_port_start,
                      s_http_userinfo, s_http_userinfo_start}
             then None else Some u)"

section \<open>The fields of a URL\<close>

text \<open>
  The field that a state of the automaton belongs to. \<open>Some None\<close> is a delimiter, which is
  skipped; \<open>None\<close> is a state that ends the program by an assertion.
\<close>

definition field_of_state :: "http_state \<Rightarrow> http_url_field option option" where
  "field_of_state s =
     (if s \<in> {s_req_schema_slash, s_req_schema_slash_slash, s_req_server_start,
               s_req_query_string_start, s_req_fragment_start} then Some None
      else if s = s_req_schema then Some (Some UF_SCHEMA)
      else if s = s_req_server_with_at \<or> s = s_req_server then Some (Some UF_HOST)
      else if s = s_req_path then Some (Some UF_PATH)
      else if s = s_req_query_string then Some (Some UF_QUERY)
      else if s = s_req_fragment then Some (Some UF_FRAGMENT)
      else None)"

fun parse_url_loop ::
  "string \<Rightarrow> nat \<Rightarrow> http_state \<Rightarrow> http_url_field option \<Rightarrow> bool \<Rightarrow> http_parser_url \<Rightarrow>
   (http_parser_url \<times> bool) option result" where
  "parse_url_loop [] i s old_uf found_at u = Inr (Some (u, found_at))"
| "parse_url_loop (c # cs) i s old_uf found_at u =
     (let s = parse_url_char s c
      in if s = s_dead then Inr None
         else case field_of_state s of
                None \<Rightarrow> Inl Abort
              | Some None \<Rightarrow> parse_url_loop cs (Suc i) s old_uf found_at u
              | Some (Some uf) \<Rightarrow>
                  let found_at = (found_at \<or> s = s_req_server_with_at)
                  in if old_uf = Some uf then parse_url_loop cs (Suc i) s old_uf found_at (grow_field uf u)
                     else parse_url_loop cs (Suc i) s (Some uf) found_at (grow_field uf (open_field uf i u)))"

text \<open>
  The text is the URL and what lies behind it in memory, since \<open>strtoul\<close> reads the digits of
  the port up to the first other character. \<open>None\<close> is the result 1. The offsets and lengths
  that the structure had before are those given: a URL with a scheme and no host reads those of
  the host.
\<close>

definition http_parser_parse_url ::
  "string \<Rightarrow> nat \<Rightarrow> bool \<Rightarrow> http_parser_url \<Rightarrow> http_parser_url option result" where
  "http_parser_parse_url buf buflen is_connect u =
     and_then
       (parse_url_loop (take buflen buf) 0
          (if is_connect then s_req_server_start else s_req_spaces_before_url) None False
          (u\<lparr>url_port := 0, field_set := 0\<rparr>)) (\<lambda>r.
       case r of
         None \<Rightarrow> Inr None
       | Some (u, found_at) \<Rightarrow>
           case (if has_field u UF_SCHEMA \<or> has_field u UF_HOST
                 then http_parse_host buf u found_at else Some u) of
             None \<Rightarrow> Inr None
           | Some u \<Rightarrow>
               if is_connect \<and> field_set u \<noteq> or (uf_bit UF_HOST) (uf_bit UF_PORT) then Inr None
               else if has_field u UF_PORT then
                 let v = digits_val 0 (drop (unat (field_off u UF_PORT)) buf)
                 in if 0xffff < v then Inr None else Inr (Some (u\<lparr>url_port := word_of_int v\<rparr>))
               else Inr (Some u))"

text \<open>The assertion on the state does not fail: the automaton stays in the states of a URL.\<close>

lemma field_of_url_state: "s \<in> url_states \<Longrightarrow> field_of_state s \<noteq> None"
  by (auto simp: url_states_def field_of_state_def)

lemma parse_url_loop_returns: "\<exists>r. parse_url_loop cs i s old_uf found_at u = Inr r"
proof (induction cs arbitrary: i s old_uf found_at u)
  case (Cons c cs)
  show ?case
    using parse_url_char_states [of s c] field_of_url_state [of "parse_url_char s c"]
    by (auto simp: Let_def Cons.IH split: option.split)
qed simp

lemma http_parser_parse_url_returns: "\<exists>r. http_parser_parse_url buf buflen is_connect u = Inr r"
proof -
  obtain r where "parse_url_loop (take buflen buf) 0
      (if is_connect then s_req_server_start else s_req_spaces_before_url) None False
      (u\<lparr>url_port := 0, field_set := 0\<rparr>) = Inr r"
    using parse_url_loop_returns by blast
  then show ?thesis by (auto simp: http_parser_parse_url_def Let_def split: option.split)
qed

text \<open>The fields of a URL that has all of them.\<close>

lemma parse_url_example:
  "\<exists>u'. http_parser_parse_url ''http://a@h.x:80/p?q#f'' 21 False u = Inr (Some u') \<and>
     field_off u' UF_HOST = 9 \<and> field_len u' UF_HOST = 3 \<and> url_port u' = 80 \<and>
     field_off u' UF_PATH = 15 \<and> field_len u' UF_PATH = 2 \<and> field_len u' UF_USERINFO = 1"
  by (simp add: http_parser_parse_url_def http_parse_host_def parse_url_char_def http_parse_host_char_def
      field_of_state_def host_fields_def open_field_def grow_field_def has_field_def uf_bit_def Let_def
      is_alpha_def is_url_char_range is_userinfo_char_def is_alphanum_def is_host_char_def is_mark_def is_digit_def
      is_hex_def)

end
