(* ===== verification/Http_Parser.thy ===== *)
theory Http_Parser
  imports Http_Url
begin

text \<open>
  The HTTP parser of http_parser.c: an automaton that is fed with the bytes of a request or a
  response as they arrive and calls back when it has seen a part of the message. The code of
  each state is a function from the parser and the byte to the new parser, the marks and
  callbacks of the code in their order, and the way the code is left. The loop over the bytes
  carries these out.
\<close>

section \<open>Data\<close>

datatype (plugins only: code size) http_method =
    HTTP_DELETE | HTTP_GET | HTTP_HEAD | HTTP_POST | HTTP_PUT
  | HTTP_CONNECT | HTTP_OPTIONS | HTTP_TRACE
  | HTTP_COPY | HTTP_LOCK | HTTP_MKCOL | HTTP_MOVE | HTTP_PROPFIND | HTTP_PROPPATCH | HTTP_SEARCH
  | HTTP_UNLOCK
  | HTTP_REPORT | HTTP_MKACTIVITY | HTTP_CHECKOUT | HTTP_MERGE
  | HTTP_MSEARCH | HTTP_NOTIFY | HTTP_SUBSCRIBE | HTTP_UNSUBSCRIBE
  | HTTP_PATCH | HTTP_PURGE

primrec http_method_str :: "http_method \<Rightarrow> string" where
  "http_method_str HTTP_DELETE = ''DELETE''"
| "http_method_str HTTP_GET = ''GET''"
| "http_method_str HTTP_HEAD = ''HEAD''"
| "http_method_str HTTP_POST = ''POST''"
| "http_method_str HTTP_PUT = ''PUT''"
| "http_method_str HTTP_CONNECT = ''CONNECT''"
| "http_method_str HTTP_OPTIONS = ''OPTIONS''"
| "http_method_str HTTP_TRACE = ''TRACE''"
| "http_method_str HTTP_COPY = ''COPY''"
| "http_method_str HTTP_LOCK = ''LOCK''"
| "http_method_str HTTP_MKCOL = ''MKCOL''"
| "http_method_str HTTP_MOVE = ''MOVE''"
| "http_method_str HTTP_PROPFIND = ''PROPFIND''"
| "http_method_str HTTP_PROPPATCH = ''PROPPATCH''"
| "http_method_str HTTP_SEARCH = ''SEARCH''"
| "http_method_str HTTP_UNLOCK = ''UNLOCK''"
| "http_method_str HTTP_REPORT = ''REPORT''"
| "http_method_str HTTP_MKACTIVITY = ''MKACTIVITY''"
| "http_method_str HTTP_CHECKOUT = ''CHECKOUT''"
| "http_method_str HTTP_MERGE = ''MERGE''"
| "http_method_str HTTP_MSEARCH = ''M-SEARCH''"
| "http_method_str HTTP_NOTIFY = ''NOTIFY''"
| "http_method_str HTTP_SUBSCRIBE = ''SUBSCRIBE''"
| "http_method_str HTTP_UNSUBSCRIBE = ''UNSUBSCRIBE''"
| "http_method_str HTTP_PATCH = ''PATCH''"
| "http_method_str HTTP_PURGE = ''PURGE''"

datatype http_parser_type = HTTP_REQUEST | HTTP_RESPONSE | HTTP_BOTH

datatype (plugins only: code size) http_errno =
    HPE_OK
  | HPE_CB_message_begin | HPE_CB_url | HPE_CB_header_field | HPE_CB_header_value
  | HPE_CB_headers_complete | HPE_CB_body | HPE_CB_message_complete | HPE_CB_status
  | HPE_INVALID_EOF_STATE | HPE_HEADER_OVERFLOW | HPE_CLOSED_CONNECTION | HPE_INVALID_VERSION
  | HPE_INVALID_STATUS | HPE_INVALID_METHOD | HPE_INVALID_URL | HPE_INVALID_HOST
  | HPE_INVALID_PORT | HPE_INVALID_PATH | HPE_INVALID_QUERY_STRING | HPE_INVALID_FRAGMENT
  | HPE_LF_EXPECTED | HPE_INVALID_HEADER_TOKEN | HPE_INVALID_CONTENT_LENGTH
  | HPE_INVALID_CHUNK_SIZE | HPE_INVALID_CONSTANT | HPE_INVALID_INTERNAL_STATE | HPE_STRICT
  | HPE_PAUSED | HPE_UNKNOWN

text \<open>The table \<open>http_strerror_tab\<close>: the name of an error and its description.\<close>

primrec http_errno_name :: "http_errno \<Rightarrow> string" where
  "http_errno_name HPE_OK = ''HPE_OK''"
| "http_errno_name HPE_CB_message_begin = ''HPE_CB_message_begin''"
| "http_errno_name HPE_CB_url = ''HPE_CB_url''"
| "http_errno_name HPE_CB_header_field = ''HPE_CB_header_field''"
| "http_errno_name HPE_CB_header_value = ''HPE_CB_header_value''"
| "http_errno_name HPE_CB_headers_complete = ''HPE_CB_headers_complete''"
| "http_errno_name HPE_CB_body = ''HPE_CB_body''"
| "http_errno_name HPE_CB_message_complete = ''HPE_CB_message_complete''"
| "http_errno_name HPE_CB_status = ''HPE_CB_status''"
| "http_errno_name HPE_INVALID_EOF_STATE = ''HPE_INVALID_EOF_STATE''"
| "http_errno_name HPE_HEADER_OVERFLOW = ''HPE_HEADER_OVERFLOW''"
| "http_errno_name HPE_CLOSED_CONNECTION = ''HPE_CLOSED_CONNECTION''"
| "http_errno_name HPE_INVALID_VERSION = ''HPE_INVALID_VERSION''"
| "http_errno_name HPE_INVALID_STATUS = ''HPE_INVALID_STATUS''"
| "http_errno_name HPE_INVALID_METHOD = ''HPE_INVALID_METHOD''"
| "http_errno_name HPE_INVALID_URL = ''HPE_INVALID_URL''"
| "http_errno_name HPE_INVALID_HOST = ''HPE_INVALID_HOST''"
| "http_errno_name HPE_INVALID_PORT = ''HPE_INVALID_PORT''"
| "http_errno_name HPE_INVALID_PATH = ''HPE_INVALID_PATH''"
| "http_errno_name HPE_INVALID_QUERY_STRING = ''HPE_INVALID_QUERY_STRING''"
| "http_errno_name HPE_INVALID_FRAGMENT = ''HPE_INVALID_FRAGMENT''"
| "http_errno_name HPE_LF_EXPECTED = ''HPE_LF_EXPECTED''"
| "http_errno_name HPE_INVALID_HEADER_TOKEN = ''HPE_INVALID_HEADER_TOKEN''"
| "http_errno_name HPE_INVALID_CONTENT_LENGTH = ''HPE_INVALID_CONTENT_LENGTH''"
| "http_errno_name HPE_INVALID_CHUNK_SIZE = ''HPE_INVALID_CHUNK_SIZE''"
| "http_errno_name HPE_INVALID_CONSTANT = ''HPE_INVALID_CONSTANT''"
| "http_errno_name HPE_INVALID_INTERNAL_STATE = ''HPE_INVALID_INTERNAL_STATE''"
| "http_errno_name HPE_STRICT = ''HPE_STRICT''"
| "http_errno_name HPE_PAUSED = ''HPE_PAUSED''"
| "http_errno_name HPE_UNKNOWN = ''HPE_UNKNOWN''"

primrec http_errno_description :: "http_errno \<Rightarrow> string" where
  "http_errno_description HPE_OK = ''success''"
| "http_errno_description HPE_CB_message_begin = ''the on_message_begin callback failed''"
| "http_errno_description HPE_CB_url = ''the on_url callback failed''"
| "http_errno_description HPE_CB_header_field = ''the on_header_field callback failed''"
| "http_errno_description HPE_CB_header_value = ''the on_header_value callback failed''"
| "http_errno_description HPE_CB_headers_complete = ''the on_headers_complete callback failed''"
| "http_errno_description HPE_CB_body = ''the on_body callback failed''"
| "http_errno_description HPE_CB_message_complete = ''the on_message_complete callback failed''"
| "http_errno_description HPE_CB_status = ''the on_status callback failed''"
| "http_errno_description HPE_INVALID_EOF_STATE = ''stream ended at an unexpected time''"
| "http_errno_description HPE_HEADER_OVERFLOW = ''too many header bytes seen; overflow detected''"
| "http_errno_description HPE_CLOSED_CONNECTION = ''data received after completed connection: close message''"
| "http_errno_description HPE_INVALID_VERSION = ''invalid HTTP version''"
| "http_errno_description HPE_INVALID_STATUS = ''invalid HTTP status code''"
| "http_errno_description HPE_INVALID_METHOD = ''invalid HTTP method''"
| "http_errno_description HPE_INVALID_URL = ''invalid URL''"
| "http_errno_description HPE_INVALID_HOST = ''invalid host''"
| "http_errno_description HPE_INVALID_PORT = ''invalid port''"
| "http_errno_description HPE_INVALID_PATH = ''invalid path''"
| "http_errno_description HPE_INVALID_QUERY_STRING = ''invalid query string''"
| "http_errno_description HPE_INVALID_FRAGMENT = ''invalid fragment''"
| "http_errno_description HPE_LF_EXPECTED = ''LF character expected''"
| "http_errno_description HPE_INVALID_HEADER_TOKEN = ''invalid character in header''"
| "http_errno_description HPE_INVALID_CONTENT_LENGTH = ''invalid character in content-length header''"
| "http_errno_description HPE_INVALID_CHUNK_SIZE = ''invalid character in chunk size header''"
| "http_errno_description HPE_INVALID_CONSTANT = ''invalid constant string''"
| "http_errno_description HPE_INVALID_INTERNAL_STATE = ''encountered unexpected internal state''"
| "http_errno_description HPE_STRICT = ''strict mode assertion failed''"
| "http_errno_description HPE_PAUSED = ''parser is paused''"
| "http_errno_description HPE_UNKNOWN = ''an unknown error occurred''"

datatype (plugins only: code size) header_state =
    h_general | h_C | h_CO | h_CON
  | h_matching_connection | h_matching_proxy_connection | h_matching_content_length
  | h_matching_transfer_encoding | h_matching_upgrade
  | h_connection | h_content_length | h_transfer_encoding | h_upgrade
  | h_matching_transfer_encoding_chunked | h_matching_connection_keep_alive
  | h_matching_connection_close
  | h_transfer_encoding_chunked | h_connection_keep_alive | h_connection_close

abbreviation F_CHUNKED :: u8 where "F_CHUNKED \<equiv> 1"
abbreviation F_CONNECTION_KEEP_ALIVE :: u8 where "F_CONNECTION_KEEP_ALIVE \<equiv> 2"
abbreviation F_CONNECTION_CLOSE :: u8 where "F_CONNECTION_CLOSE \<equiv> 4"
abbreviation F_TRAILING :: u8 where "F_TRAILING \<equiv> 8"
abbreviation F_UPGRADE :: u8 where "F_UPGRADE \<equiv> 16"
abbreviation F_SKIPBODY :: u8 where "F_SKIPBODY \<equiv> 32"

text \<open>80 * 1024\<close>

abbreviation HTTP_MAX_HEADER_SIZE :: u32 where "HTTP_MAX_HEADER_SIZE \<equiv> 81920"

text \<open>The field \<open>data\<close> is not used by the parser; it leads to the client in Client.\<close>

record http_parser =
  http_type :: http_parser_type
  flags :: u8
  parser_state :: http_state
  hstate :: header_state
  match_index :: u8
  nread :: u32
  content_length :: u64
  http_major :: u16
  http_minor :: u16
  resp_status :: u16
  req_method :: http_method
  http_errno :: http_errno
  upgrade :: bool

definition has_flag :: "http_parser \<Rightarrow> u8 \<Rightarrow> bool" where
  "has_flag p f \<longleftrightarrow> and (flags p) f \<noteq> 0"

definition http_parser_init :: "http_parser_type \<Rightarrow> http_parser" where
  "http_parser_init t =
     \<lparr>http_type = t, flags = 0,
      parser_state =
        (if t = HTTP_REQUEST then s_start_req
         else if t = HTTP_RESPONSE then s_start_res else s_start_req_or_res),
      hstate = h_general, match_index = 0, nread = 0, content_length = 0, http_major = 0,
      http_minor = 0, resp_status = 0, req_method = HTTP_DELETE, http_errno = HPE_OK,
      upgrade = False\<rparr>"

subsection \<open>Tables\<close>

text \<open>The characters of tokens in lower case, zero for all others; the rows of the source.\<close>

definition token_table :: string where
  "token_table =
     replicate 32 NUL @
     [NUL, CHR ''!'', NUL, CHR ''#'', CHR ''$'', CHR ''%'', CHR ''&'', CHR 0x27] @
     [NUL, NUL, CHR ''*'', CHR ''+'', NUL, CHR ''-'', CHR ''.'', NUL] @
     ''01234567'' @
     [CHR ''8'', CHR ''9'', NUL, NUL, NUL, NUL, NUL, NUL] @
     [NUL] @ ''abcdefghijklmnopqrstuvwxyz'' @ [NUL, NUL, NUL, CHR ''^'', CHR ''_''] @
     [CHR 0x60] @ ''abcdefghijklmnopqrstuvwxyz'' @ [NUL, CHR ''|'', NUL, CHR ''~'', NUL] @
     replicate 128 NUL"

definition TOKEN :: "char \<Rightarrow> char" where
  "TOKEN c = token_table ! ccode c"

text \<open>
  The table has 256 places and 128 initialisers: the places behind them are zero, not -1.
\<close>

definition unhex_table :: "int list" where
  "unhex_table =
     replicate 48 (- 1) @
     [0, 1, 2, 3, 4, 5, 6, 7, 8, 9, - 1, - 1, - 1, - 1, - 1, - 1] @
     [- 1, 10, 11, 12, 13, 14, 15] @ replicate 9 (- 1) @ replicate 16 (- 1) @
     [- 1, 10, 11, 12, 13, 14, 15] @ replicate 9 (- 1) @ replicate 16 (- 1) @
     replicate 128 0"

definition unhex :: "char \<Rightarrow> int" where
  "unhex c = unhex_table ! ccode c"

text \<open>\<open>ch - '0'\<close> for a digit\<close>

definition digit :: "char \<Rightarrow> nat" where
  "digit c = ccode c - 48"

subsection \<open>Messages\<close>

text \<open>\<open>PARSING_HEADER\<close>: the states up to \<open>s_headers_done\<close>\<close>

definition parsing_header :: "http_state \<Rightarrow> bool" where
  "parsing_header s \<longleftrightarrow>
     s \<notin> {s_chunk_data, s_chunk_data_almost_done, s_chunk_data_done, s_body_identity,
          s_body_identity_eof, s_message_done}"

definition start_state :: "http_parser \<Rightarrow> http_state" where
  "start_state p = (if http_type p = HTTP_REQUEST then s_start_req else s_start_res)"

definition http_message_needs_eof :: "http_parser \<Rightarrow> bool" where
  "http_message_needs_eof p =
     (if http_type p = HTTP_REQUEST then False
      else if resp_status p div 100 = 1 \<or> resp_status p = 204 \<or> resp_status p = 304 \<or>
              has_flag p F_SKIPBODY then False
      else if has_flag p F_CHUNKED \<or> content_length p \<noteq> - 1 then False
      else True)"

definition http_should_keep_alive :: "http_parser \<Rightarrow> bool" where
  "http_should_keep_alive p =
     (if 0 < http_major p \<and> 0 < http_minor p
      then if has_flag p F_CONNECTION_CLOSE then False else \<not> http_message_needs_eof p
      else if \<not> has_flag p F_CONNECTION_KEEP_ALIVE then False
      else \<not> http_message_needs_eof p)"

definition new_message :: "http_parser \<Rightarrow> http_state" where
  "new_message p = (if http_should_keep_alive p then start_state p else s_dead)"

definition http_body_is_final :: "http_parser \<Rightarrow> bool" where
  "http_body_is_final p \<longleftrightarrow> parser_state p = s_message_done"

section \<open>The code of the states\<close>

text \<open>
  Marks remember where a part of the message began; a data callback gets what lies between the
  mark and the byte. The offsets are those in the text given to \<open>http_parser_execute\<close>.
\<close>

datatype http_mark = Header_Field_Mark | Header_Value_Mark | Url_Mark | Body_Mark | Status_Mark

datatype http_event =
    On_Message_Begin
  | On_Url nat nat
  | On_Status nat nat
  | On_Header_Field nat nat
  | On_Header_Value nat nat
  | On_Headers_Complete
  | On_Body nat nat
  | On_Message_Complete http_method

text \<open>
  \<open>Mark\<close> and \<open>Skip\<close> are \<open>MARK\<close> and the advance over a piece of the body; the others are the
  callback macros. \<open>Data_Last\<close> is the data callback at the end of a body, which includes the
  byte.
\<close>

datatype http_action =
    Mark http_mark
  | Skip nat
  | Notify http_event
  | Data http_mark
  | Data_Noadvance http_mark
  | Data_Last http_mark

text \<open>
  How the code of a state is left: \<open>break\<close>, \<open>goto reexecute_byte\<close>, \<open>return (p - data) + 1\<close>,
  \<open>goto error\<close> with an error, the callback for the end of the headers followed by
  \<open>goto reexecute_byte\<close>, and the fault of an assertion or of a read past a string.
\<close>

datatype http_control =
    Break_Byte
  | Reexecute_Byte
  | Return_After
  | Error http_errno
  | Headers_Complete
  | Fault fault

type_synonym http_step = "http_parser \<times> http_action list \<times> http_control"

definition goto_state :: "http_state \<Rightarrow> http_parser \<Rightarrow> http_step" where
  "goto_state st p = (p\<lparr>parser_state := st\<rparr>, [], Break_Byte)"

definition http_error :: "http_errno \<Rightarrow> http_parser \<Rightarrow> http_step" where
  "http_error err p = (p, [], Error err)"

text \<open>\<open>STRICT_CHECK(ch != x)\<close>, then the next state\<close>

definition strict_goto :: "char \<Rightarrow> char \<Rightarrow> http_state \<Rightarrow> http_parser \<Rightarrow> http_step" where
  "strict_goto x ch st p = (if ch \<noteq> x then http_error HPE_STRICT p else goto_state st p)"

subsection \<open>The start of a message\<close>

definition step_dead :: "char \<Rightarrow> http_parser \<Rightarrow> http_step" where
  "step_dead ch p =
     (if ch = CR \<or> ch = LF then (p, [], Break_Byte) else http_error HPE_CLOSED_CONNECTION p)"

definition step_start_req_or_res :: "char \<Rightarrow> http_parser \<Rightarrow> http_step" where
  "step_start_req_or_res ch p =
     (if ch = CR \<or> ch = LF then (p, [], Break_Byte)
      else
        let p = p\<lparr>flags := 0, content_length := - 1\<rparr>
        in if ch = CHR ''H''
           then (p\<lparr>parser_state := s_res_or_resp_H\<rparr>, [Notify On_Message_Begin], Break_Byte)
           else (p\<lparr>http_type := HTTP_REQUEST, parser_state := s_start_req\<rparr>, [], Reexecute_Byte))"

definition step_res_or_resp_H :: "char \<Rightarrow> http_parser \<Rightarrow> http_step" where
  "step_res_or_resp_H ch p =
     (if ch = CHR ''T'' then goto_state s_res_HT (p\<lparr>http_type := HTTP_RESPONSE\<rparr>)
      else if ch \<noteq> CHR ''E'' then http_error HPE_INVALID_CONSTANT p
      else goto_state s_req_method
             (p\<lparr>http_type := HTTP_REQUEST, req_method := HTTP_HEAD, match_index := 2\<rparr>))"

definition step_start_res :: "char \<Rightarrow> http_parser \<Rightarrow> http_step" where
  "step_start_res ch p =
     (let p = p\<lparr>flags := 0, content_length := - 1\<rparr>
      in if ch = CHR ''H''
         then (p\<lparr>parser_state := s_res_H\<rparr>, [Notify On_Message_Begin], Break_Byte)
         else if ch = CR \<or> ch = LF then (p, [Notify On_Message_Begin], Break_Byte)
         else http_error HPE_INVALID_CONSTANT p)"

text \<open>The method that the first letter stands for until a later one tells them apart.\<close>

definition method_of_letter :: "char \<Rightarrow> http_method option" where
  "method_of_letter ch =
     map_of
       [(CHR ''C'', HTTP_CONNECT), (CHR ''D'', HTTP_DELETE), (CHR ''G'', HTTP_GET),
        (CHR ''H'', HTTP_HEAD), (CHR ''L'', HTTP_LOCK), (CHR ''M'', HTTP_MKCOL),
        (CHR ''N'', HTTP_NOTIFY), (CHR ''O'', HTTP_OPTIONS), (CHR ''P'', HTTP_POST),
        (CHR ''R'', HTTP_REPORT), (CHR ''S'', HTTP_SUBSCRIBE), (CHR ''T'', HTTP_TRACE),
        (CHR ''U'', HTTP_UNLOCK)] ch"

definition step_start_req :: "char \<Rightarrow> http_parser \<Rightarrow> http_step" where
  "step_start_req ch p =
     (if ch = CR \<or> ch = LF then (p, [], Break_Byte)
      else
        let p = p\<lparr>flags := 0, content_length := - 1\<rparr>
        in if \<not> is_alpha ch then http_error HPE_INVALID_METHOD p
           else
             let p = p\<lparr>req_method := HTTP_DELETE, match_index := 1\<rparr>
             in case method_of_letter ch of
                  None \<Rightarrow> http_error HPE_INVALID_METHOD p
                | Some m \<Rightarrow>
                    (p\<lparr>req_method := m, parser_state := s_req_method\<rparr>, [Notify On_Message_Begin],
                     Break_Byte))"

subsection \<open>The status line of a response\<close>

definition step_res_first_http_major :: "char \<Rightarrow> http_parser \<Rightarrow> http_step" where
  "step_res_first_http_major ch p =
     (if \<not> is_digit ch then http_error HPE_INVALID_VERSION p
      else goto_state s_res_http_major (p\<lparr>http_major := of_nat (digit ch)\<rparr>))"

text \<open>
  The numbers of the version: another digit, up to 999. The same code stands in the states of
  a response and of a request.
\<close>

definition major_digit :: "char \<Rightarrow> http_parser \<Rightarrow> http_step" where
  "major_digit ch p =
     (if \<not> is_digit ch then http_error HPE_INVALID_VERSION p
      else
        let p = p\<lparr>http_major := http_major p * 10 + of_nat (digit ch)\<rparr>
        in if 999 < http_major p then http_error HPE_INVALID_VERSION p else (p, [], Break_Byte))"

definition minor_digit :: "char \<Rightarrow> http_parser \<Rightarrow> http_step" where
  "minor_digit ch p =
     (if \<not> is_digit ch then http_error HPE_INVALID_VERSION p
      else
        let p = p\<lparr>http_minor := http_minor p * 10 + of_nat (digit ch)\<rparr>
        in if 999 < http_minor p then http_error HPE_INVALID_VERSION p else (p, [], Break_Byte))"

definition step_http_major :: "http_state \<Rightarrow> char \<Rightarrow> http_parser \<Rightarrow> http_step" where
  "step_http_major st ch p = (if ch = CHR ''.'' then goto_state st p else major_digit ch p)"

definition step_first_http_minor :: "http_state \<Rightarrow> char \<Rightarrow> http_parser \<Rightarrow> http_step" where
  "step_first_http_minor st ch p =
     (if \<not> is_digit ch then http_error HPE_INVALID_VERSION p
      else goto_state st (p\<lparr>http_minor := of_nat (digit ch)\<rparr>))"

definition step_res_http_minor :: "char \<Rightarrow> http_parser \<Rightarrow> http_step" where
  "step_res_http_minor ch p =
     (if ch = CHR '' '' then goto_state s_res_first_status_code p else minor_digit ch p)"

definition step_res_first_status_code :: "char \<Rightarrow> http_parser \<Rightarrow> http_step" where
  "step_res_first_status_code ch p =
     (if \<not> is_digit ch then
        if ch = CHR '' '' then (p, [], Break_Byte) else http_error HPE_INVALID_STATUS p
      else goto_state s_res_status_code (p\<lparr>resp_status := of_nat (digit ch)\<rparr>))"

definition step_res_status_code :: "char \<Rightarrow> http_parser \<Rightarrow> http_step" where
  "step_res_status_code ch p =
     (if \<not> is_digit ch then
        if ch = CHR '' '' then goto_state s_res_status_start p
        else if ch = CR then goto_state s_res_line_almost_done p
        else if ch = LF then goto_state s_header_field_start p
        else http_error HPE_INVALID_STATUS p
      else
        let p = p\<lparr>resp_status := resp_status p * 10 + of_nat (digit ch)\<rparr>
        in if 999 < resp_status p then http_error HPE_INVALID_STATUS p else (p, [], Break_Byte))"

definition step_res_status_start :: "char \<Rightarrow> http_parser \<Rightarrow> http_step" where
  "step_res_status_start ch p =
     (if ch = CR then goto_state s_res_line_almost_done p
      else if ch = LF then goto_state s_header_field_start p
      else (p\<lparr>parser_state := s_res_status, match_index := 0\<rparr>, [Mark Status_Mark], Break_Byte))"

definition step_res_status :: "char \<Rightarrow> http_parser \<Rightarrow> http_step" where
  "step_res_status ch p =
     (if ch = CR then (p\<lparr>parser_state := s_res_line_almost_done\<rparr>, [Data Status_Mark], Break_Byte)
      else if ch = LF then (p\<lparr>parser_state := s_header_field_start\<rparr>, [Data Status_Mark], Break_Byte)
      else (p, [], Break_Byte))"

subsection \<open>The line of a request\<close>

text \<open>
  The byte of the name of the method at the index, with the zero that ends it; \<open>None\<close> is a
  read past the end.
\<close>

definition matcher :: "string \<Rightarrow> u8 \<Rightarrow> char option" where
  "matcher txt i =
     (if unat i < length txt then Some (txt ! unat i)
      else if unat i = length txt then Some NUL
      else None)"

text \<open>The other methods that a byte can lead to when it is not the next one of the method.\<close>

definition other_method :: "http_method \<Rightarrow> u8 \<Rightarrow> char \<Rightarrow> http_method option" where
  "other_method m i ch =
     (if m = HTTP_CONNECT then
        if i = 1 \<and> ch = CHR ''H'' then Some HTTP_CHECKOUT
        else if i = 2 \<and> ch = CHR ''P'' then Some HTTP_COPY
        else None
      else if m = HTTP_MKCOL then
        if i = 1 \<and> ch = CHR ''O'' then Some HTTP_MOVE
        else if i = 1 \<and> ch = CHR ''E'' then Some HTTP_MERGE
        else if i = 1 \<and> ch = CHR ''-'' then Some HTTP_MSEARCH
        else if i = 2 \<and> ch = CHR ''A'' then Some HTTP_MKACTIVITY
        else None
      else if m = HTTP_SUBSCRIBE then
        if i = 1 \<and> ch = CHR ''E'' then Some HTTP_SEARCH else None
      else if i = 1 \<and> m = HTTP_POST then
        if ch = CHR ''R'' then Some HTTP_PROPFIND
        else if ch = CHR ''U'' then Some HTTP_PUT
        else if ch = CHR ''A'' then Some HTTP_PATCH
        else None
      else if i = 2 then
        if m = HTTP_PUT then if ch = CHR ''R'' then Some HTTP_PURGE else None
        else if m = HTTP_UNLOCK then if ch = CHR ''S'' then Some HTTP_UNSUBSCRIBE else None
        else None
      else if i = 4 \<and> m = HTTP_PROPFIND \<and> ch = CHR ''P'' then Some HTTP_PROPPATCH
      else None)"

definition step_req_method :: "char \<Rightarrow> http_parser \<Rightarrow> http_step" where
  "step_req_method ch p =
     (if ch = NUL then http_error HPE_INVALID_METHOD p
      else
        case matcher (http_method_str (req_method p)) (match_index p) of
          None \<Rightarrow> (p, [], Fault Out_Of_Bounds)
        | Some x \<Rightarrow>
            if ch = CHR '' '' \<and> x = NUL then
              goto_state s_req_spaces_before_url (p\<lparr>match_index := match_index p + 1\<rparr>)
            else if ch = x then (p\<lparr>match_index := match_index p + 1\<rparr>, [], Break_Byte)
            else
              case other_method (req_method p) (match_index p) ch of
                None \<Rightarrow> http_error HPE_INVALID_METHOD p
              | Some m \<Rightarrow>
                  (p\<lparr>req_method := m, match_index := match_index p + 1\<rparr>, [], Break_Byte))"

text \<open>The next character of a URL, in the state given.\<close>

definition url_step :: "http_state \<Rightarrow> char \<Rightarrow> http_action list \<Rightarrow> http_parser \<Rightarrow> http_step" where
  "url_step st ch acts p =
     (let p = p\<lparr>parser_state := parse_url_char st ch\<rparr>
      in if parser_state p = s_dead then http_error HPE_INVALID_URL p else (p, acts, Break_Byte))"

definition step_req_spaces_before_url :: "char \<Rightarrow> http_parser \<Rightarrow> http_step" where
  "step_req_spaces_before_url ch p =
     (if ch = CHR '' '' then (p, [], Break_Byte)
      else url_step (if req_method p = HTTP_CONNECT then s_req_server_start else parser_state p) ch
             [Mark Url_Mark] p)"

text \<open>The states in which a URL cannot end\<close>

definition step_req_schema :: "char \<Rightarrow> http_parser \<Rightarrow> http_step" where
  "step_req_schema ch p =
     (if ch = CHR '' '' \<or> ch = CR \<or> ch = LF then http_error HPE_INVALID_URL p
      else url_step (parser_state p) ch [] p)"

text \<open>and those in which it can; a line that ends there is a request of HTTP 0.9\<close>

definition step_req_url :: "char \<Rightarrow> http_parser \<Rightarrow> http_step" where
  "step_req_url ch p =
     (if ch = CHR '' '' then (p\<lparr>parser_state := s_req_http_start\<rparr>, [Data Url_Mark], Break_Byte)
      else if ch = CR \<or> ch = LF then
        (p\<lparr>http_major := 0, http_minor := 9,
           parser_state := (if ch = CR then s_req_line_almost_done else s_header_field_start)\<rparr>,
         [Data Url_Mark], Break_Byte)
      else url_step (parser_state p) ch [] p)"

definition step_req_http_start :: "char \<Rightarrow> http_parser \<Rightarrow> http_step" where
  "step_req_http_start ch p =
     (if ch = CHR ''H'' then goto_state s_req_http_H p
      else if ch = CHR '' '' then (p, [], Break_Byte)
      else http_error HPE_INVALID_CONSTANT p)"

definition step_req_first_http_major :: "char \<Rightarrow> http_parser \<Rightarrow> http_step" where
  "step_req_first_http_major ch p =
     (if \<not> is_digit ch \<or> ch = CHR ''0'' then http_error HPE_INVALID_VERSION p
      else goto_state s_req_http_major (p\<lparr>http_major := of_nat (digit ch)\<rparr>))"

definition step_req_http_minor :: "char \<Rightarrow> http_parser \<Rightarrow> http_step" where
  "step_req_http_minor ch p =
     (if ch = CR then goto_state s_req_line_almost_done p
      else if ch = LF then goto_state s_header_field_start p
      else minor_digit ch p)"

definition step_req_line_almost_done :: "char \<Rightarrow> http_parser \<Rightarrow> http_step" where
  "step_req_line_almost_done ch p =
     (if ch \<noteq> LF then http_error HPE_LF_EXPECTED p else goto_state s_header_field_start p)"

subsection \<open>Headers\<close>

definition step_header_field_start :: "char \<Rightarrow> http_parser \<Rightarrow> http_step" where
  "step_header_field_start ch p =
     (if ch = CR then goto_state s_headers_almost_done p
      else if ch = LF then (p\<lparr>parser_state := s_headers_almost_done\<rparr>, [], Reexecute_Byte)
      else
        let c = TOKEN ch
        in if c = NUL then http_error HPE_INVALID_HEADER_TOKEN p
           else
             (p\<lparr>match_index := 0, parser_state := s_header_field,
                hstate :=
                  (if c = CHR ''c'' then h_C
                   else if c = CHR ''p'' then h_matching_proxy_connection
                   else if c = CHR ''t'' then h_matching_transfer_encoding
                   else if c = CHR ''u'' then h_matching_upgrade
                   else h_general)\<rparr>,
              [Mark Header_Field_Mark], Break_Byte))"

text \<open>
  One more byte of a name or value that is being recognised: the index moves on; when the byte
  is not the next one the name is some other, and with the last byte it is the one looked for.
\<close>

definition match_next :: "string \<Rightarrow> header_state \<Rightarrow> char \<Rightarrow> http_parser \<Rightarrow> http_parser" where
  "match_next txt found c p =
     (let i = match_index p + 1;
          p = p\<lparr>match_index := i\<rparr>
      in if length txt < unat i \<or> c \<noteq> (txt @ [NUL]) ! unat i then p\<lparr>hstate := h_general\<rparr>
         else if unat i = length txt - 1 then p\<lparr>hstate := found\<rparr>
         else p)"

definition count_goto :: "header_state \<Rightarrow> http_parser \<Rightarrow> http_parser" where
  "count_goto h p = p\<lparr>match_index := match_index p + 1, hstate := h\<rparr>"

text \<open>A byte of the name of a header; \<open>None\<close> is the failed assertion on an unknown state.\<close>

definition field_byte :: "char \<Rightarrow> char \<Rightarrow> http_parser \<Rightarrow> http_parser option" where
  "field_byte ch c p =
     (case hstate p of
        h_general \<Rightarrow> Some p
      | h_C \<Rightarrow> Some (count_goto (if c = CHR ''o'' then h_CO else h_general) p)
      | h_CO \<Rightarrow> Some (count_goto (if c = CHR ''n'' then h_CON else h_general) p)
      | h_CON \<Rightarrow> Some (count_goto
          (if c = CHR ''n'' then h_matching_connection
           else if c = CHR ''t'' then h_matching_content_length
           else h_general) p)
      | h_matching_connection \<Rightarrow> Some (match_next ''connection'' h_connection c p)
      | h_matching_proxy_connection \<Rightarrow> Some (match_next ''proxy-connection'' h_connection c p)
      | h_matching_content_length \<Rightarrow> Some (match_next ''content-length'' h_content_length c p)
      | h_matching_transfer_encoding \<Rightarrow>
          Some (match_next ''transfer-encoding'' h_transfer_encoding c p)
      | h_matching_upgrade \<Rightarrow> Some (match_next ''upgrade'' h_upgrade c p)
      | h_connection \<Rightarrow> Some (if ch \<noteq> CHR '' '' then p\<lparr>hstate := h_general\<rparr> else p)
      | h_content_length \<Rightarrow> Some (if ch \<noteq> CHR '' '' then p\<lparr>hstate := h_general\<rparr> else p)
      | h_transfer_encoding \<Rightarrow> Some (if ch \<noteq> CHR '' '' then p\<lparr>hstate := h_general\<rparr> else p)
      | h_upgrade \<Rightarrow> Some (if ch \<noteq> CHR '' '' then p\<lparr>hstate := h_general\<rparr> else p)
      | _ \<Rightarrow> None)"

definition step_header_field :: "char \<Rightarrow> http_parser \<Rightarrow> http_step" where
  "step_header_field ch p =
     (let c = TOKEN ch
      in if c \<noteq> NUL then
           case field_byte ch c p of
             None \<Rightarrow> (p, [], Fault Abort)
           | Some p \<Rightarrow> (p, [], Break_Byte)
         else if ch = CHR '':'' then
           (p\<lparr>parser_state := s_header_value_start\<rparr>, [Data Header_Field_Mark], Break_Byte)
         else if ch = CR then
           (p\<lparr>parser_state := s_header_almost_done\<rparr>, [Data Header_Field_Mark], Break_Byte)
         else if ch = LF then
           (p\<lparr>parser_state := s_header_field_start\<rparr>, [Data Header_Field_Mark], Break_Byte)
         else http_error HPE_INVALID_HEADER_TOKEN p)"

definition step_header_value_start :: "char \<Rightarrow> http_parser \<Rightarrow> http_step" where
  "step_header_value_start ch p =
     (if ch = CHR '' '' \<or> ch = TAB then (p, [], Break_Byte)
      else
        let p = p\<lparr>parser_state := s_header_value, match_index := 0\<rparr>
        in if ch = CR then
             (p\<lparr>hstate := h_general, parser_state := s_header_almost_done\<rparr>,
              [Mark Header_Value_Mark, Data Header_Value_Mark], Break_Byte)
           else if ch = LF then
             (p\<lparr>parser_state := s_header_field_start\<rparr>,
              [Mark Header_Value_Mark, Data Header_Value_Mark], Break_Byte)
           else
             let c = lower ch
             in case hstate p of
                  h_upgrade \<Rightarrow>
                    (p\<lparr>flags := or (flags p) F_UPGRADE, hstate := h_general\<rparr>,
                     [Mark Header_Value_Mark], Break_Byte)
                | h_transfer_encoding \<Rightarrow>
                    (p\<lparr>hstate := (if c = CHR ''c'' then h_matching_transfer_encoding_chunked
                                  else h_general)\<rparr>, [Mark Header_Value_Mark], Break_Byte)
                | h_content_length \<Rightarrow>
                    if \<not> is_digit ch then http_error HPE_INVALID_CONTENT_LENGTH p
                    else (p\<lparr>content_length := of_nat (digit ch)\<rparr>, [Mark Header_Value_Mark],
                          Break_Byte)
                | h_connection \<Rightarrow>
                    (p\<lparr>hstate := (if c = CHR ''k'' then h_matching_connection_keep_alive
                                  else if c = CHR ''c'' then h_matching_connection_close
                                  else h_general)\<rparr>, [Mark Header_Value_Mark], Break_Byte)
                | _ \<Rightarrow> (p\<lparr>hstate := h_general\<rparr>, [Mark Header_Value_Mark], Break_Byte))"

text \<open>A byte of the value of a header.\<close>

definition value_byte :: "char \<Rightarrow> char \<Rightarrow> http_parser \<Rightarrow> http_step" where
  "value_byte ch c p =
     (case hstate p of
        h_general \<Rightarrow> (p, [], Break_Byte)
      | h_connection \<Rightarrow> (p, [], Fault Abort)
      | h_transfer_encoding \<Rightarrow> (p, [], Fault Abort)
      | h_content_length \<Rightarrow>
          if ch = CHR '' '' then (p, [], Break_Byte)
          else if \<not> is_digit ch then http_error HPE_INVALID_CONTENT_LENGTH p
          else if (- 1 - 10) div 10 < content_length p
          then http_error HPE_INVALID_CONTENT_LENGTH p
          else (p\<lparr>content_length := content_length p * 10 + of_nat (digit ch)\<rparr>, [], Break_Byte)
      | h_matching_transfer_encoding_chunked \<Rightarrow>
          (match_next ''chunked'' h_transfer_encoding_chunked c p, [], Break_Byte)
      | h_matching_connection_keep_alive \<Rightarrow>
          (match_next ''keep-alive'' h_connection_keep_alive c p, [], Break_Byte)
      | h_matching_connection_close \<Rightarrow>
          (match_next ''close'' h_connection_close c p, [], Break_Byte)
      | h_transfer_encoding_chunked \<Rightarrow>
          (if ch \<noteq> CHR '' '' then p\<lparr>hstate := h_general\<rparr> else p, [], Break_Byte)
      | h_connection_keep_alive \<Rightarrow>
          (if ch \<noteq> CHR '' '' then p\<lparr>hstate := h_general\<rparr> else p, [], Break_Byte)
      | h_connection_close \<Rightarrow>
          (if ch \<noteq> CHR '' '' then p\<lparr>hstate := h_general\<rparr> else p, [], Break_Byte)
      | _ \<Rightarrow> (p\<lparr>parser_state := s_header_value, hstate := h_general\<rparr>, [], Break_Byte))"

definition step_header_value :: "char \<Rightarrow> http_parser \<Rightarrow> http_step" where
  "step_header_value ch p =
     (if ch = CR then
        (p\<lparr>parser_state := s_header_almost_done\<rparr>, [Data Header_Value_Mark], Break_Byte)
      else if ch = LF then
        (p\<lparr>parser_state := s_header_almost_done\<rparr>, [Data_Noadvance Header_Value_Mark],
         Reexecute_Byte)
      else value_byte ch (lower ch) p)"

definition step_header_almost_done :: "char \<Rightarrow> http_parser \<Rightarrow> http_step" where
  "step_header_almost_done ch p =
     (if ch \<noteq> LF then http_error HPE_STRICT p
      else
        goto_state s_header_value_lws
          (case hstate p of
             h_connection_keep_alive \<Rightarrow> p\<lparr>flags := or (flags p) F_CONNECTION_KEEP_ALIVE\<rparr>
           | h_connection_close \<Rightarrow> p\<lparr>flags := or (flags p) F_CONNECTION_CLOSE\<rparr>
           | h_transfer_encoding_chunked \<Rightarrow> p\<lparr>flags := or (flags p) F_CHUNKED\<rparr>
           | _ \<Rightarrow> p))"

definition step_header_value_lws :: "char \<Rightarrow> http_parser \<Rightarrow> http_step" where
  "step_header_value_lws ch p =
     (if ch = CHR '' '' \<or> ch = TAB then goto_state s_header_value_start p
      else (p\<lparr>parser_state := s_header_field_start\<rparr>, [], Reexecute_Byte))"

subsection \<open>The end of the headers\<close>

text \<open>\<open>parser->state = NEW_MESSAGE(); CALLBACK_NOTIFY(message_complete)\<close>\<close>

definition complete_message :: "http_parser \<Rightarrow> http_step" where
  "complete_message p =
     (p\<lparr>parser_state := new_message p\<rparr>, [Notify (On_Message_Complete (req_method p))], Break_Byte)"

definition step_headers_almost_done :: "char \<Rightarrow> http_parser \<Rightarrow> http_step" where
  "step_headers_almost_done ch p =
     (if ch \<noteq> LF then http_error HPE_STRICT p
      else if has_flag p F_TRAILING then complete_message p
      else
        (p\<lparr>parser_state := s_headers_done,
           upgrade := (has_flag p F_UPGRADE \<or> req_method p = HTTP_CONNECT)\<rparr>, [], Headers_Complete))"

definition step_headers_done :: "char \<Rightarrow> http_parser \<Rightarrow> http_step" where
  "step_headers_done ch p =
     (if ch \<noteq> LF then http_error HPE_STRICT p
      else
        let p = p\<lparr>nread := 0\<rparr>
        in if upgrade p then
             (p\<lparr>parser_state := new_message p\<rparr>, [Notify (On_Message_Complete (req_method p))],
              Return_After)
           else if has_flag p F_SKIPBODY then complete_message p
           else if has_flag p F_CHUNKED then goto_state s_chunk_size_start p
           else if content_length p = 0 then complete_message p
           else if content_length p \<noteq> - 1 then goto_state s_body_identity p
           else if http_type p = HTTP_REQUEST \<or> \<not> http_message_needs_eof p
           then complete_message p
           else goto_state s_body_identity_eof p)"

subsection \<open>Bodies\<close>

text \<open>\<open>MIN(parser->content_length, (data + len) - p)\<close>, at least one\<close>

definition to_read :: "nat \<Rightarrow> http_parser \<Rightarrow> u64" where
  "to_read avail p = min (content_length p) (of_nat avail)"

definition step_body_identity :: "nat \<Rightarrow> http_parser \<Rightarrow> http_step" where
  "step_body_identity avail p =
     (if content_length p = 0 \<or> content_length p = - 1 then (p, [], Fault Abort)
      else
        let n = to_read avail p;
            p = p\<lparr>content_length := content_length p - n\<rparr>;
            acts = [Mark Body_Mark, Skip (unat n - 1)]
        in if content_length p = 0
           then (p\<lparr>parser_state := s_message_done\<rparr>, acts @ [Data_Last Body_Mark], Reexecute_Byte)
           else (p, acts, Break_Byte))"

definition step_body_identity_eof :: "nat \<Rightarrow> http_parser \<Rightarrow> http_step" where
  "step_body_identity_eof avail p = (p, [Mark Body_Mark, Skip (avail - 1)], Break_Byte)"

definition step_chunk_size_start :: "char \<Rightarrow> http_parser \<Rightarrow> http_step" where
  "step_chunk_size_start ch p =
     (if nread p \<noteq> 1 \<or> \<not> has_flag p F_CHUNKED then (p, [], Fault Abort)
      else if unhex ch = - 1 then http_error HPE_INVALID_CHUNK_SIZE p
      else goto_state s_chunk_size (p\<lparr>content_length := of_int (unhex ch)\<rparr>))"

definition step_chunk_size :: "char \<Rightarrow> http_parser \<Rightarrow> http_step" where
  "step_chunk_size ch p =
     (if \<not> has_flag p F_CHUNKED then (p, [], Fault Abort)
      else if ch = CR then goto_state s_chunk_size_almost_done p
      else if unhex ch = - 1 then
        if ch = CHR '';'' \<or> ch = CHR '' '' then goto_state s_chunk_parameters p
        else http_error HPE_INVALID_CHUNK_SIZE p
      else if (- 1 - 16) div 16 < content_length p then http_error HPE_INVALID_CONTENT_LENGTH p
      else (p\<lparr>content_length := content_length p * 16 + of_int (unhex ch)\<rparr>, [], Break_Byte))"

definition step_chunk_parameters :: "char \<Rightarrow> http_parser \<Rightarrow> http_step" where
  "step_chunk_parameters ch p =
     (if \<not> has_flag p F_CHUNKED then (p, [], Fault Abort)
      else if ch = CR then goto_state s_chunk_size_almost_done p
      else (p, [], Break_Byte))"

definition step_chunk_size_almost_done :: "char \<Rightarrow> http_parser \<Rightarrow> http_step" where
  "step_chunk_size_almost_done ch p =
     (if \<not> has_flag p F_CHUNKED then (p, [], Fault Abort)
      else if ch \<noteq> LF then http_error HPE_STRICT p
      else
        let p = p\<lparr>nread := 0\<rparr>
        in if content_length p = 0
           then goto_state s_header_field_start (p\<lparr>flags := or (flags p) F_TRAILING\<rparr>)
           else goto_state s_chunk_data p)"

definition step_chunk_data :: "nat \<Rightarrow> http_parser \<Rightarrow> http_step" where
  "step_chunk_data avail p =
     (if \<not> has_flag p F_CHUNKED \<or> content_length p = 0 \<or> content_length p = - 1
      then (p, [], Fault Abort)
      else
        let n = to_read avail p;
            p = p\<lparr>content_length := content_length p - n\<rparr>
        in (if content_length p = 0 then p\<lparr>parser_state := s_chunk_data_almost_done\<rparr> else p,
            [Mark Body_Mark, Skip (unat n - 1)], Break_Byte))"

definition step_chunk_data_almost_done :: "char \<Rightarrow> http_parser \<Rightarrow> http_step" where
  "step_chunk_data_almost_done ch p =
     (if \<not> has_flag p F_CHUNKED \<or> content_length p \<noteq> 0 then (p, [], Fault Abort)
      else if ch \<noteq> CR then http_error HPE_STRICT p
      else (p\<lparr>parser_state := s_chunk_data_done\<rparr>, [Data Body_Mark], Break_Byte))"

definition step_chunk_data_done :: "char \<Rightarrow> http_parser \<Rightarrow> http_step" where
  "step_chunk_data_done ch p =
     (if \<not> has_flag p F_CHUNKED then (p, [], Fault Abort)
      else if ch \<noteq> LF then http_error HPE_STRICT p
      else goto_state s_chunk_size_start (p\<lparr>nread := 0\<rparr>))"

subsection \<open>The switch\<close>

text \<open>\<open>avail\<close> is the number of bytes from this one to the end.\<close>

definition byte_code :: "nat \<Rightarrow> char \<Rightarrow> http_parser \<Rightarrow> http_step" where
  "byte_code avail ch p =
     (case parser_state p of
        s_dead \<Rightarrow> step_dead ch p
      | s_start_req_or_res \<Rightarrow> step_start_req_or_res ch p
      | s_res_or_resp_H \<Rightarrow> step_res_or_resp_H ch p
      | s_start_res \<Rightarrow> step_start_res ch p
      | s_res_H \<Rightarrow> strict_goto CHR ''T'' ch s_res_HT p
      | s_res_HT \<Rightarrow> strict_goto CHR ''T'' ch s_res_HTT p
      | s_res_HTT \<Rightarrow> strict_goto CHR ''P'' ch s_res_HTTP p
      | s_res_HTTP \<Rightarrow> strict_goto CHR ''/'' ch s_res_first_http_major p
      | s_res_first_http_major \<Rightarrow> step_res_first_http_major ch p
      | s_res_http_major \<Rightarrow> step_http_major s_res_first_http_minor ch p
      | s_res_first_http_minor \<Rightarrow> step_first_http_minor s_res_http_minor ch p
      | s_res_http_minor \<Rightarrow> step_res_http_minor ch p
      | s_res_first_status_code \<Rightarrow> step_res_first_status_code ch p
      | s_res_status_code \<Rightarrow> step_res_status_code ch p
      | s_res_status_start \<Rightarrow> step_res_status_start ch p
      | s_res_status \<Rightarrow> step_res_status ch p
      | s_res_line_almost_done \<Rightarrow> strict_goto LF ch s_header_field_start p
      | s_start_req \<Rightarrow> step_start_req ch p
      | s_req_method \<Rightarrow> step_req_method ch p
      | s_req_spaces_before_url \<Rightarrow> step_req_spaces_before_url ch p
      | s_req_schema \<Rightarrow> step_req_schema ch p
      | s_req_schema_slash \<Rightarrow> step_req_schema ch p
      | s_req_schema_slash_slash \<Rightarrow> step_req_schema ch p
      | s_req_server_start \<Rightarrow> step_req_schema ch p
      | s_req_server \<Rightarrow> step_req_url ch p
      | s_req_server_with_at \<Rightarrow> step_req_url ch p
      | s_req_path \<Rightarrow> step_req_url ch p
      | s_req_query_string_start \<Rightarrow> step_req_url ch p
      | s_req_query_string \<Rightarrow> step_req_url ch p
      | s_req_fragment_start \<Rightarrow> step_req_url ch p
      | s_req_fragment \<Rightarrow> step_req_url ch p
      | s_req_http_start \<Rightarrow> step_req_http_start ch p
      | s_req_http_H \<Rightarrow> strict_goto CHR ''T'' ch s_req_http_HT p
      | s_req_http_HT \<Rightarrow> strict_goto CHR ''T'' ch s_req_http_HTT p
      | s_req_http_HTT \<Rightarrow> strict_goto CHR ''P'' ch s_req_http_HTTP p
      | s_req_http_HTTP \<Rightarrow> strict_goto CHR ''/'' ch s_req_first_http_major p
      | s_req_first_http_major \<Rightarrow> step_req_first_http_major ch p
      | s_req_http_major \<Rightarrow> step_http_major s_req_first_http_minor ch p
      | s_req_first_http_minor \<Rightarrow> step_first_http_minor s_req_http_minor ch p
      | s_req_http_minor \<Rightarrow> step_req_http_minor ch p
      | s_req_line_almost_done \<Rightarrow> step_req_line_almost_done ch p
      | s_header_field_start \<Rightarrow> step_header_field_start ch p
      | s_header_field \<Rightarrow> step_header_field ch p
      | s_header_value_start \<Rightarrow> step_header_value_start ch p
      | s_header_value \<Rightarrow> step_header_value ch p
      | s_header_value_lws \<Rightarrow> step_header_value_lws ch p
      | s_header_almost_done \<Rightarrow> step_header_almost_done ch p
      | s_headers_almost_done \<Rightarrow> step_headers_almost_done ch p
      | s_headers_done \<Rightarrow> step_headers_done ch p
      | s_chunk_size_start \<Rightarrow> step_chunk_size_start ch p
      | s_chunk_size \<Rightarrow> step_chunk_size ch p
      | s_chunk_parameters \<Rightarrow> step_chunk_parameters ch p
      | s_chunk_size_almost_done \<Rightarrow> step_chunk_size_almost_done ch p
      | s_chunk_data \<Rightarrow> step_chunk_data avail p
      | s_chunk_data_almost_done \<Rightarrow> step_chunk_data_almost_done ch p
      | s_chunk_data_done \<Rightarrow> step_chunk_data_done ch p
      | s_body_identity \<Rightarrow> step_body_identity avail p
      | s_body_identity_eof \<Rightarrow> step_body_identity_eof avail p
      | s_message_done \<Rightarrow> complete_message p)"

section \<open>The loop over the bytes\<close>

text \<open>
  The callbacks: \<open>None\<close> for one that is not set, otherwise what it returns. A callback that
  pauses the parser is not modelled; no callback of the monitor does.
\<close>

type_synonym http_settings = "http_event \<Rightarrow> int option"

record http_run =
  run_parser :: http_parser
  run_pos :: nat
  run_marks :: "http_mark \<Rightarrow> nat option"
  run_events :: "http_event list"

text \<open>After a callback: go on, or leave \<open>http_parser_execute\<close> with a number.\<close>

datatype http_flow = Go http_run | Halt http_run nat

definition set_errno :: "http_errno \<Rightarrow> http_run \<Rightarrow> http_run" where
  "set_errno err r = r\<lparr>run_parser := (run_parser r)\<lparr>http_errno := err\<rparr>\<rparr>"

text \<open>A callback with the error that its failure sets and the number that is returned then.\<close>

definition call_back :: "http_settings \<Rightarrow> http_event \<Rightarrow> http_errno \<Rightarrow> nat \<Rightarrow> http_run \<Rightarrow> http_flow result" where
  "call_back S ev err er r =
     (if http_errno (run_parser r) \<noteq> HPE_OK then Inl Abort
      else case S ev of
        None \<Rightarrow> Inr (Go r)
      | Some v \<Rightarrow>
          let r = r\<lparr>run_events := run_events r @ [ev]\<rparr>
          in if v \<noteq> 0 then Inr (Halt (set_errno err r) er) else Inr (Go r))"

fun data_event :: "http_mark \<Rightarrow> nat \<Rightarrow> nat \<Rightarrow> http_event" where
  "data_event Header_Field_Mark i n = On_Header_Field i n"
| "data_event Header_Value_Mark i n = On_Header_Value i n"
| "data_event Url_Mark i n = On_Url i n"
| "data_event Body_Mark i n = On_Body i n"
| "data_event Status_Mark i n = On_Status i n"

fun data_errno :: "http_mark \<Rightarrow> http_errno" where
  "data_errno Header_Field_Mark = HPE_CB_header_field"
| "data_errno Header_Value_Mark = HPE_CB_header_value"
| "data_errno Url_Mark = HPE_CB_url"
| "data_errno Body_Mark = HPE_CB_body"
| "data_errno Status_Mark = HPE_CB_status"

text \<open>\<open>CALLBACK_DATA_\<close>: the data from the mark to \<open>end\<close>\<close>

definition call_data :: "http_settings \<Rightarrow> http_mark \<Rightarrow> nat \<Rightarrow> nat \<Rightarrow> http_run \<Rightarrow> http_flow result" where
  "call_data S m till er r =
     (if http_errno (run_parser r) \<noteq> HPE_OK then Inl Abort
      else case run_marks r m of
        None \<Rightarrow> Inr (Go r)
      | Some i \<Rightarrow>
          and_then (call_back S (data_event m i (till - i)) (data_errno m) er r) (\<lambda>f.
            case f of
              Go r \<Rightarrow> Inr (Go (r\<lparr>run_marks := (run_marks r)(m := None)\<rparr>))
            | Halt r k \<Rightarrow> Inr (Halt r k)))"

fun notify_errno :: "http_event \<Rightarrow> http_errno" where
  "notify_errno On_Message_Begin = HPE_CB_message_begin"
| "notify_errno _ = HPE_CB_message_complete"

fun do_action :: "http_settings \<Rightarrow> http_action \<Rightarrow> http_run \<Rightarrow> http_flow result" where
  "do_action S (Mark m) r =
     Inr (Go (if run_marks r m = None then r\<lparr>run_marks := (run_marks r)(m := Some (run_pos r))\<rparr> else r))"
| "do_action S (Skip n) r = Inr (Go (r\<lparr>run_pos := run_pos r + n\<rparr>))"
| "do_action S (Notify ev) r = call_back S ev (notify_errno ev) (run_pos r + 1) r"
| "do_action S (Data m) r = call_data S m (run_pos r) (run_pos r + 1) r"
| "do_action S (Data_Noadvance m) r = call_data S m (run_pos r) (run_pos r) r"
| "do_action S (Data_Last m) r = call_data S m (run_pos r + 1) (run_pos r) r"

fun do_actions :: "http_settings \<Rightarrow> http_action list \<Rightarrow> http_run \<Rightarrow> http_flow result" where
  "do_actions S [] r = Inr (Go r)"
| "do_actions S (a # acts) r =
     and_then (do_action S a r) (\<lambda>f.
       case f of Go r \<Rightarrow> do_actions S acts r | Halt r k \<Rightarrow> Inr (Halt r k))"

text \<open>
  The callback at the end of the headers: its result 1 says that no body follows, any other
  than 0 is an error.
\<close>

definition headers_complete :: "http_settings \<Rightarrow> http_run \<Rightarrow> http_flow" where
  "headers_complete S r =
     (case S On_Headers_Complete of
        None \<Rightarrow> Go r
      | Some v \<Rightarrow>
          let r = r\<lparr>run_events := run_events r @ [On_Headers_Complete]\<rparr>
          in if v = 0 then Go r
             else if v = 1 then
               Go (r\<lparr>run_parser := (run_parser r)\<lparr>flags := or (flags (run_parser r)) F_SKIPBODY\<rparr>\<rparr>)
             else Halt (set_errno HPE_CB_headers_complete r) (run_pos r))"

text \<open>
  One byte, with the returns to \<open>reexecute_byte\<close>, which the first argument bounds: there are
  never more than four.
\<close>

fun exec_byte :: "nat \<Rightarrow> http_settings \<Rightarrow> nat \<Rightarrow> char \<Rightarrow> http_run \<Rightarrow> http_flow result" where
  "exec_byte 0 S len ch r = Inl No_Fuel"
| "exec_byte (Suc n) S len ch r =
     (let (p, acts, ctl) = byte_code (len - run_pos r) ch (run_parser r)
      in and_then (do_actions S acts (r\<lparr>run_parser := p\<rparr>)) (\<lambda>f.
           case f of
             Halt r k \<Rightarrow> Inr (Halt r k)
           | Go r \<Rightarrow>
               case ctl of
                 Break_Byte \<Rightarrow> Inr (Go r)
               | Reexecute_Byte \<Rightarrow> exec_byte n S len ch r
               | Return_After \<Rightarrow> Inr (Halt r (run_pos r + 1))
               | Error err \<Rightarrow> Inr (Halt (set_errno err r) (run_pos r))
               | Headers_Complete \<Rightarrow>
                   (case headers_complete S r of
                      Go r \<Rightarrow> exec_byte n S len ch r
                    | Halt r k \<Rightarrow> Inr (Halt r k))
               | Fault f \<Rightarrow> Inl f))"

text \<open>The callbacks for the marks that are left behind the last byte; one at most is set.\<close>

definition last_marks :: "http_settings \<Rightarrow> nat \<Rightarrow> http_run \<Rightarrow> http_flow result" where
  "last_marks S len r =
     (if 1 < length (filter (\<lambda>m. run_marks r m \<noteq> None)
                [Header_Field_Mark, Header_Value_Mark, Url_Mark, Body_Mark, Status_Mark])
      then Inl Abort
      else
        and_then
          (do_actions S [Data_Noadvance Header_Field_Mark, Data_Noadvance Header_Value_Mark,
             Data_Noadvance Url_Mark, Data_Noadvance Body_Mark, Data_Noadvance Status_Mark] r)
          (\<lambda>f. case f of Go r \<Rightarrow> Inr (Halt r len) | Halt r k \<Rightarrow> Inr (Halt r k)))"

text \<open>
  The loop: the number of bytes of the headers is limited. The first argument bounds the
  turns; one more than the length of the text is enough.
\<close>

fun exec_loop :: "nat \<Rightarrow> http_settings \<Rightarrow> string \<Rightarrow> http_run \<Rightarrow> http_flow result" where
  "exec_loop 0 S data r = Inl No_Fuel"
| "exec_loop (Suc n) S data r =
     (if run_pos r = length data then last_marks S (length data) r
      else if length data < run_pos r then Inl Out_Of_Bounds
      else
        let p = run_parser r;
            p = (if parsing_header (parser_state p) then p\<lparr>nread := nread p + 1\<rparr> else p);
            r = r\<lparr>run_parser := p\<rparr>
        in if parsing_header (parser_state p) \<and> HTTP_MAX_HEADER_SIZE < nread p
           then Inr (Halt (set_errno HPE_HEADER_OVERFLOW r) (run_pos r))
           else
             and_then (exec_byte 5 S (length data) (data ! run_pos r) r) (\<lambda>f.
               case f of
                 Halt r k \<Rightarrow> Inr (Halt r k)
               | Go r \<Rightarrow> exec_loop n S data (r\<lparr>run_pos := run_pos r + 1\<rparr>)))"

text \<open>The marks that the state at the beginning calls for.\<close>

definition first_marks :: "http_state \<Rightarrow> http_mark \<Rightarrow> nat option" where
  "first_marks st =
     (\<lambda>_. None)
       (Header_Field_Mark := if st = s_header_field then Some 0 else None,
        Header_Value_Mark := if st = s_header_value then Some 0 else None,
        Url_Mark := if st \<in> url_states then Some 0 else None,
        Status_Mark := if st = s_res_status then Some 0 else None)"

definition flow_result :: "http_flow \<Rightarrow> http_parser \<times> http_event list \<times> nat" where
  "flow_result f =
     (case f of Go r \<Rightarrow> (run_parser r, run_events r, 0)
              | Halt r k \<Rightarrow> (run_parser r, run_events r, k))"

text \<open>The parser, the callbacks that were made, and the number of bytes that were parsed.\<close>

definition http_parser_execute ::
  "http_settings \<Rightarrow> http_parser \<Rightarrow> string \<Rightarrow> (http_parser \<times> http_event list \<times> nat) result" where
  "http_parser_execute S p data =
     (let r = \<lparr>run_parser = p, run_pos = 0, run_marks = first_marks (parser_state p), run_events = []\<rparr>
      in if http_errno p \<noteq> HPE_OK then Inr (p, [], 0)
         else if data = [] then
           if parser_state p = s_body_identity_eof then
             and_then (call_back S (On_Message_Complete (req_method p)) HPE_CB_message_complete 0 r)
               (\<lambda>f. Inr (flow_result f))
           else if parser_state p \<in> {s_dead, s_start_req_or_res, s_start_res, s_start_req}
           then Inr (p, [], 0)
           else Inr (p\<lparr>http_errno := HPE_INVALID_EOF_STATE\<rparr>, [], 1)
         else and_then (exec_loop (length data + 1) S data r) (\<lambda>f. Inr (flow_result f)))"

text \<open>\<open>http_parser_pause\<close>\<close>

definition http_parser_pause :: "http_parser \<Rightarrow> bool \<Rightarrow> http_parser result" where
  "http_parser_pause p paused =
     (if http_errno p = HPE_OK \<or> http_errno p = HPE_PAUSED
      then Inr (p\<lparr>http_errno := (if paused then HPE_PAUSED else HPE_OK)\<rparr>)
      else Inl Abort)"

definition http_parser_version :: u64 where
  "http_parser_version = or (2 * 0x10000) (or (2 * 0x00100) (1 * 0x00001))"

section \<open>The callbacks of the client\<close>

text \<open>The two callbacks that \<open>usb_monitor_configure_client\<close> sets; both return 0.\<close>

fun client_settings :: http_settings where
  "client_settings (On_Body _ _) = Some 0"
| "client_settings (On_Message_Complete _) = Some 0"
| "client_settings _ = None"

end
