(* ===== verification/Monitor_State.thy ===== *)
theory Monitor_State
  imports Intrusive_List Usb_Path Json Http_Parser
begin

section \<open>The state of the monitor (usb_monitor.h and the handlers' headers)\<close>

text \<open>
  The C structures as records. Pointers to ports, hubs, Lanner structures and timers are
  numbers that index a heap of the records; devices and device handles of libusb are opaque
  numbers. The structures that extend \<open>struct usb_port\<close> by the macro \<open>USB_PORT_MANDATORY\<close>
  are one record here: the fields of \<open>gpio_port\<close>, \<open>ykush_port\<close> and \<open>lanner_port\<close> follow
  the common ones, and a port of another type never touches them.
\<close>

type_synonym pid = nat
type_synonym hid = nat
type_synonym tid = nat
type_synonym dev = nat
type_synonym handle = nat

abbreviation DEFAULT_TIMEOUT_SEC :: u8 where "DEFAULT_TIMEOUT_SEC \<equiv> 5"
abbreviation ADDED_TIMEOUT_SEC :: u8 where "ADDED_TIMEOUT_SEC \<equiv> 10"
abbreviation USB_RETRANS_LIMIT :: u8 where "USB_RETRANS_LIMIT \<equiv> 5"
abbreviation PING_OUTPUT :: u8 where "PING_OUTPUT \<equiv> 20"
abbreviation MAX_NUM_PATHS :: nat where "MAX_NUM_PATHS \<equiv> 2"
abbreviation MAX_HTTP_CLIENTS :: nat where "MAX_HTTP_CLIENTS \<equiv> 5"

text \<open>The commands a client can send; the code passes them on as \<open>uint8_t\<close>.\<close>

abbreviation CMD_RESTART :: u8 where "CMD_RESTART \<equiv> 0"
abbreviation CMD_ENABLE :: u8 where "CMD_ENABLE \<equiv> 1"
abbreviation CMD_DISABLE :: u8 where "CMD_DISABLE \<equiv> 2"

datatype port_type = PORT_TYPE_UNKNOWN | PORT_TYPE_GPIO | PORT_TYPE_YKUSH | PORT_TYPE_LANNER

datatype port_msg = IDLE | PING | RESET | PROBE

datatype port_status = PORT_NO_DEV_CONNECTED | PORT_DEV_CONNECTED

datatype probe_state =
    PROBE_IDLE | PROBE_DOWN | PROBE_DOWN_DONE | PROBE_UP | PROBE_DOWN_2 | PROBE_DONE
  | PROBE_WRITE_FILE

text \<open>
  \<open>path\<close> and \<open>path_len\<close> are arrays of two. The power state and the enabled flag only ever
  hold 0 and 1. Which handler's functions the three function pointers of a port point to is
  given by \<open>port_type\<close>; generic ports leave it 0. \<open>shared_info\<close> is the pointer of a Lanner
  port. The links \<open>timeout_next\<close> of all ports are the field \<open>timeout_q\<close> of the state.
\<close>

record usb_port =
  parent :: "hid option"
  dev :: "dev option"
  dev_handle :: "handle option"
  path :: "u8 list option list"
  timeout_expire :: u64
  vid :: u16
  pid :: u16
  status :: port_status
  enabled :: bool
  pwr_state :: bool
  msg_mode :: port_msg
  path_len :: "u8 list"
  num_retrans :: u8
  ping_cnt :: u8
  port_num :: u8
  port_type :: port_type
  gpio_path :: "string option"
  port_mapping_path :: "string option"
  gpio_num :: u16
  on_val :: u8
  off_val :: u8
  probe_state :: probe_state
  buf :: "u8 list"
  shared_info :: nat
  bitmask :: u8
  cur_cmd :: u8
  restart_cmd :: u8

text \<open>A port as \<open>calloc\<close> or \<open>memset\<close> leaves it.\<close>

definition zero_port :: usb_port where
  "zero_port =
     \<lparr>parent = None, dev = None, dev_handle = None, path = [None, None], timeout_expire = 0,
      vid = 0, pid = 0, status = PORT_NO_DEV_CONNECTED, enabled = False, pwr_state = False,
      msg_mode = IDLE, path_len = [0, 0], num_retrans = 0, ping_cnt = 0, port_num = 0,
      port_type = PORT_TYPE_UNKNOWN, gpio_path = None, port_mapping_path = None, gpio_num = 0,
      on_val = 0, off_val = 0, probe_state = PROBE_IDLE, buf = [0, 0, 0, 0, 0, 0],
      shared_info = 0, bitmask = 0, cur_cmd = 0, restart_cmd = 0\<rparr>"

text \<open>
  \<open>struct usb_hub\<close> with the fields of \<open>ykush_hub\<close> and \<open>generic_hub\<close>. \<open>hub_ports\<close> is the
  array of ports that lies in, or right after, the hub's own memory.
\<close>

record usb_hub =
  hub_dev :: "dev option"
  num_ports :: u8
  comm_dev :: "dev option"
  comm_handle :: "handle option"
  hub_handle :: "handle option"
  hub_ports :: "pid list"

definition zero_hub :: usb_hub where
  "zero_hub = \<lparr>hub_dev = None, num_ports = 0, comm_dev = None, comm_handle = None,
               hub_handle = None, hub_ports = []\<rparr>"

subsection \<open>The MCU of a Lanner device (lanner_handler.h)\<close>

datatype mcu_state =
    LANNER_MCU_IDLE | LANNER_MCU_PENDING | LANNER_MCU_GET_VERSION | LANNER_MCU_GET_DIGITAL_OUT
  | LANNER_MCU_SET_DIGITAL_OUT | LANNER_MCU_UPDATE_DONE

text \<open>
  \<open>cmd_buf\<close> holds the command without its terminator, \<open>buf_input\<close> all 256 bytes of the
  input buffer.
\<close>

record lanner_shared =
  mcu_path :: string
  mcu_timeout_handle :: tid
  mcu_fd :: int
  lock_fd :: int
  mcu_state :: mcu_state
  pending_ports_mask :: u8
  cmd_buf :: string
  buf_input :: string
  cmd_buf_strlen :: u8
  cmd_buf_progress :: u8
  input_progress :: u8
  mcu_bitmask :: u8
  mcu_bitmask_to_write :: u8

subsection \<open>Timers of the event loop (backend_event_loop.h)\<close>

text \<open>The functions a timer's \<open>cb\<close> points to.\<close>

datatype timer_cb = One_Sec_Cb | Check_Devices_Cb | Check_Reset_Cb | Lanner_Private_Cb

record timer =
  timeout_clock :: u64
  cb :: timer_cb
  intvl :: u32
  auto_free :: bool

subsection \<open>Handles of the event loop and clients (backend_event_loop.h, usb_monitor_client.h)\<close>

text \<open>Which callback and which data a handle that was added to epoll has.\<close>

datatype epoll_handle = Accept_Handle | Libusb_Handle | Mcu_Handle | Client_Handle nat

text \<open>
  \<open>recv_buf\<close> holds the \<open>recv_progress\<close> bytes received so far; the other bytes of the 4096
  are zero.
\<close>

record http_client =
  recv_buf :: string
  body_offset :: "nat option"
  parser :: http_parser
  client_fd :: int
  recv_progress :: u16
  req_done :: bool
  idx :: u8

subsection \<open>Calls to the outside\<close>

text \<open>
  The transfers handed to libusb: the control message that pings a device, the interrupt
  transfer that commands a YKUSH hub, and the control message that switches a port of a
  generic hub. Each names the port its callback gets as \<open>user_data\<close>.
\<close>

datatype ykush_cb = Ykush_Enable_Cb | Ykush_Disable_Cb | Ykush_Reset_Cb

datatype transfer =
    Ping_Transfer pid "handle option"
  | Ykush_Transfer pid "handle option" "u8 list" ykush_cb
  | Generic_Transfer pid "handle option" u8 u8

text \<open>The calls of the C library and of libusb whose results or effects the model keeps.\<close>

datatype call =
    Clock_Gettime
  | Open_File string
  | Write_Fd int string
  | Close_Fd int
  | Strdup
  | Calloc
  | Free_Mem
  | Usb_Open "dev option"
  | Usb_Close handle
  | Usb_Ref "dev option"
  | Usb_Unref "dev option"
  | Usb_Alloc_Transfer
  | Usb_Free_Transfer
  | Usb_Submit transfer
  | Usb_Release_Interface "handle option"
  | Usb_Detach_Driver "handle option"
  | Usb_Set_Configuration "handle option"
  | Usb_Claim_Interface "handle option"
  | Usb_Unlock_Events
  | Usb_Lock_Events
  | Usb_Get_Hub_Descriptor "dev option" u16
  | Usb_Get_Device_List
  | Flock int bool
  | Epoll_Add int
  | Epoll_Mod int bool
  | Json_Alloc
  | Fopen string
  | Fwrite string
  | Link string string
  | Unlink string
  | Send int string
  | Accept
  | Recv int
  | Malloc
  | Errno
  | Read_Fd int
  | Tcgetattr int
  | Cfsetospeed
  | Tcsetattr int
  | Epoll_Wait int
  | Usb_Handle_Events
  | Fread
  | Ferror
  | Fclose
  | Lockf int
  | Daemon
  | Sigaction
  | Epoll_Create
  | Remove string
  | Socket
  | Bind int string
  | Chmod string
  | Chown string u32
  | Listen int
  | Usb_Init
  | Usb_Get_Pollfds
  | Usb_Set_Notifiers
  | Usb_Hotplug_Register

text \<open>What libusb reports when it handles its events.\<close>

datatype usb_event =
    Device_Arrived dev
  | Device_Left dev
  | Transfer_Done transfer bool

type_synonym trace = "(call \<times> int) list"

text \<open>
  The environment answers every call. Its answer may depend on everything that was called
  before, so no two calls need to get the same answer. \<open>hub_desc\<close> is what a request for a hub
  descriptor leaves in its buffer: the number of ports and the hub's characteristics. The
  descriptor and the place of a device do not change while it is connected. \<open>usb_events\<close> and
  \<open>epoll_events\<close> are what libusb reports and \<open>epoll_wait\<close> returns (\<open>None\<close> when it fails),
  \<open>pollfds\<close> are the descriptors of libusb, \<open>input_data\<close> is what a read puts into its buffer and
  \<open>stack_word\<close> what an uninitialised variable holds.
\<close>

record env =
  answer :: "trace \<Rightarrow> call \<Rightarrow> int"
  clock :: "trace \<Rightarrow> u64"
  device_list :: "trace \<Rightarrow> dev list option"
  id_vendor :: "dev \<Rightarrow> u16"
  id_product :: "dev \<Rightarrow> u16"
  bcd_usb :: "dev \<Rightarrow> u16"
  bus_number :: "dev \<Rightarrow> u8"
  port_numbers :: "dev \<Rightarrow> u8 list"
  parent_dev :: "dev \<Rightarrow> dev option"
  hub_desc :: "trace \<Rightarrow> u8 \<times> u16"
  char_signed :: bool
  jlib :: json_lib
  usb_events :: "trace \<Rightarrow> usb_event list"
  epoll_events :: "trace \<Rightarrow> (epoll_handle \<times> u32) list option"
  input_data :: "trace \<Rightarrow> string"
  pollfds :: "trace \<Rightarrow> int list option"
  stack_word :: "trace \<Rightarrow> u16"

text \<open>
  \<open>struct usb_monitor_ctx\<close> with the heaps its pointers lead to, the event loop it owns and
  the calls made so far, newest first.
\<close>

record sys =
  heap :: "pid \<Rightarrow> usb_port"
  next_pid :: pid
  port_list :: "pid list"
  timeout_q :: "pid lq"
  hubs :: "hid \<Rightarrow> usb_hub"
  next_hid :: hid
  hub_list :: "hid list"
  shared :: "nat \<Rightarrow> lanner_shared"
  next_shared :: nat
  mcu_info :: "nat option"
  timers :: "tid \<Rightarrow> timer"
  next_tid :: tid
  timer_q :: "tid lq"
  itr_cb :: bool
  bad_device_ids :: "(u16 \<times> u16) list"
  num_bad_device_ids :: u32
  clients_map :: u8
  clients :: "nat \<Rightarrow> http_client option"
  disable_auto_restart :: bool
  group_id :: u32
  use_syslog :: bool
  next_handle :: handle
  trace :: trace

definition sys_call :: "env \<Rightarrow> call \<Rightarrow> sys \<Rightarrow> int \<times> sys" where
  "sys_call e c s =
     (let r = answer e (trace s) c in (r, s\<lparr>trace := (c, r) # trace s\<rparr>))"

text \<open>A call whose result the code ignores.\<close>

definition sys_do :: "env \<Rightarrow> call \<Rightarrow> sys \<Rightarrow> sys" where
  "sys_do e c s = snd (sys_call e c s)"

definition clock_gettime :: "env \<Rightarrow> sys \<Rightarrow> u64 \<times> sys" where
  "clock_gettime e s = (clock e (trace s), s\<lparr>trace := (Clock_Gettime, 0) # trace s\<rparr>)"

definition port_upd :: "pid \<Rightarrow> (usb_port \<Rightarrow> usb_port) \<Rightarrow> sys \<Rightarrow> sys" where
  "port_upd p f s = s\<lparr>heap := (heap s)(p := f (heap s p))\<rparr>"

definition shared_upd :: "nat \<Rightarrow> (lanner_shared \<Rightarrow> lanner_shared) \<Rightarrow> sys \<Rightarrow> sys" where
  "shared_upd l f s = s\<lparr>shared := (shared s)(l := f (shared s l))\<rparr>"

definition hub_upd :: "hid \<Rightarrow> (usb_hub \<Rightarrow> usb_hub) \<Rightarrow> sys \<Rightarrow> sys" where
  "hub_upd h f s = s\<lparr>hubs := (hubs s)(h := f (hubs s h))\<rparr>"

end
