(* ===== verification/Monitor_Lists.thy ===== *)
theory Monitor_Lists
  imports Monitor_State
begin

section \<open>The lists of ports and hubs (usb_monitor_lists.c)\<close>

text \<open>
  The list of ports and the list of hubs change only by the insertion of a new element at
  the head and by removal, and no callback changes them while they are walked. They are
  lists of pointers here; the NULL tests on their links are membership. The list of
  timeouts keeps its links (theory \<open>Intrusive_List\<close>).
\<close>

definition usb_monitor_lists_add_port :: "pid \<Rightarrow> sys \<Rightarrow> sys" where
  "usb_monitor_lists_add_port p s = s\<lparr>port_list := p # port_list s\<rparr>"

definition usb_monitor_lists_add_timeout :: "pid \<Rightarrow> sys \<Rightarrow> sys" where
  "usb_monitor_lists_add_timeout p s = s\<lparr>timeout_q := list_insert_head p (timeout_q s)\<rparr>"

definition usb_monitor_lists_del_timeout :: "pid \<Rightarrow> sys \<Rightarrow> sys result" where
  "usb_monitor_lists_del_timeout p s =
     and_then (lq_unlink p (timeout_q s)) (\<lambda>q. Inr (s\<lparr>timeout_q := q\<rparr>))"

definition usb_monitor_lists_is_timeout_active :: "sys \<Rightarrow> pid \<Rightarrow> bool" where
  "usb_monitor_lists_is_timeout_active s p = lq_active (timeout_q s) p"

text \<open>The guard that several handlers put around the removal.\<close>

definition guarded_del_timeout :: "pid \<Rightarrow> sys \<Rightarrow> sys result" where
  "guarded_del_timeout p s =
     (if usb_monitor_lists_is_timeout_active s p then usb_monitor_lists_del_timeout p s
      else Inr s)"

text \<open>
  \<open>usb_helpers_reset_port\<close> of usb_helpers.c, which \<open>del_port\<close> calls: release the device,
  leave the timeout list unless the port is being reset or probed, forget the device.
\<close>

definition usb_helpers_reset_port :: "env \<Rightarrow> pid \<Rightarrow> sys \<Rightarrow> sys result" where
  "usb_helpers_reset_port e p s =
     (let s =
        (if status (heap s p) = PORT_DEV_CONNECTED
         then
           (let s = (case dev_handle (heap s p) of
                       None \<Rightarrow> s
                     | Some h \<Rightarrow> sys_do e (Usb_Close h) s)
            in sys_do e (Usb_Unref (dev (heap s p))) s)
         else s)
      in and_then
           (if msg_mode (heap s p) \<noteq> RESET \<and> msg_mode (heap s p) \<noteq> PROBE \<and>
               usb_monitor_lists_is_timeout_active s p
            then usb_monitor_lists_del_timeout p s else Inr s)
           (\<lambda>s. Inr (port_upd p (\<lambda>pt. pt\<lparr>vid := 0, pid := 0, dev := None, dev_handle := None,
                                        status := PORT_NO_DEV_CONNECTED, num_retrans := 0\<rparr>) s)))"

definition usb_monitor_lists_del_port :: "env \<Rightarrow> pid \<Rightarrow> sys \<Rightarrow> sys result" where
  "usb_monitor_lists_del_port e p s =
     (if p \<notin> set (port_list s) then Inr s
      else
        let s = s\<lparr>port_list := remove1 p (port_list s)\<rparr>;
            s = port_upd p (\<lambda>pt. pt\<lparr>msg_mode := IDLE\<rparr>) s
        in usb_helpers_reset_port e p s)"

subsection \<open>Finding a port by its path\<close>

text \<open>
  \<open>memcmp\<close> of a port's copy of a path, which is followed by its terminator and nothing
  else, with \<open>n\<close> bytes of a path: a difference within the copy decides, comparing past it
  is a read out of bounds.
\<close>

definition memcmp_eq :: "u8 list \<Rightarrow> u8 list \<Rightarrow> nat \<Rightarrow> bool result" where
  "memcmp_eq copy q n =
     (let a = copy @ [0]
      in if n \<le> length a then Inr (take n a = take n q)
         else if a = take (length a) q then Inl Out_Of_Bounds
         else Inr False)"

text \<open>The inner loop: up to the first path that is NULL.\<close>

fun match_paths :: "(u8 list option \<times> u8) list \<Rightarrow> u8 list \<Rightarrow> u8 \<Rightarrow> bool result" where
  "match_paths [] q len = Inr False"
| "match_paths ((None, _) # ps) q len = Inr False"
| "match_paths ((Some copy, l) # ps) q len =
     (if l = len
      then and_then (memcmp_eq copy q (unat len))
             (\<lambda>eq. if eq then Inr True else match_paths ps q len)
      else match_paths ps q len)"

fun find_port_path_loop ::
  "(pid \<Rightarrow> usb_port) \<Rightarrow> pid list \<Rightarrow> u8 list \<Rightarrow> u8 \<Rightarrow> pid option result" where
  "find_port_path_loop hp [] q len = Inr None"
| "find_port_path_loop hp (p # ps) q len =
     and_then (match_paths (zip (path (hp p)) (path_len (hp p))) q len)
       (\<lambda>found. if found then Inr (Some p) else find_port_path_loop hp ps q len)"

definition usb_monitor_lists_find_port_path ::
  "sys \<Rightarrow> u8 list \<Rightarrow> u8 \<Rightarrow> pid option result" where
  "usb_monitor_lists_find_port_path s q len =
     find_port_path_loop (heap s) (port_list s) q len"

subsection \<open>Hubs\<close>

text \<open>
  \<open>add_hub\<close> without the walk over the devices that follows the insertion (theory
  \<open>Monitor_Callbacks\<close> has the whole).
\<close>

definition usb_monitor_lists_insert_hub :: "hid \<Rightarrow> sys \<Rightarrow> sys" where
  "usb_monitor_lists_insert_hub h s = s\<lparr>hub_list := h # hub_list s\<rparr>"

definition usb_monitor_lists_del_hub :: "hid \<Rightarrow> sys \<Rightarrow> sys" where
  "usb_monitor_lists_del_hub h s =
     (if h \<notin> set (hub_list s) then s else s\<lparr>hub_list := remove1 h (hub_list s)\<rparr>)"

definition usb_monitor_lists_find_hub :: "sys \<Rightarrow> dev option \<Rightarrow> hid option" where
  "usb_monitor_lists_find_hub s d = List.find (\<lambda>h. hub_dev (hubs s h) = d) (hub_list s)"

section \<open>Facts about the state updates\<close>

lemma sys_do_simps [simp]:
  "heap (sys_do e c s) = heap s" "port_list (sys_do e c s) = port_list s"
  "timeout_q (sys_do e c s) = timeout_q s" "hub_list (sys_do e c s) = hub_list s"
  "hubs (sys_do e c s) = hubs s" "shared (sys_do e c s) = shared s"
  "mcu_info (sys_do e c s) = mcu_info s" "timers (sys_do e c s) = timers s"
  "timer_q (sys_do e c s) = timer_q s" "itr_cb (sys_do e c s) = itr_cb s"
  "bad_device_ids (sys_do e c s) = bad_device_ids s"
  "num_bad_device_ids (sys_do e c s) = num_bad_device_ids s"
  "clients_map (sys_do e c s) = clients_map s" "clients (sys_do e c s) = clients s"
  "disable_auto_restart (sys_do e c s) = disable_auto_restart s"
  "next_pid (sys_do e c s) = next_pid s" "next_hid (sys_do e c s) = next_hid s"
  "next_shared (sys_do e c s) = next_shared s" "next_tid (sys_do e c s) = next_tid s"
  "next_handle (sys_do e c s) = next_handle s"
  by (simp_all add: sys_do_def sys_call_def Let_def)

lemma port_upd_simps [simp]:
  "heap (port_upd p f s) = (heap s)(p := f (heap s p))"
  "port_list (port_upd p f s) = port_list s" "timeout_q (port_upd p f s) = timeout_q s"
  "hub_list (port_upd p f s) = hub_list s" "hubs (port_upd p f s) = hubs s"
  "shared (port_upd p f s) = shared s" "mcu_info (port_upd p f s) = mcu_info s"
  "timers (port_upd p f s) = timers s" "timer_q (port_upd p f s) = timer_q s"
  "itr_cb (port_upd p f s) = itr_cb s"
  "bad_device_ids (port_upd p f s) = bad_device_ids s"
  "num_bad_device_ids (port_upd p f s) = num_bad_device_ids s"
  "clients_map (port_upd p f s) = clients_map s" "clients (port_upd p f s) = clients s"
  "disable_auto_restart (port_upd p f s) = disable_auto_restart s"
  "next_pid (port_upd p f s) = next_pid s" "next_hid (port_upd p f s) = next_hid s"
  "next_shared (port_upd p f s) = next_shared s" "next_tid (port_upd p f s) = next_tid s"
  "next_handle (port_upd p f s) = next_handle s" "trace (port_upd p f s) = trace s"
  by (simp_all add: port_upd_def)

lemma shared_upd_simps [simp]:
  "shared (shared_upd l f s) = (shared s)(l := f (shared s l))"
  "heap (shared_upd l f s) = heap s" "port_list (shared_upd l f s) = port_list s"
  "timeout_q (shared_upd l f s) = timeout_q s" "mcu_info (shared_upd l f s) = mcu_info s"
  "timers (shared_upd l f s) = timers s" "timer_q (shared_upd l f s) = timer_q s"
  "itr_cb (shared_upd l f s) = itr_cb s" "trace (shared_upd l f s) = trace s"
  "hub_list (shared_upd l f s) = hub_list s" "hubs (shared_upd l f s) = hubs s"
  "bad_device_ids (shared_upd l f s) = bad_device_ids s"
  "num_bad_device_ids (shared_upd l f s) = num_bad_device_ids s"
  "clients_map (shared_upd l f s) = clients_map s" "clients (shared_upd l f s) = clients s"
  by (simp_all add: shared_upd_def)

text \<open>
  What an operation on one port may do to the rest of the state: nothing to the other
  ports, to the lists of ports and hubs, to the configuration, or to the fields of the port
  that its set-up gave it; and it does not begin a probe.
\<close>

definition only_port :: "pid \<Rightarrow> sys \<Rightarrow> sys \<Rightarrow> bool" where
  "only_port p s s' \<longleftrightarrow>
     (\<forall>q. q \<noteq> p \<longrightarrow> heap s' q = heap s q) \<and> port_list s' = port_list s \<and>
     hub_list s' = hub_list s \<and> hubs s' = hubs s \<and> mcu_info s' = mcu_info s \<and>
     timers s' = timers s \<and> timer_q s' = timer_q s \<and>
     bad_device_ids s' = bad_device_ids s \<and> num_bad_device_ids s' = num_bad_device_ids s \<and>
     clients_map s' = clients_map s \<and> clients s' = clients s \<and>
     port_type (heap s' p) = port_type (heap s p) \<and> path (heap s' p) = path (heap s p) \<and>
     path_len (heap s' p) = path_len (heap s p) \<and> parent (heap s' p) = parent (heap s p) \<and>
     port_num (heap s' p) = port_num (heap s p) \<and> gpio_path (heap s' p) = gpio_path (heap s p) \<and>
     gpio_num (heap s' p) = gpio_num (heap s p) \<and> on_val (heap s' p) = on_val (heap s p) \<and>
     off_val (heap s' p) = off_val (heap s p) \<and> shared_info (heap s' p) = shared_info (heap s p) \<and>
     bitmask (heap s' p) = bitmask (heap s p) \<and>
     (msg_mode (heap s p) \<noteq> PROBE \<longrightarrow> msg_mode (heap s' p) \<noteq> PROBE)"

lemma only_port_refl [simp]: "only_port p s s"
  by (simp add: only_port_def)

lemma only_port_trans: "only_port p s s' \<Longrightarrow> only_port p s' s'' \<Longrightarrow> only_port p s s''"
  by (simp add: only_port_def)

end
