(* ===== verification/Usb_Helpers.thy ===== *)
theory Usb_Helpers
  imports Monitor_Lists
begin

section \<open>Helpers on ports (usb_helpers.c)\<close>

text \<open>
  Configuring a port and its paths, starting a timeout, sending a ping and checking a
  device against the list of bad ids. The functions of usb_helpers.c that call a port's
  \<open>update\<close> pointer are in theory \<open>Port_Dispatch\<close>.
\<close>

subsection \<open>Configuration\<close>

text \<open>\<open>strndup\<close> of a path; \<open>None\<close> when it returns NULL.\<close>

definition strndup_call :: "env \<Rightarrow> u8 list \<Rightarrow> u8 \<Rightarrow> sys \<Rightarrow> u8 list option \<times> sys" where
  "strndup_call e dev_path len s =
     (let (r, s) = sys_call e Strdup s
      in (if r = 0 then None else Some (strndup dev_path (unat len)), s))"

text \<open>The return value is 0 on success and 1 on failure.\<close>

definition usb_helpers_configure_port ::
  "env \<Rightarrow> pid \<Rightarrow> u8 list \<Rightarrow> u8 \<Rightarrow> u8 \<Rightarrow> hid option \<Rightarrow> sys \<Rightarrow> u8 \<times> sys" where
  "usb_helpers_configure_port e p dev_path len num par s =
     (let (copy, s) = strndup_call e dev_path len s;
          s = port_upd p (\<lambda>pt. pt\<lparr>path := (path pt)[0 := copy]\<rparr>) s
      in if copy = None then (1, s)
         else
           let s = port_upd p (\<lambda>pt. pt\<lparr>path_len := (path_len pt)[0 := len], port_num := num,
                                       pwr_state := True, parent := par, enabled := True\<rparr>) s
           in (0, usb_monitor_lists_add_port p s))"

text \<open>The index of the first free path, or \<open>MAX_NUM_PATHS\<close>.\<close>

fun first_free_path :: "u8 list option list \<Rightarrow> nat \<Rightarrow> nat" where
  "first_free_path [] i = i"
| "first_free_path (None # ps) i = i"
| "first_free_path (Some _ # ps) i = first_free_path ps (Suc i)"

definition usb_helpers_port_add_path ::
  "env \<Rightarrow> pid \<Rightarrow> u8 list \<Rightarrow> u8 \<Rightarrow> sys \<Rightarrow> u8 \<times> sys" where
  "usb_helpers_port_add_path e p dev_path len s =
     (let i = first_free_path (path (heap s p)) 0
      in if i = MAX_NUM_PATHS then (1, s)
         else
           let (copy, s) = strndup_call e dev_path len s;
               s = port_upd p (\<lambda>pt. pt\<lparr>path := (path pt)[i := copy]\<rparr>) s
           in if copy = None then (1, s)
              else (0, port_upd p (\<lambda>pt. pt\<lparr>path_len := (path_len pt)[i := len]\<rparr>) s))"

text \<open>
  \<open>usb_helpers_release_port\<close> frees the copies and keeps the pointers; what is freed is not
  read again before the port itself is freed.
\<close>

definition usb_helpers_release_port :: "env \<Rightarrow> pid \<Rightarrow> sys \<Rightarrow> sys" where
  "usb_helpers_release_port e p s =
     fold (\<lambda>copy s. if copy = None then s else sys_do e Free_Mem s) (path (heap s p)) s"

subsection \<open>Hub descriptors\<close>

text \<open>
  A new handle for a device; \<open>None\<close> with the nonzero return value when it cannot be opened.
\<close>

definition usb_open :: "env \<Rightarrow> dev option \<Rightarrow> sys \<Rightarrow> (int \<times> handle option) \<times> sys" where
  "usb_open e d s =
     (let (retval, s) = sys_call e (Usb_Open d) s
      in if retval \<noteq> 0 then ((retval, None), s)
         else ((retval, Some (next_handle s)), s\<lparr>next_handle := Suc (next_handle s)\<rparr>))"

definition descriptor_type :: "u16 \<Rightarrow> u16" where
  "descriptor_type usb_ver = (if usb_ver = 0x300 then 0x2A else 0x29)"

text \<open>The two lowest bits of the hub's characteristics; 0 without a handle, -1 on failure.\<close>

definition usb_helpers_get_power_switch :: "env \<Rightarrow> dev option \<Rightarrow> u16 \<Rightarrow> sys \<Rightarrow> int \<times> sys" where
  "usb_helpers_get_power_switch e hub_device usb_ver s =
     (let ((r, hub_handle), s) = usb_open e hub_device s
      in case hub_handle of
           None \<Rightarrow> (0, s)
         | Some h \<Rightarrow>
             let hubd = hub_desc e (trace s);
                 (retval, s) =
                   sys_call e (Usb_Get_Hub_Descriptor hub_device (descriptor_type usb_ver)) s;
                 s = sys_do e (Usb_Close h) s
             in if retval < 0 then (-1, s)
                else (int (unat (and (snd hubd) 3)), s))"

definition usb_helpers_get_num_ports :: "env \<Rightarrow> dev option \<Rightarrow> u16 \<Rightarrow> sys \<Rightarrow> u8 \<times> sys" where
  "usb_helpers_get_num_ports e hub_device usb_ver s =
     (let ((r, hub_handle), s) = usb_open e hub_device s
      in case hub_handle of
           None \<Rightarrow> (0, s)
         | Some h \<Rightarrow>
             let s = sys_do e Usb_Unlock_Events s;
                 hubd = hub_desc e (trace s);
                 (retval, s) =
                   sys_call e (Usb_Get_Hub_Descriptor hub_device (descriptor_type usb_ver)) s;
                 s = sys_do e (Usb_Close h) s;
                 s = sys_do e Usb_Lock_Events s
             in if retval < 0 then (0, s) else (fst hubd, s))"

subsection \<open>Timeouts\<close>

text \<open>
  The clock is in microseconds. The addition of the seconds is done in 64 bits.
\<close>

definition usb_helpers_start_timeout :: "env \<Rightarrow> pid \<Rightarrow> u8 \<Rightarrow> sys \<Rightarrow> sys" where
  "usb_helpers_start_timeout e p timeout_sec s =
     (let (tp, s) = clock_gettime e s;
          s = port_upd p (\<lambda>pt. pt\<lparr>timeout_expire := tp + ucast timeout_sec * 1000000\<rparr>) s
      in usb_monitor_lists_add_timeout p s)"

subsection \<open>Pings\<close>

text \<open>The return value is that of \<open>libusb_open\<close>, 0 on success.\<close>

definition usb_helpers_configure_handle :: "env \<Rightarrow> pid \<Rightarrow> sys \<Rightarrow> int \<times> sys" where
  "usb_helpers_configure_handle e p s =
     (let ((retval, h), s) = usb_open e (dev (heap s p)) s
      in if retval \<noteq> 0
         then
           let s = port_upd p (\<lambda>pt. pt\<lparr>num_retrans := num_retrans pt + 1\<rparr>) s
           in (retval, usb_helpers_start_timeout e p DEFAULT_TIMEOUT_SEC s)
         else (retval, port_upd p (\<lambda>pt. pt\<lparr>dev_handle := h\<rparr>) s))"

text \<open>
  What a failed submission of a transfer does, here and in the generic handler: free the
  transfer, give the device's handle up, wait for the next timeout.
\<close>

definition ping_submit_failed :: "env \<Rightarrow> pid \<Rightarrow> sys \<Rightarrow> sys" where
  "ping_submit_failed e p s =
     (let s = sys_do e Usb_Free_Transfer s;
          s = sys_do e (Usb_Release_Interface (dev_handle (heap s p))) s;
          s = (case dev_handle (heap s p) of None \<Rightarrow> s | Some h \<Rightarrow> sys_do e (Usb_Close h) s);
          s = port_upd p (\<lambda>pt. pt\<lparr>dev_handle := None\<rparr>) s
      in usb_helpers_start_timeout e p DEFAULT_TIMEOUT_SEC s)"

text \<open>The part of \<open>usb_helpers_send_ping\<close> after the handle is there.\<close>

definition send_ping_transfer :: "env \<Rightarrow> pid \<Rightarrow> sys \<Rightarrow> sys" where
  "send_ping_transfer e p s =
     (let (tr, s) = sys_call e Usb_Alloc_Transfer s
      in if tr = 0 then usb_helpers_start_timeout e p DEFAULT_TIMEOUT_SEC s
         else
           let s = sys_do e Usb_Unlock_Events s;
               (retval, s) = sys_call e (Usb_Submit (Ping_Transfer p (dev_handle (heap s p)))) s;
               s = (if retval \<noteq> 0 then ping_submit_failed e p s else s)
           in sys_do e Usb_Lock_Events s)"

definition usb_helpers_send_ping :: "env \<Rightarrow> pid \<Rightarrow> sys \<Rightarrow> sys" where
  "usb_helpers_send_ping e p s =
     (if dev_handle (heap s p) = None
      then
        let (retval, s) = usb_helpers_configure_handle e p s
        in if retval \<noteq> 0 then s else send_ping_transfer e p s
      else send_ping_transfer e p s)"

subsection \<open>Devices\<close>

text \<open>\<open>path\<close> and \<open>path_len\<close> of a device: its bus, then its ports.\<close>

definition usb_helpers_fill_port_array :: "env \<Rightarrow> dev \<Rightarrow> u8 list \<times> u8" where
  "usb_helpers_fill_port_array e d =
     (bus_number e d # port_numbers e d, of_nat (length (port_numbers e d)) + 1)"

text \<open>The loop over the first \<open>n\<close> entries of the list of bad ids.\<close>

definition usb_helpers_check_bad_id :: "sys \<Rightarrow> pid \<Rightarrow> bool" where
  "usb_helpers_check_bad_id s p =
     list_ex (\<lambda>(v, d). vid (heap s p) = v \<and> pid (heap s p) = d)
       (take (unat (num_bad_device_ids s)) (bad_device_ids s))"

section \<open>The timeouts of a state\<close>

text \<open>\<open>tq s xs\<close>: the links of the timeout list are intact and represent \<open>xs\<close>.\<close>

definition tq :: "sys \<Rightarrow> pid list \<Rightarrow> bool" where
  "tq s xs \<longleftrightarrow> lq_list (timeout_q s) xs"

lemma tq_active [simp]: "tq s xs \<Longrightarrow> usb_monitor_lists_is_timeout_active s p \<longleftrightarrow> p \<in> set xs"
  by (simp add: tq_def usb_monitor_lists_is_timeout_active_def lq_active_iff)

lemma tq_distinct: "tq s xs \<Longrightarrow> distinct xs"
  by (simp add: tq_def lq_list_def)

lemma tq_unique: "tq s xs \<Longrightarrow> tq s ys \<Longrightarrow> xs = ys"
  by (auto simp: tq_def intro: lq_list_unique)

lemma tq_cong: "timeout_q s' = timeout_q s \<Longrightarrow> tq s' xs = tq s xs"
  by (simp add: tq_def)

lemma del_timeout_member:
  assumes "tq s xs" and "p \<in> set xs"
  obtains q where "usb_monitor_lists_del_timeout p s = Inr (s\<lparr>timeout_q := q\<rparr>)"
    and "lq_list q (remove1 p xs)"
  using assms unfolding tq_def usb_monitor_lists_del_timeout_def
  by (metis and_then_simps(2) lq_unlink_member)

lemma del_timeout_non_member:
  "tq s xs \<Longrightarrow> p \<notin> set xs \<Longrightarrow> usb_monitor_lists_del_timeout p s = Inl Null_Deref"
  by (simp add: tq_def usb_monitor_lists_del_timeout_def lq_unlink_non_member)

lemma guarded_del_timeout_ok:
  assumes "tq s xs"
  obtains q where "guarded_del_timeout p s = Inr (s\<lparr>timeout_q := q\<rparr>)"
    and "lq_list q (remove1 p xs)"
proof (cases "p \<in> set xs")
  case True
  with assms obtain q where "usb_monitor_lists_del_timeout p s = Inr (s\<lparr>timeout_q := q\<rparr>)"
    "lq_list q (remove1 p xs)"
    by (rule del_timeout_member)
  with True assms show thesis by (intro that) (simp_all add: guarded_del_timeout_def)
next
  case False
  with assms have "guarded_del_timeout p s = Inr (s\<lparr>timeout_q := timeout_q s\<rparr>)"
    by (simp add: guarded_del_timeout_def)
  moreover have "lq_list (timeout_q s) (remove1 p xs)"
    using assms False by (simp add: tq_def remove1_idem)
  ultimately show thesis by (rule that)
qed

text \<open>Starting a timeout puts the port at the head, with the new expiry time.\<close>

lemma start_timeout_tq:
  "tq s xs \<Longrightarrow> p \<notin> set xs \<Longrightarrow> tq (usb_helpers_start_timeout e p t s) (p # xs)"
  by (simp add: tq_def usb_helpers_start_timeout_def usb_monitor_lists_add_timeout_def
      clock_gettime_def Let_def list_insert_head_list)

lemma start_timeout_heap [simp]:
  "heap (usb_helpers_start_timeout e p t s) =
     (heap s)(p := (heap s p)\<lparr>timeout_expire := clock e (trace s) + ucast t * 1000000\<rparr>)"
  by (simp add: usb_helpers_start_timeout_def usb_monitor_lists_add_timeout_def
      clock_gettime_def Let_def)

lemma start_timeout_frame [simp]:
  "port_list (usb_helpers_start_timeout e p t s) = port_list s"
  "hub_list (usb_helpers_start_timeout e p t s) = hub_list s"
  "hubs (usb_helpers_start_timeout e p t s) = hubs s"
  "shared (usb_helpers_start_timeout e p t s) = shared s"
  "mcu_info (usb_helpers_start_timeout e p t s) = mcu_info s"
  "timers (usb_helpers_start_timeout e p t s) = timers s"
  "timer_q (usb_helpers_start_timeout e p t s) = timer_q s"
  "itr_cb (usb_helpers_start_timeout e p t s) = itr_cb s"
  "bad_device_ids (usb_helpers_start_timeout e p t s) = bad_device_ids s"
  "num_bad_device_ids (usb_helpers_start_timeout e p t s) = num_bad_device_ids s"
  "clients_map (usb_helpers_start_timeout e p t s) = clients_map s"
  "clients (usb_helpers_start_timeout e p t s) = clients s"
  "next_handle (usb_helpers_start_timeout e p t s) = next_handle s"
  "trace (usb_helpers_start_timeout e p t s) = (Clock_Gettime, 0) # trace s"
  by (simp_all add: usb_helpers_start_timeout_def usb_monitor_lists_add_timeout_def
      clock_gettime_def Let_def)

lemma start_timeout_only [simp]: "only_port p s (usb_helpers_start_timeout e p t s)"
  by (simp add: only_port_def)

text \<open>
  Starting the timeout of a port that is at the head of the list already breaks the list:
  the port becomes its own successor.
\<close>

lemma start_timeout_twice:
  assumes "tq s (p # xs)"
  shows "le_next (timeout_q (usb_helpers_start_timeout e p t s)) p = Some p"
    and "lh_first (timeout_q (usb_helpers_start_timeout e p t s)) = Some p"
  using assms lq_first [of "timeout_q s" "p # xs"]
  by (simp_all add: tq_def usb_helpers_start_timeout_def usb_monitor_lists_add_timeout_def
      clock_gettime_def Let_def insert_head_twice)

section \<open>Paths of ports\<close>

text \<open>The paths of a port: the array up to the first NULL.\<close>

fun port_paths :: "u8 list option list \<Rightarrow> u8 list list" where
  "port_paths (Some copy # ps) = copy # port_paths ps"
| "port_paths _ = []"

text \<open>A copy is intact when it has no zero byte and the length beside it is its own.\<close>

definition paths_intact :: "usb_port \<Rightarrow> bool" where
  "paths_intact pt \<longleftrightarrow>
     length (path pt) = length (path_len pt) \<and>
     (\<forall>(c, l)\<in>set (zip (path pt) (path_len pt)). \<forall>copy. c = Some copy \<longrightarrow>
        unat l = length copy \<and> 0 \<notin> set copy)"

lemma memcmp_same_length: "length copy = length q \<Longrightarrow> memcmp_eq copy q (length q) = Inr (copy = q)"
  by (simp add: memcmp_eq_def)

lemma match_paths_intact:
  assumes "length ps = length ls" and "length q < 256"
    and "\<forall>(c, l)\<in>set (zip ps ls). \<forall>copy. c = Some copy \<longrightarrow> unat l = length copy \<and> 0 \<notin> set copy"
  shows "match_paths (zip ps ls) q (of_nat (length q)) = Inr (q \<in> set (port_paths ps))"
  using assms
proof (induction ps ls rule: list_induct2)
  case (Cons c ps l ls)
  have len: "unat (of_nat (length q) :: u8) = length q"
    using assms(2) by (simp add: unat_of_nat take_bit_nat_eq_self)
  show ?case
  proof (cases c)
    case (Some copy)
    then have l: "unat l = length copy" using Cons.prems by auto
    have "l = of_nat (length q) \<longleftrightarrow> length copy = length q"
      using l len by (simp add: word_unat_eq_iff)
    then show ?thesis
      using Some Cons len by (auto simp: memcmp_same_length)
  qed simp
qed simp

lemma find_port_loop_intact:
  assumes "\<forall>p\<in>set ps. paths_intact (hp p)" and "length q < 256"
  shows "find_port_path_loop hp ps q (of_nat (length q)) =
           Inr (List.find (\<lambda>p. q \<in> set (port_paths (path (hp p)))) ps)"
  using assms by (induction ps) (simp_all add: match_paths_intact paths_intact_def)

lemma find_port_by_path:
  assumes "\<forall>p\<in>set (port_list s). paths_intact (heap s p)" and "length q < 256"
  shows "usb_monitor_lists_find_port_path s q (of_nat (length q)) =
           Inr (List.find (\<lambda>p. q \<in> set (port_paths (path (heap s p)))) (port_list s))"
  using find_port_loop_intact [OF assms] by (simp add: usb_monitor_lists_find_port_path_def)

text \<open>A new copy of a path without a zero byte is intact.\<close>

lemma configure_port_intact:
  assumes "0 \<notin> set q" and "length q < 256" and "path_len (heap s p) = [0, 0]" "path (heap s p) = [None, None]"
    and "usb_helpers_configure_port e p q (of_nat (length q)) num par s = (r, s')"
  shows "paths_intact (heap s' p)" and "r = 0 \<Longrightarrow> port_paths (path (heap s' p)) = [q]"
proof -
  have len: "unat (of_nat (length q) :: u8) = length q"
    using assms(2) by (simp add: unat_of_nat take_bit_nat_eq_self)
  show "paths_intact (heap s' p)" "r = 0 \<Longrightarrow> port_paths (path (heap s' p)) = [q]"
    using assms len
    by (auto simp: usb_helpers_configure_port_def strndup_call_def sys_call_def Let_def
        usb_monitor_lists_add_port_def paths_intact_def strndup_no_zero split: if_splits)
qed

end
