(* ===== verification/Port_Contract.thy ===== *)
theory Port_Contract
  imports Usb_Helpers
begin

section \<open>What the handlers of ports promise\<close>

text \<open>
  The monitor calls the handlers through the function pointers of the ports and relies on
  two things: a call for one port leaves the others alone, and it does not disturb the list of
  timeouts the monitor may be walking. This theory states the contract as a locale; the
  theories of the four handlers show that they keep it, and theory \<open>Port_Dispatch\<close> that
  the calls through the pointers do.
\<close>

text \<open>What a call may do to the timeouts: leave them, remove the port, or move it to the head.\<close>

definition local_tq :: "pid \<Rightarrow> pid list \<Rightarrow> pid list \<Rightarrow> bool" where
  "local_tq p xs ys \<longleftrightarrow> ys = xs \<or> ys = remove1 p xs \<or> ys = p # remove1 p xs"

lemma local_tq_refl [simp]: "local_tq p xs xs"
  by (simp add: local_tq_def)

text \<open>
  The contract of an operation on a port: it touches no other port, and in the list of timeouts
  it moves no other port.
\<close>

definition port_local :: "pid \<Rightarrow> sys \<Rightarrow> pid list \<Rightarrow> sys \<Rightarrow> bool" where
  "port_local p s xs s' \<longleftrightarrow> only_port p s s' \<and> (\<exists>ys. tq s' ys \<and> local_tq p xs ys)"

lemma port_localI: "only_port p s s' \<Longrightarrow> tq s' ys \<Longrightarrow> local_tq p xs ys \<Longrightarrow> port_local p s xs s'"
  by (auto simp: port_local_def)

lemma local_tq_trans: "distinct xs \<Longrightarrow> local_tq p xs ys \<Longrightarrow> local_tq p ys zs \<Longrightarrow> local_tq p xs zs"
  by (auto simp: local_tq_def remove1_idem not_in_remove1)

lemma port_local_trans:
  assumes "port_local p s xs s'" and "distinct xs"
    and "\<And>ys. tq s' ys \<Longrightarrow> local_tq p xs ys \<Longrightarrow> port_local p s' ys s''"
  shows "port_local p s xs s''"
  using assms unfolding port_local_def by (meson local_tq_trans only_port_trans)

lemma port_local_refl [simp]: "tq s xs \<Longrightarrow> port_local p s xs s"
  by (auto simp: port_local_def intro!: exI [of _ xs])

text \<open>A state update that leaves the timeouts alone and changes no other port.\<close>

lemma port_local_same: "only_port p s s' \<Longrightarrow> timeout_q s' = timeout_q s \<Longrightarrow> tq s xs \<Longrightarrow> port_local p s xs s'"
  by (auto simp: port_local_def tq_def intro!: exI [of _ xs])

lemma guarded_del_local:
  assumes "tq s xs"
  obtains s' where "guarded_del_timeout p s = Inr s'" and "tq s' (remove1 p xs)"
    and "s' = s\<lparr>timeout_q := timeout_q s'\<rparr>"
  using guarded_del_timeout_ok [OF assms, of p] by (force simp: tq_def)

lemma start_timeout_local:
  "tq s xs \<Longrightarrow> p \<notin> set xs \<Longrightarrow> port_local p s xs (usb_helpers_start_timeout e p t s)"
  by (rule port_localI [where ys = "p # xs"]) (simp_all add: start_timeout_tq local_tq_def remove1_idem)

lemma sys_call_eq: "sys_call e c s = (answer e (trace s) c, sys_do e c s)"
  by (simp add: sys_do_def sys_call_def Let_def)

lemma tq_frame [simp]:
  "tq (sys_do e c s) xs = tq s xs" "tq (port_upd p f s) xs = tq s xs"
  "tq (shared_upd l g s) xs = tq s xs" "tq (s\<lparr>itr_cb := b\<rparr>) xs = tq s xs"
  "tq (s\<lparr>next_handle := h\<rparr>) xs = tq s xs" "tq (s\<lparr>trace := tr\<rparr>) xs = tq s xs"
  "tq (s\<lparr>heap := hp\<rparr>) xs = tq s xs"
  by (simp_all add: tq_def)

lemma only_port_frame [simp]:
  "only_port p s (sys_do e c s') = only_port p s s'"
  "only_port p s (shared_upd l g s') = only_port p s s'"
  "only_port p s (s'\<lparr>itr_cb := b\<rparr>) = only_port p s s'"
  "only_port p s (s'\<lparr>next_handle := h\<rparr>) = only_port p s s'"
  "only_port p s (s'\<lparr>timeout_q := q\<rparr>) = only_port p s s'"
  "only_port p s (usb_helpers_start_timeout e p t s') = only_port p s s'"
  by (simp_all add: only_port_def)

lemma only_port_upd [simp]:
  "port_type (f (heap s' p)) = port_type (heap s' p) \<Longrightarrow> path (f (heap s' p)) = path (heap s' p) \<Longrightarrow>
   path_len (f (heap s' p)) = path_len (heap s' p) \<Longrightarrow> parent (f (heap s' p)) = parent (heap s' p) \<Longrightarrow>
   port_num (f (heap s' p)) = port_num (heap s' p) \<Longrightarrow> gpio_path (f (heap s' p)) = gpio_path (heap s' p) \<Longrightarrow>
   gpio_num (f (heap s' p)) = gpio_num (heap s' p) \<Longrightarrow> on_val (f (heap s' p)) = on_val (heap s' p) \<Longrightarrow>
   off_val (f (heap s' p)) = off_val (heap s' p) \<Longrightarrow> shared_info (f (heap s' p)) = shared_info (heap s' p) \<Longrightarrow>
   bitmask (f (heap s' p)) = bitmask (heap s' p) \<Longrightarrow>
   msg_mode (f (heap s' p)) = msg_mode (heap s' p) \<or> msg_mode (f (heap s' p)) \<noteq> PROBE \<Longrightarrow>
   only_port p s s' \<Longrightarrow> only_port p s (port_upd p f s')"
  by (auto simp: only_port_def)

lemma usb_open_eq:
  "usb_open e d s = (let r = answer e (trace s) (Usb_Open d); s = sys_do e (Usb_Open d) s
     in if r \<noteq> 0 then ((r, None), s) else ((r, Some (next_handle s)), s\<lparr>next_handle := Suc (next_handle s)\<rparr>))"
  by (simp add: usb_open_def sys_call_eq Let_def)

lemma start_timeout_local':
  "only_port p s s' \<Longrightarrow> tq s' xs \<Longrightarrow> p \<notin> set xs \<Longrightarrow> port_local p s xs (usb_helpers_start_timeout e p t s')"
  by (rule port_localI [where ys = "p # xs"]) (simp_all add: start_timeout_tq local_tq_def remove1_idem)

lemma port_local_same': "only_port p s s' \<Longrightarrow> tq s' xs \<Longrightarrow> port_local p s xs s'"
  by (auto simp: port_local_def intro!: exI [of _ xs])

lemma ping_submit_failed_local:
  "only_port p s s' \<Longrightarrow> tq s' xs \<Longrightarrow> p \<notin> set xs \<Longrightarrow> port_local p s xs (ping_submit_failed e p s')"
  unfolding ping_submit_failed_def Let_def
  by (auto intro!: start_timeout_local' split: option.split)

lemma port_local_sys_do [simp]: "port_local p s xs (sys_do e c s') = port_local p s xs s'"
  by (simp add: port_local_def)

lemma send_ping_local:
  assumes "tq s xs" and "p \<notin> set xs"
  shows "port_local p s xs (usb_helpers_send_ping e p s)"
proof -
  have tr: "port_local p s xs (send_ping_transfer e p s')" if "only_port p s s'" "tq s' xs" for s'
    using that assms(2) unfolding send_ping_transfer_def sys_call_eq Let_def
    by (auto intro: start_timeout_local' port_local_same' ping_submit_failed_local)
  show ?thesis
    unfolding usb_helpers_send_ping_def usb_helpers_configure_handle_def usb_open_eq Let_def
    using assms by (auto intro!: tr start_timeout_local')
qed

lemma only_port_parent: "only_port p s s' \<Longrightarrow> parent (heap s' q) = parent (heap s q)"
  by (cases "q = p") (simp_all add: only_port_def)

lemma only_port_type: "only_port p s s' \<Longrightarrow> port_type (heap s' q) = port_type (heap s q)"
  by (cases "q = p") (simp_all add: only_port_def)

text \<open>
  The interface: \<open>ready\<close> is what a port needs before its functions can be called. A timeout
  handler is called after the port has left the list, and not during a probe.
\<close>

locale port_handler =
  fixes upd :: "env \<Rightarrow> pid \<Rightarrow> u8 \<Rightarrow> sys \<Rightarrow> (int \<times> sys) result"
    and tmo :: "env \<Rightarrow> pid \<Rightarrow> sys \<Rightarrow> sys result"
    and ready :: "usb_port \<Rightarrow> bool"
  assumes update_local: "ready (heap s p) \<Longrightarrow> tq s xs \<Longrightarrow>
      succeeds (upd e p cmd s) (\<lambda>(r, s'). port_local p s xs s')"
    and timeout_local: "ready (heap s p) \<Longrightarrow> msg_mode (heap s p) \<noteq> PROBE \<Longrightarrow> tq s xs \<Longrightarrow>
      p \<notin> set xs \<Longrightarrow> succeeds (tmo e p s) (port_local p s xs)"
    and ready_stable: "only_port p s s' \<Longrightarrow> ready (heap s q) \<Longrightarrow> ready (heap s' q)"

end
