(* ===== verification/Gpio_Handler.thy ===== *)
theory Gpio_Handler
  imports Port_Contract
begin

section \<open>Ports switched by a GPIO pin (gpio_handler.c)\<close>

text \<open>
  Switching a port by a write to a file in sysfs, the restart in two halves, and the probe
  that finds out which pin controls which USB path. Log output is not modelled.
\<close>

abbreviation GPIO_DEFAULT_ON_VAL :: u8 where "GPIO_DEFAULT_ON_VAL \<equiv> 1"
abbreviation GPIO_DEFAULT_OFF_VAL :: u8 where "GPIO_DEFAULT_OFF_VAL \<equiv> 0"
abbreviation GPIO_TIMEOUT_SLEEP_SEC :: u8 where "GPIO_TIMEOUT_SLEEP_SEC \<equiv> 10"
abbreviation GPIO_TIMEOUT_PROBE_DISABLE_SEC :: u8 where "GPIO_TIMEOUT_PROBE_DISABLE_SEC \<equiv> 5"
abbreviation GPIO_TIMEOUT_PROBE_ENABLE_SEC :: u8 where "GPIO_TIMEOUT_PROBE_ENABLE_SEC \<equiv> 60"

abbreviation is_gpio :: "sys \<Rightarrow> pid \<Rightarrow> bool" where
  "is_gpio s p \<equiv> port_type (heap s p) = PORT_TYPE_GPIO"

subsection \<open>Switching\<close>

definition gpio_file :: "usb_port \<Rightarrow> string" where
  "gpio_file pt =
     (case gpio_path pt of
        Some f \<Rightarrow> f
      | None \<Rightarrow> ''/sys/class/gpio/gpio'' @ dec (unat (port_num pt)) @ ''/value'')"

text \<open>The number of bytes written, not positive on failure.\<close>

definition gpio_write_value :: "env \<Rightarrow> pid \<Rightarrow> u8 \<Rightarrow> sys \<Rightarrow> int \<times> sys" where
  "gpio_write_value e p gpio_val s =
     (let (fd, s) = sys_call e (Open_File (gpio_file (heap s p))) s
      in if fd = -1 then (-1, s)
         else
           let (bytes_written, s) =
                 sys_call e (Write_Fd fd (if gpio_val \<noteq> 0 then ''1'' else ''0'')) s
           in (bytes_written, sys_do e (Close_Fd fd) s))"

definition gpio_update_port :: "env \<Rightarrow> pid \<Rightarrow> u8 \<Rightarrow> sys \<Rightarrow> (int \<times> sys) result" where
  "gpio_update_port e p cmd s =
     (if cmd = CMD_ENABLE then
        let (n, s) = gpio_write_value e p (on_val (heap s p)) s
        in if n \<le> 0 then Inr (-1, s)
           else Inr (0, port_upd p (\<lambda>pt. pt\<lparr>enabled := True, pwr_state := True\<rparr>) s)
      else if cmd = CMD_DISABLE then
        let (n, s) = gpio_write_value e p (off_val (heap s p)) s
        in if n \<le> 0 then Inr (-1, s)
           else Inr (0, port_upd p (\<lambda>pt. pt\<lparr>enabled := False, pwr_state := False,
                                           msg_mode := IDLE\<rparr>) s)
      else if \<not> enabled (heap s p) then Inr (0, s)
      else
        and_then (guarded_del_timeout p (port_upd p (\<lambda>pt. pt\<lparr>msg_mode := RESET\<rparr>) s)) (\<lambda>s.
          let gpio_val = (if pwr_state (heap s p) then off_val (heap s p) else on_val (heap s p));
              (n, s) = gpio_write_value e p gpio_val s
          in if n \<le> 0 then Inr (-1, usb_helpers_start_timeout e p DEFAULT_TIMEOUT_SEC s)
             else
               let s = port_upd p (\<lambda>pt. pt\<lparr>pwr_state := \<not> pwr_state pt\<rparr>) s
               in if pwr_state (heap s p)
                  then Inr (0, port_upd p (\<lambda>pt. pt\<lparr>msg_mode := IDLE\<rparr>) s)
                  else Inr (0, usb_helpers_start_timeout e p GPIO_TIMEOUT_SLEEP_SEC s)))"

subsection \<open>Probing\<close>

text \<open>Enable the first port that was switched off for the probe; whether there was one.\<close>

fun gpio_probe_enable_port_loop :: "env \<Rightarrow> pid list \<Rightarrow> sys \<Rightarrow> (bool \<times> sys) result" where
  "gpio_probe_enable_port_loop e [] s = Inr (False, s)"
| "gpio_probe_enable_port_loop e (itr # ps) s =
     (if \<not> is_gpio s itr then gpio_probe_enable_port_loop e ps s
      else if probe_state (heap s itr) = PROBE_DOWN_DONE then
        and_then (gpio_update_port e itr CMD_ENABLE s) (\<lambda>(r, s).
          if r \<noteq> 0
          then Inr (True, usb_helpers_start_timeout e itr GPIO_TIMEOUT_PROBE_DISABLE_SEC s)
          else
            let s = port_upd itr (\<lambda>pt. pt\<lparr>probe_state := PROBE_UP\<rparr>) s
            in Inr (True, usb_helpers_start_timeout e itr GPIO_TIMEOUT_PROBE_ENABLE_SEC s))
      else gpio_probe_enable_port_loop e ps s)"

definition gpio_probe_enable_port :: "env \<Rightarrow> sys \<Rightarrow> (bool \<times> sys) result" where
  "gpio_probe_enable_port e s = gpio_probe_enable_port_loop e (port_list s) s"

fun gpio_on_probe_down_done_loop :: "env \<Rightarrow> pid list \<Rightarrow> sys \<Rightarrow> sys result" where
  "gpio_on_probe_down_done_loop e [] s =
     and_then (gpio_probe_enable_port e s) (\<lambda>(_, s). Inr s)"
| "gpio_on_probe_down_done_loop e (itr # ps) s =
     (if \<not> is_gpio s itr then gpio_on_probe_down_done_loop e ps s
      else if vid (heap s itr) \<noteq> 0 \<or> pid (heap s itr) \<noteq> 0
      then Inr (usb_helpers_start_timeout e itr GPIO_TIMEOUT_PROBE_DISABLE_SEC s)
      else gpio_on_probe_down_done_loop e ps
             (port_upd itr (\<lambda>pt. pt\<lparr>probe_state := PROBE_DOWN_DONE\<rparr>) s))"

definition gpio_on_probe_down_done :: "env \<Rightarrow> sys \<Rightarrow> sys result" where
  "gpio_on_probe_down_done e s = gpio_on_probe_down_done_loop e (port_list s) s"

definition gpio_handle_probe_up_timeout :: "env \<Rightarrow> pid \<Rightarrow> sys \<Rightarrow> sys result" where
  "gpio_handle_probe_up_timeout e p s =
     and_then (gpio_update_port e p CMD_DISABLE s) (\<lambda>(r, s).
       let s = (if r \<noteq> 0 then s
                else port_upd p (\<lambda>pt. pt\<lparr>probe_state := PROBE_DOWN_2, msg_mode := PROBE\<rparr>) s)
       in Inr (usb_helpers_start_timeout e p GPIO_TIMEOUT_PROBE_DISABLE_SEC s))"

fun gpio_handler_restart_all_ports_loop :: "env \<Rightarrow> pid list \<Rightarrow> sys \<Rightarrow> sys result" where
  "gpio_handler_restart_all_ports_loop e [] s = Inr s"
| "gpio_handler_restart_all_ports_loop e (itr # ps) s =
     (if \<not> is_gpio s itr then gpio_handler_restart_all_ports_loop e ps s
      else
        and_then
          (if \<not> enabled (heap s itr)
           then gpio_update_port e itr CMD_ENABLE (port_upd itr (\<lambda>pt. pt\<lparr>msg_mode := IDLE\<rparr>) s)
           else gpio_update_port e itr CMD_RESTART s)
          (\<lambda>(_, s). gpio_handler_restart_all_ports_loop e ps s))"

definition gpio_handler_restart_all_ports :: "env \<Rightarrow> sys \<Rightarrow> sys result" where
  "gpio_handler_restart_all_ports e s = gpio_handler_restart_all_ports_loop e (port_list s) s"

definition gpio_handler_handle_probe_done :: "env \<Rightarrow> sys \<Rightarrow> sys result" where
  "gpio_handler_handle_probe_done e s = gpio_handler_restart_all_ports e s"

subsection \<open>Writing the mapping\<close>

text \<open>An allocation of a JSON value: whether it succeeded.\<close>

definition json_alloc :: "env \<Rightarrow> sys \<Rightarrow> bool \<times> sys" where
  "json_alloc e s = (let (r, s) = sys_call e Json_Alloc s in (r \<noteq> 0, s))"

text \<open>The texts of a port's paths up to the first NULL; \<open>None\<close> when an allocation fails.\<close>

fun mapping_paths ::
  "env \<Rightarrow> (u8 list option \<times> u8) list \<Rightarrow> sys \<Rightarrow> (json list option \<times> sys) result" where
  "mapping_paths e [] s = Inr (Some [], s)"
| "mapping_paths e ((None, _) # ps) s = Inr (Some [], s)"
| "mapping_paths e ((Some copy, len) # ps) s =
     and_then (usb_helpers_convert_path_char (char_signed e) copy len) (\<lambda>r.
       let (ok, s) = json_alloc e s
       in if \<not> ok then Inr (None, s)
          else and_then (mapping_paths e ps s) (\<lambda>(js, s).
                 Inr (map_option (\<lambda>js. JString (path_text r) # js) js, s)))"

text \<open>
  One optional number of a port's object: nothing to add, the member, or a failed
  allocation.
\<close>

definition mapping_val ::
  "env \<Rightarrow> string \<Rightarrow> u8 \<Rightarrow> u8 \<Rightarrow> sys \<Rightarrow> (string \<times> json) list option \<times> sys" where
  "mapping_val e key v dflt s =
     (if v = dflt then (Some [], s)
      else
        let (ok, s) = json_alloc e s
        in (if ok then Some [(key, JInt (int (unat v)))] else None, s))"

text \<open>
  The object of one port. \<open>json_object_new_string\<close> takes the length of its argument, so a
  port without a \<open>gpio_path\<close> makes it read through NULL.
\<close>

definition mapping_port :: "env \<Rightarrow> pid \<Rightarrow> sys \<Rightarrow> (json option \<times> sys) result" where
  "mapping_port e p s =
     (let (ok, s) = json_alloc e s
      in if \<not> ok then Inr (None, s)
         else case gpio_path (heap s p) of
           None \<Rightarrow> Inl Null_Deref
         | Some file \<Rightarrow>
             let (ok, s) = json_alloc e s
             in if \<not> ok then Inr (None, s)
                else
                  let (on, s) = mapping_val e ''on_val'' (on_val (heap s p)) GPIO_DEFAULT_ON_VAL s
                  in case on of None \<Rightarrow> Inr (None, s) | Some on \<Rightarrow>
                  let (off, s) =
                        mapping_val e ''off_val'' (off_val (heap s p)) GPIO_DEFAULT_OFF_VAL s
                  in case off of None \<Rightarrow> Inr (None, s) | Some off \<Rightarrow>
                  let (ok, s) = json_alloc e s
                  in if \<not> ok then Inr (None, s)
                     else
                       and_then (mapping_paths e (zip (path (heap s p)) (path_len (heap s p))) s)
                         (\<lambda>(js, s). Inr (map_option (\<lambda>js.
                            JObject ([(''gpio_path'', JString file)] @ on @ off @
                                     [(''path'', JArray js)])) js, s)))"

fun mapping_ports :: "env \<Rightarrow> pid list \<Rightarrow> sys \<Rightarrow> (json list option \<times> sys) result" where
  "mapping_ports e [] s = Inr (Some [], s)"
| "mapping_ports e (itr # ps) s =
     (if \<not> is_gpio s itr then mapping_ports e ps s
      else
        and_then (mapping_port e itr s) (\<lambda>(j, s).
          case j of
            None \<Rightarrow> Inr (None, s)
          | Some j \<Rightarrow> and_then (mapping_ports e ps s) (\<lambda>(js, s).
                        Inr (map_option (\<lambda>js. j # js) js, s))))"

definition gpio_create_mapping_json :: "env \<Rightarrow> sys \<Rightarrow> (json option \<times> sys) result" where
  "gpio_create_mapping_json e s =
     (let (ok1, s) = json_alloc e s
      in if \<not> ok1 then Inr (None, s)
         else let (ok2, s) = json_alloc e s
         in if \<not> ok2 then Inr (None, s)
         else let (ok3, s) = json_alloc e s
         in if \<not> ok3 then Inr (None, s)
         else and_then (mapping_ports e (port_list s) s) (\<lambda>(js, s).
           Inr (map_option (\<lambda>js. JObject [(''name'', JString ''GPIO''), (''ports'', JArray js)]) js,
                s)))"

text \<open>Try again later: the failure branches of \<open>gpio_write_config\<close>.\<close>

definition gpio_write_config_retry :: "env \<Rightarrow> pid \<Rightarrow> sys \<Rightarrow> sys" where
  "gpio_write_config_retry e p s =
     usb_helpers_start_timeout e p GPIO_TIMEOUT_PROBE_DISABLE_SEC
       (port_upd p (\<lambda>pt. pt\<lparr>probe_state := PROBE_WRITE_FILE\<rparr>) s)"

definition gpio_write_config :: "env \<Rightarrow> pid \<Rightarrow> sys \<Rightarrow> sys result" where
  "gpio_write_config e p s =
     and_then (gpio_create_mapping_json e s) (\<lambda>(config_obj, s).
       case config_obj of
         None \<Rightarrow> Inr (gpio_write_config_retry e p s)
       | Some config_obj \<Rightarrow>
           let config_json_str = json_to_string (jlib e) config_obj
           in case port_mapping_path (heap s p) of
                None \<Rightarrow> Inl Null_Deref
              | Some map_path \<Rightarrow>
                  let mapping_file_path = take 131 (map_path @ ''.tmp'');
                      (mapping_file, s) = sys_call e (Fopen mapping_file_path) s
                  in if mapping_file = 0 then Inr (gpio_write_config_retry e p s)
                     else
                       let (retval, s) = sys_call e (Fwrite config_json_str) s
                       in if retval \<noteq> int (length config_json_str)
                          then Inr (gpio_write_config_retry e p s)
                          else
                            and_then (gpio_handler_handle_probe_done e s) (\<lambda>s.
                              let (r, s) = sys_call e (Link mapping_file_path map_path) s
                              in if r \<noteq> 0 then Inr (gpio_write_config_retry e p s)
                                 else Inr (sys_do e (Unlink mapping_file_path) s)))"

text \<open>The step the sources repeat: enable the next port or, if none is left, write.\<close>

definition gpio_probe_next :: "env \<Rightarrow> pid \<Rightarrow> sys \<Rightarrow> sys result" where
  "gpio_probe_next e p s =
     and_then (gpio_probe_enable_port e s) (\<lambda>(found, s).
       if found then Inr s else gpio_write_config e p s)"

definition gpio_handle_probe_down_2 :: "env \<Rightarrow> pid \<Rightarrow> sys \<Rightarrow> sys result" where
  "gpio_handle_probe_down_2 e p s =
     gpio_probe_next e p (port_upd p (\<lambda>pt. pt\<lparr>probe_state := PROBE_DONE\<rparr>) s)"

definition gpio_on_probe_timeout :: "env \<Rightarrow> pid \<Rightarrow> sys \<Rightarrow> sys result" where
  "gpio_on_probe_timeout e p s =
     (case probe_state (heap s p) of
        PROBE_DOWN \<Rightarrow>
          gpio_on_probe_down_done e (port_upd p (\<lambda>pt. pt\<lparr>probe_state := PROBE_DOWN_DONE\<rparr>) s)
      | PROBE_DOWN_DONE \<Rightarrow>
          gpio_on_probe_down_done e (port_upd p (\<lambda>pt. pt\<lparr>probe_state := PROBE_DOWN_DONE\<rparr>) s)
      | PROBE_UP \<Rightarrow> gpio_handle_probe_up_timeout e p s
      | PROBE_DOWN_2 \<Rightarrow> gpio_handle_probe_down_2 e p s
      | PROBE_WRITE_FILE \<Rightarrow> gpio_write_config e p s
      | _ \<Rightarrow> Inr s)"

definition gpio_handle_timeout :: "env \<Rightarrow> pid \<Rightarrow> sys \<Rightarrow> sys result" where
  "gpio_handle_timeout e p s =
     (case msg_mode (heap s p) of
        PING \<Rightarrow> Inr (usb_helpers_send_ping e p s)
      | PROBE \<Rightarrow> gpio_on_probe_timeout e p s
      | _ \<Rightarrow> and_then (gpio_update_port e p CMD_RESTART s) (\<lambda>(_, s). Inr s))"

text \<open>
  Start the probe: switch every GPIO port off. The result is the return value and the last
  GPIO port seen, whose timeout stands for all of them.
\<close>

fun gpio_handler_start_probe_loop ::
  "env \<Rightarrow> string \<Rightarrow> pid list \<Rightarrow> pid option \<Rightarrow> sys \<Rightarrow> ((int \<times> pid option) \<times> sys) result" where
  "gpio_handler_start_probe_loop e map_path [] port s = Inr ((0, port), s)"
| "gpio_handler_start_probe_loop e map_path (itr # ps) port s =
     (if \<not> is_gpio s itr then gpio_handler_start_probe_loop e map_path ps port s
      else
        and_then (gpio_update_port e itr CMD_DISABLE s) (\<lambda>(r, s).
          if r \<noteq> 0 then Inr ((-1, Some itr), s)
          else
            let s = port_upd itr (\<lambda>pt. pt\<lparr>probe_state := PROBE_DOWN, msg_mode := PROBE,
                                         port_mapping_path := Some map_path\<rparr>) s
            in and_then (guarded_del_timeout itr s) (\<lambda>s.
                 gpio_handler_start_probe_loop e map_path ps (Some itr) s)))"

definition gpio_handler_start_probe :: "env \<Rightarrow> string \<Rightarrow> sys \<Rightarrow> (int \<times> sys) result" where
  "gpio_handler_start_probe e port_mapping_path' s =
     and_then (gpio_handler_start_probe_loop e port_mapping_path' (port_list s) None s)
       (\<lambda>((r, port), s).
         if r \<noteq> 0 then Inr (r, s)
         else case port of
           None \<Rightarrow> Inl Null_Deref
         | Some p \<Rightarrow> Inr (0, usb_helpers_start_timeout e p GPIO_TIMEOUT_PROBE_DISABLE_SEC s))"

subsection \<open>A device shows up during the probe\<close>

text \<open>
  The three loops of \<open>gpio_handler_swap_port_info\<close> stop at the first NULL, so each moves
  the paths before it. \<open>overwrite\<close> stores a list over the front of an array.
\<close>

definition path_count :: "u8 list option list \<Rightarrow> nat" where
  "path_count ps = length (takeWhile (\<lambda>x. x \<noteq> None) ps)"

definition overwrite :: "'a list \<Rightarrow> 'a list \<Rightarrow> 'a list" where
  "overwrite xs arr = xs @ drop (length xs) arr"

definition gpio_handler_swap_port_info :: "pid \<Rightarrow> pid \<Rightarrow> sys \<Rightarrow> sys" where
  "gpio_handler_swap_port_info m p s =
     (let n = path_count (path (heap s m));
          path_tmp = take n (path (heap s m));
          path_len_tmp = take n (path_len (heap s m));
          s = port_upd m (\<lambda>pt. pt\<lparr>path := overwrite (replicate n None) (path pt)\<rparr>) s;
          k = path_count (path (heap s p));
          moved = take k (path (heap s p));
          moved_len = take k (path_len (heap s p));
          s = port_upd m (\<lambda>pt. pt\<lparr>path := overwrite moved (path pt),
                                  path_len := overwrite moved_len (path_len pt)\<rparr>) s;
          s = port_upd p (\<lambda>pt. pt\<lparr>path := overwrite (replicate k None) (path pt)\<rparr>) s;
          s = port_upd p (\<lambda>pt. pt\<lparr>path := overwrite path_tmp (path pt),
                                  path_len := overwrite path_len_tmp (path_len pt)\<rparr>) s;
          s = port_upd p (\<lambda>pt. pt\<lparr>vid := vid (heap s m), pid := pid (heap s m),
                                  status := status (heap s m), dev := dev (heap s m)\<rparr>) s
      in port_upd m (\<lambda>pt. pt\<lparr>vid := 0, pid := 0, status := PORT_NO_DEV_CONNECTED,
                              dev := None\<rparr>) s)"

text \<open>
  The search for the port being probed leaves two variables: \<open>itr\<close>, NULL when the loop ran
  to its end, and \<open>g_port\<close>, the last GPIO port looked at.
\<close>

fun find_probed :: "sys \<Rightarrow> pid list \<Rightarrow> pid option \<Rightarrow> pid option \<times> pid option" where
  "find_probed s [] g_port = (None, g_port)"
| "find_probed s (itr # ps) g_port =
     (if \<not> is_gpio s itr then find_probed s ps g_port
      else if probe_state (heap s itr) = PROBE_UP then (Some itr, Some itr)
      else find_probed s ps (Some itr))"

definition gpio_handler_handle_probe_connect :: "env \<Rightarrow> pid \<Rightarrow> sys \<Rightarrow> sys result" where
  "gpio_handler_handle_probe_connect e p s =
     (if (\<exists>itr\<in>set (port_list s). is_gpio s itr) \<and> probe_state (heap s p) = PROBE_DOWN_2
      then Inr s
      else if probe_state (heap s p) = PROBE_UP then
        and_then (usb_monitor_lists_del_timeout p s) (\<lambda>s.
          gpio_probe_next e p (port_upd p (\<lambda>pt. pt\<lparr>probe_state := PROBE_DONE\<rparr>) s))
      else
        let (itr, g_port) = find_probed s (port_list s) None
        in case g_port of
             None \<Rightarrow> Inr s
           | Some g \<Rightarrow>
               (case itr of
                  None \<Rightarrow> Inl Null_Deref
                | Some i \<Rightarrow>
                    and_then (usb_monitor_lists_del_timeout i (gpio_handler_swap_port_info p i s))
                      (\<lambda>s. gpio_probe_next e g
                             (port_upd g (\<lambda>pt. pt\<lparr>probe_state := PROBE_DONE\<rparr>) s))))"

section \<open>Properties of the GPIO handler\<close>

subsection \<open>Switching\<close>

lemma gpio_write_value_shape:
  obtains t where "gpio_write_value e p v s = (fst (gpio_write_value e p v s), s\<lparr>trace := t\<rparr>)"
proof -
  have "\<exists>t. snd (gpio_write_value e p v s) = s\<lparr>trace := t\<rparr>"
    by (auto simp: gpio_write_value_def sys_do_def sys_call_def Let_def)
  then show thesis by (metis prod.collapse that)
qed

text \<open>The bytes that reach the pin: one open, one write of the digit, one close.\<close>

lemma gpio_write_value_ok:
  assumes "0 < fst (gpio_write_value e p v s)"
  shows "\<exists>fd n r. trace (snd (gpio_write_value e p v s)) =
           (Close_Fd fd, r) # (Write_Fd fd (if v \<noteq> 0 then ''1'' else ''0''), n) #
           (Open_File (gpio_file (heap s p)), fd) # trace s \<and> 0 < n"
  using assms
  by (auto simp: gpio_write_value_def sys_do_def sys_call_def Let_def split: if_splits)

text \<open>The restart of an enabled port in its three outcomes.\<close>

lemma gpio_restart_cases:
  assumes tq: "tq s xs" and en: "enabled (heap s p)" and cmd: "cmd \<noteq> CMD_ENABLE" "cmd \<noteq> CMD_DISABLE"
  obtains
    (failed) s1 t where "gpio_update_port e p cmd s = Inr (-1, usb_helpers_start_timeout e p DEFAULT_TIMEOUT_SEC s1)"
      and "s1 = (port_upd p (\<lambda>pt. pt\<lparr>msg_mode := RESET\<rparr>) s)\<lparr>timeout_q := timeout_q s1, trace := t\<rparr>"
      and "tq s1 (remove1 p xs)"
  | (off) s1 t where "gpio_update_port e p cmd s = Inr (0, usb_helpers_start_timeout e p GPIO_TIMEOUT_SLEEP_SEC s1)"
      and "s1 = (port_upd p (\<lambda>pt. pt\<lparr>msg_mode := RESET, pwr_state := False\<rparr>) s)\<lparr>timeout_q := timeout_q s1, trace := t\<rparr>"
      and "tq s1 (remove1 p xs)" and "pwr_state (heap s p)"
  | (on) s1 t where "gpio_update_port e p cmd s = Inr (0, s1)"
      and "s1 = (port_upd p (\<lambda>pt. pt\<lparr>pwr_state := True, msg_mode := IDLE\<rparr>) s)\<lparr>timeout_q := timeout_q s1, trace := t\<rparr>"
      and "tq s1 (remove1 p xs)" and "\<not> pwr_state (heap s p)"
proof -
  let ?s0 = "port_upd p (\<lambda>pt. pt\<lparr>msg_mode := RESET\<rparr>) s"
  have "tq ?s0 xs" using tq by (simp add: tq_def)
  then obtain q where q: "guarded_del_timeout p ?s0 = Inr (?s0\<lparr>timeout_q := q\<rparr>)" "lq_list q (remove1 p xs)"
    by (rule guarded_del_timeout_ok)
  define s1 where "s1 = ?s0\<lparr>timeout_q := q\<rparr>"
  have s1: "heap s1 = heap ?s0" "tq (s1\<lparr>trace := t\<rparr>) (remove1 p xs)" for t
    using q(2) by (simp_all add: s1_def tq_def)
  have run: "gpio_update_port e p cmd s =
      (let gpio_val = (if pwr_state (heap s1 p) then off_val (heap s1 p) else on_val (heap s1 p));
           (n, s) = gpio_write_value e p gpio_val s1
       in if n \<le> 0 then Inr (-1, usb_helpers_start_timeout e p DEFAULT_TIMEOUT_SEC s)
          else
            let s = port_upd p (\<lambda>pt. pt\<lparr>pwr_state := \<not> pwr_state pt\<rparr>) s
            in if pwr_state (heap s p)
               then Inr (0, port_upd p (\<lambda>pt. pt\<lparr>msg_mode := IDLE\<rparr>) s)
               else Inr (0, usb_helpers_start_timeout e p GPIO_TIMEOUT_SLEEP_SEC s))"
    unfolding gpio_update_port_def s1_def using en cmd q(1) by simp
  show thesis
  proof (cases "pwr_state (heap s p)")
    case pwr: True
    obtain n t where w: "gpio_write_value e p (off_val (heap s1 p)) s1 = (n, s1\<lparr>trace := t\<rparr>)"
      by (rule gpio_write_value_shape)
    show thesis
    proof (cases "n \<le> 0")
      case True
      show thesis
        by (rule failed [of "s1\<lparr>trace := t\<rparr>" t]) (use run w pwr True s1 in \<open>simp_all add: s1_def\<close>)
    next
      case False
      show thesis
        by (rule off [of "port_upd p (\<lambda>pt. pt\<lparr>pwr_state := \<not> pwr_state pt\<rparr>) (s1\<lparr>trace := t\<rparr>)" t])
          (use run w pwr False s1 in \<open>simp_all add: s1_def port_upd_def tq_def\<close>)
    qed
  next
    case pwr: False
    obtain n t where w: "gpio_write_value e p (on_val (heap s1 p)) s1 = (n, s1\<lparr>trace := t\<rparr>)"
      by (rule gpio_write_value_shape)
    show thesis
    proof (cases "n \<le> 0")
      case True
      show thesis
        by (rule failed [of "s1\<lparr>trace := t\<rparr>" t]) (use run w pwr True s1 in \<open>simp_all add: s1_def\<close>)
    next
      case False
      show thesis
        by (rule on [of "port_upd p (\<lambda>pt. pt\<lparr>msg_mode := IDLE\<rparr>)
              (port_upd p (\<lambda>pt. pt\<lparr>pwr_state := \<not> pwr_state pt\<rparr>) (s1\<lparr>trace := t\<rparr>))" t])
          (use run w pwr False s1 in \<open>simp_all add: s1_def port_upd_def tq_def\<close>)
    qed
  qed
qed

lemma gpio_enable_cases:
  obtains (failed) t where "gpio_update_port e p CMD_ENABLE s = Inr (-1, s\<lparr>trace := t\<rparr>)"
  | (written) t where "gpio_update_port e p CMD_ENABLE s =
      Inr (0, port_upd p (\<lambda>pt. pt\<lparr>enabled := True, pwr_state := True\<rparr>) (s\<lparr>trace := t\<rparr>))"
proof -
  obtain n t where w: "gpio_write_value e p (on_val (heap s p)) s = (n, s\<lparr>trace := t\<rparr>)"
    by (rule gpio_write_value_shape)
  show thesis
  proof (cases "n \<le> 0")
    case True
    show thesis by (rule failed [of t]) (use w True in \<open>simp add: gpio_update_port_def\<close>)
  next
    case False
    show thesis by (rule written [of t]) (use w False in \<open>simp add: gpio_update_port_def\<close>)
  qed
qed

lemma gpio_disable_cases:
  obtains (failed) t where "gpio_update_port e p CMD_DISABLE s = Inr (-1, s\<lparr>trace := t\<rparr>)"
  | (written) t where "gpio_update_port e p CMD_DISABLE s =
      Inr (0, port_upd p (\<lambda>pt. pt\<lparr>enabled := False, pwr_state := False, msg_mode := IDLE\<rparr>)
                (s\<lparr>trace := t\<rparr>))"
proof -
  obtain n t where w: "gpio_write_value e p (off_val (heap s p)) s = (n, s\<lparr>trace := t\<rparr>)"
    by (rule gpio_write_value_shape)
  show thesis
  proof (cases "n \<le> 0")
    case True
    show thesis by (rule failed [of t]) (use w True in \<open>simp add: gpio_update_port_def\<close>)
  next
    case False
    show thesis by (rule written [of t]) (use w False in \<open>simp add: gpio_update_port_def\<close>)
  qed
qed

lemma gpio_update_local:
  assumes "tq s xs"
  shows "succeeds (gpio_update_port e p cmd s)
           (\<lambda>(r, s'). only_port p s s' \<and> (\<exists>ys. tq s' ys \<and> local_tq p xs ys))"
proof -
  consider "cmd = CMD_ENABLE" | "cmd = CMD_DISABLE" | "cmd \<noteq> CMD_ENABLE" "cmd \<noteq> CMD_DISABLE" "\<not> enabled (heap s p)"
    | "cmd \<noteq> CMD_ENABLE" "cmd \<noteq> CMD_DISABLE" "enabled (heap s p)" by blast
  then show ?thesis
  proof cases
    case 1
    then show ?thesis
      by (cases rule: gpio_enable_cases [of e p s])
        (use assms in \<open>auto simp: only_port_def tq_def local_tq_def port_upd_def\<close>)
  next
    case 2
    then show ?thesis
      by (cases rule: gpio_disable_cases [of e p s])
        (use assms in \<open>auto simp: only_port_def tq_def local_tq_def port_upd_def\<close>)
  next
    case 3
    then show ?thesis using assms by (auto simp: gpio_update_port_def local_tq_def)
  next
    case 4
    have p: "p \<notin> set (remove1 p xs)" using tq_distinct [OF assms] by simp
    from assms 4(3,1,2) show ?thesis
    proof (cases rule: gpio_restart_cases [where e = e])
      case (failed s1 t)
      have "only_port p s s1" by (subst failed(2)) (simp add: only_port_def port_upd_def)
      with failed(1) start_timeout_tq [OF failed(3) p] show ?thesis
        by (auto simp: local_tq_def intro: only_port_trans)
    next
      case (off s1 t)
      have "only_port p s s1" by (subst off(2)) (simp add: only_port_def port_upd_def)
      with off(1) start_timeout_tq [OF off(3) p] show ?thesis
        by (auto simp: local_tq_def intro: only_port_trans)
    next
      case (on s1 t)
      have "only_port p s s1" by (subst on(2)) (simp add: only_port_def port_upd_def)
      with on show ?thesis by (auto simp: local_tq_def)
    qed
  qed
qed

lemma gpio_timeout_local:
  assumes "tq s xs" "p \<notin> set xs" "msg_mode (heap s p) \<noteq> PROBE"
  shows "succeeds (gpio_handle_timeout e p s) (port_local p s xs)"
proof -
  obtain r s' where "gpio_update_port e p CMD_RESTART s = Inr (r, s')" "port_local p s xs s'"
    using gpio_update_local [OF assms(1), of e p CMD_RESTART]
    by (auto simp: port_local_def elim!: succeeds_pairE)
  then show ?thesis
    using assms by (cases "msg_mode (heap s p)") (simp_all add: gpio_handle_timeout_def send_ping_local)
qed

interpretation gpio: port_handler gpio_update_port gpio_handle_timeout "\<lambda>_. True"
  using gpio_update_local gpio_timeout_local by unfold_locales (simp_all add: port_local_def)

subsection \<open>Never off for good\<close>

text \<open>
  An enabled GPIO port that is switched off is being restarted and waits for its timeout.
\<close>

definition gpio_on_or_waiting :: "sys \<Rightarrow> pid \<Rightarrow> pid list \<Rightarrow> bool" where
  "gpio_on_or_waiting s p xs \<longleftrightarrow>
     (enabled (heap s p) \<and> \<not> pwr_state (heap s p) \<longrightarrow> p \<in> set xs \<and> msg_mode (heap s p) = RESET)"

lemma gpio_update_waiting:
  assumes tq: "tq s xs" and inv: "gpio_on_or_waiting s p xs \<or> msg_mode (heap s p) = RESET \<and> cmd = CMD_RESTART"
  shows "succeeds (gpio_update_port e p cmd s)
           (\<lambda>(r, s'). \<exists>ys. tq s' ys \<and> gpio_on_or_waiting s' p ys)"
proof -
  consider "cmd = CMD_ENABLE" | "cmd = CMD_DISABLE" | "cmd \<noteq> CMD_ENABLE" "cmd \<noteq> CMD_DISABLE" "\<not> enabled (heap s p)"
    | "cmd \<noteq> CMD_ENABLE" "cmd \<noteq> CMD_DISABLE" "enabled (heap s p)" by blast
  then show ?thesis
  proof cases
    case 1
    then show ?thesis
      by (cases rule: gpio_enable_cases [of e p s])
        (use assms in \<open>auto simp: gpio_on_or_waiting_def intro!: exI [of _ xs]\<close>)
  next
    case 2
    then show ?thesis
      by (cases rule: gpio_disable_cases [of e p s])
        (use assms in \<open>auto simp: gpio_on_or_waiting_def intro!: exI [of _ xs]\<close>)
  next
    case 3
    then show ?thesis using assms by (auto simp: gpio_update_port_def gpio_on_or_waiting_def intro!: exI [of _ xs])
  next
    case 4
    have p: "p \<notin> set (remove1 p xs)" using tq_distinct [OF tq] by simp
    from tq 4(3,1,2) show ?thesis
    proof (cases rule: gpio_restart_cases [where e = e])
      case (failed s1 t)
      have "msg_mode (heap s1 p) = RESET" by (subst failed(2)) simp
      with failed(1) start_timeout_tq [OF failed(3) p] show ?thesis
        by (force simp: gpio_on_or_waiting_def)
    next
      case (off s1 t)
      have "msg_mode (heap s1 p) = RESET" by (subst off(2)) simp
      with off(1) start_timeout_tq [OF off(3) p] show ?thesis
        by (force simp: gpio_on_or_waiting_def)
    next
      case (on s1 t)
      have "pwr_state (heap s1 p)" by (subst on(2)) simp
      with on(1,3) show ?thesis by (force simp: gpio_on_or_waiting_def)
    qed
  qed
qed

subsection \<open>A complete restart\<close>

text \<open>The environment lets the pin be written.\<close>

definition pin_writable :: "env \<Rightarrow> string \<Rightarrow> bool" where
  "pin_writable e f \<longleftrightarrow>
     (\<forall>tr. answer e tr (Open_File f) \<noteq> -1 \<and> (\<forall>fd txt. 0 < answer e tr (Write_Fd fd txt)))"

lemma gpio_write_value_works:
  assumes "pin_writable e (gpio_file (heap s p))"
  shows "0 < fst (gpio_write_value e p v s)"
  using assms by (simp add: gpio_write_value_def sys_call_eq pin_writable_def Let_def)

text \<open>The digits written, in order.\<close>

fun writes :: "trace \<Rightarrow> string list" where
  "writes [] = []"
| "writes ((Write_Fd fd txt, r) # tr) = writes tr @ [txt]"
| "writes ((c, r) # tr) = writes tr"

definition digit_of :: "u8 \<Rightarrow> string" where
  "digit_of v = (if v \<noteq> 0 then ''1'' else ''0'')"

lemma gpio_write_value_run:
  assumes "pin_writable e (gpio_file (heap s p))"
  obtains n t where "gpio_write_value e p v s = (n, s\<lparr>trace := t\<rparr>)" and "0 < n"
    and "writes t = writes (trace s) @ [digit_of v]"
proof -
  obtain t where t: "gpio_write_value e p v s = (fst (gpio_write_value e p v s), s\<lparr>trace := t\<rparr>)"
    by (rule gpio_write_value_shape)
  then have "snd (gpio_write_value e p v s) = s\<lparr>trace := t\<rparr>" by (metis snd_conv)
  then have "trace (snd (gpio_write_value e p v s)) = t" by simp
  with gpio_write_value_ok [OF gpio_write_value_works [OF assms], of v]
  have "writes t = writes (trace s) @ [digit_of v]" by (auto simp: digit_of_def)
  with t gpio_write_value_works [OF assms] show thesis by (rule that)
qed

lemma gpio_restart_off:
  assumes tq: "tq s xs" and en: "enabled (heap s p)" "pwr_state (heap s p)"
    and ok: "pin_writable e (gpio_file (heap s p))"
  obtains s' ex where "gpio_update_port e p CMD_RESTART s = Inr (0, s')" and "tq s' (p # remove1 p xs)"
    and "heap s' = (heap s)(p := (heap s p)\<lparr>msg_mode := RESET, pwr_state := False, timeout_expire := ex\<rparr>)"
    and "writes (trace s') = writes (trace s) @ [digit_of (off_val (heap s p))]"
proof -
  let ?s0 = "port_upd p (\<lambda>pt. pt\<lparr>msg_mode := RESET\<rparr>) s"
  obtain s1 where s1: "guarded_del_timeout p ?s0 = Inr s1" "tq s1 (remove1 p xs)"
    "s1 = ?s0\<lparr>timeout_q := timeout_q s1\<rparr>"
    using guarded_del_local [of ?s0 xs p] tq by auto
  have h: "heap s1 = heap ?s0" "trace s1 = trace s" by (subst s1(3), simp add: port_upd_def)+
  have f: "gpio_file (heap s1 p) = gpio_file (heap s p)" by (simp add: h gpio_file_def split: option.split)
  obtain n t where w: "gpio_write_value e p (off_val (heap s1 p)) s1 = (n, s1\<lparr>trace := t\<rparr>)" "0 < n"
      "writes t = writes (trace s1) @ [digit_of (off_val (heap s1 p))]"
    using gpio_write_value_run [of e s1 p] ok f by metis
  have p: "p \<notin> set (remove1 p xs)" using tq_distinct [OF tq] by simp
  define s2 where "s2 = port_upd p (\<lambda>pt. pt\<lparr>pwr_state := False\<rparr>) (s1\<lparr>trace := t\<rparr>)"
  have run: "gpio_update_port e p CMD_RESTART s = Inr (0, usb_helpers_start_timeout e p GPIO_TIMEOUT_SLEEP_SEC s2)"
    unfolding gpio_update_port_def s2_def using en s1(1) w by (simp add: h port_upd_def)
  show thesis
    by (rule that [OF run]) (use w p s1(2) in \<open>auto simp: s2_def h port_upd_def start_timeout_tq\<close>)
qed

lemma gpio_restart_on:
  assumes tq: "tq s xs" and en: "enabled (heap s p)" "\<not> pwr_state (heap s p)"
    and ok: "pin_writable e (gpio_file (heap s p))"
  obtains s' where "gpio_update_port e p CMD_RESTART s = Inr (0, s')" and "tq s' (remove1 p xs)"
    and "heap s' = (heap s)(p := (heap s p)\<lparr>msg_mode := IDLE, pwr_state := True\<rparr>)"
    and "writes (trace s') = writes (trace s) @ [digit_of (on_val (heap s p))]"
proof -
  let ?s0 = "port_upd p (\<lambda>pt. pt\<lparr>msg_mode := RESET\<rparr>) s"
  obtain s1 where s1: "guarded_del_timeout p ?s0 = Inr s1" "tq s1 (remove1 p xs)"
    "s1 = ?s0\<lparr>timeout_q := timeout_q s1\<rparr>"
    using guarded_del_local [of ?s0 xs p] tq by auto
  have h: "heap s1 = heap ?s0" "trace s1 = trace s" by (subst s1(3), simp add: port_upd_def)+
  have f: "gpio_file (heap s1 p) = gpio_file (heap s p)" by (simp add: h gpio_file_def split: option.split)
  obtain n t where w: "gpio_write_value e p (on_val (heap s1 p)) s1 = (n, s1\<lparr>trace := t\<rparr>)" "0 < n"
      "writes t = writes (trace s1) @ [digit_of (on_val (heap s1 p))]"
    using gpio_write_value_run [of e s1 p] ok f by metis
  define s2 where "s2 = port_upd p (\<lambda>pt. pt\<lparr>msg_mode := IDLE\<rparr>) (port_upd p (\<lambda>pt. pt\<lparr>pwr_state := True\<rparr>) (s1\<lparr>trace := t\<rparr>))"
  have run: "gpio_update_port e p CMD_RESTART s = Inr (0, s2)"
    unfolding gpio_update_port_def s2_def using en s1(1) w by (simp add: h port_upd_def)
  show thesis
    by (rule that [OF run]) (use w s1(2) in \<open>auto simp: s2_def h port_upd_def\<close>)
qed

lemma gpio_enable_run:
  assumes "pin_writable e (gpio_file (heap s p))"
  obtains t where "gpio_update_port e p CMD_ENABLE s =
      Inr (0, port_upd p (\<lambda>pt. pt\<lparr>enabled := True, pwr_state := True\<rparr>) (s\<lparr>trace := t\<rparr>))"
proof -
  obtain n t where "gpio_write_value e p (on_val (heap s p)) s = (n, s\<lparr>trace := t\<rparr>)" "0 < n"
    by (rule gpio_write_value_run [OF assms])
  then show thesis by (intro that) (simp add: gpio_update_port_def)
qed

lemma gpio_disable_run:
  assumes "pin_writable e (gpio_file (heap s p))"
  obtains t where "gpio_update_port e p CMD_DISABLE s =
      Inr (0, port_upd p (\<lambda>pt. pt\<lparr>enabled := False, pwr_state := False, msg_mode := IDLE\<rparr>) (s\<lparr>trace := t\<rparr>))"
proof -
  obtain n t where "gpio_write_value e p (off_val (heap s p)) s = (n, s\<lparr>trace := t\<rparr>)" "0 < n"
    by (rule gpio_write_value_run [OF assms])
  then show thesis by (intro that) (simp add: gpio_update_port_def)
qed

text \<open>Both halves: the restart, and the timeout handler once the port has left the list again.\<close>

lemma gpio_cycle:
  assumes tq: "tq s xs" and en: "enabled (heap s p)" "pwr_state (heap s p)"
    and ok: "pin_writable e (gpio_file (heap s p))"
  shows "\<exists>s1 s2 s3. gpio_update_port e p CMD_RESTART s = Inr (0, s1) \<and> tq s1 (p # remove1 p xs) \<and>
           \<not> pwr_state (heap s1 p) \<and> usb_monitor_lists_del_timeout p s1 = Inr s2 \<and>
           gpio_handle_timeout e p s2 = Inr s3 \<and> tq s3 (remove1 p xs) \<and>
           pwr_state (heap s3 p) \<and> enabled (heap s3 p) \<and> msg_mode (heap s3 p) = IDLE \<and>
           writes (trace s3) = writes (trace s) @ [digit_of (off_val (heap s p)), digit_of (on_val (heap s p))]"
proof -
  obtain s1 ex where s1: "gpio_update_port e p CMD_RESTART s = Inr (0, s1)" "tq s1 (p # remove1 p xs)"
      "heap s1 = (heap s)(p := (heap s p)\<lparr>msg_mode := RESET, pwr_state := False, timeout_expire := ex\<rparr>)"
      "writes (trace s1) = writes (trace s) @ [digit_of (off_val (heap s p))]"
    using gpio_restart_off [OF assms] by metis
  obtain q where q: "usb_monitor_lists_del_timeout p s1 = Inr (s1\<lparr>timeout_q := q\<rparr>)" "lq_list q (remove1 p xs)"
    using del_timeout_member [OF s1(2), of p] by auto
  define s2 where "s2 = s1\<lparr>timeout_q := q\<rparr>"
  have h2: "heap s2 p = (heap s p)\<lparr>msg_mode := RESET, pwr_state := False, timeout_expire := ex\<rparr>"
    by (simp add: s2_def s1(3))
  have s2: "tq s2 (remove1 p xs)" "enabled (heap s2 p)" "\<not> pwr_state (heap s2 p)" "trace s2 = trace s1"
    "msg_mode (heap s2 p) = RESET" "on_val (heap s2 p) = on_val (heap s p)"
    "gpio_file (heap s2 p) = gpio_file (heap s p)"
    using q(2) en h2 by (simp_all add: s2_def tq_def gpio_file_def h2 split: option.split)
  obtain s3 where s3: "gpio_update_port e p CMD_RESTART s2 = Inr (0, s3)" "tq s3 (remove1 p (remove1 p xs))"
      "heap s3 = (heap s2)(p := (heap s2 p)\<lparr>msg_mode := IDLE, pwr_state := True\<rparr>)"
      "writes (trace s3) = writes (trace s2) @ [digit_of (on_val (heap s2 p))]"
    using gpio_restart_on [OF s2(1,2,3)] ok s2(7) by metis
  have "remove1 p (remove1 p xs) = remove1 p xs" using tq_distinct [OF tq] by (simp add: remove1_idem)
  moreover have "gpio_handle_timeout e p s2 = Inr s3"
    using s3(1) s2(5) by (simp add: gpio_handle_timeout_def)
  moreover have "\<not> pwr_state (heap s1 p)" by (simp add: s1(3))
  moreover have "pwr_state (heap s3 p)" "enabled (heap s3 p)" "msg_mode (heap s3 p) = IDLE"
    using s2(2) by (simp_all add: s3(3))
  moreover have "writes (trace s3) = writes (trace s) @ [digit_of (off_val (heap s p)), digit_of (on_val (heap s p))]"
    using s1(4) s3(4) s2(4,6) by simp
  ultimately show ?thesis using s1(1,2) q(1) s3(2) by (metis s2_def)
qed

subsection \<open>Swapping the paths of two ports\<close>

lemma port_paths_count: "path_count ps = length (port_paths ps)"
  by (induction ps rule: port_paths.induct) (simp_all add: path_count_def)

lemma port_paths_take: "take (path_count ps) ps = map Some (port_paths ps)"
  by (induction ps rule: port_paths.induct) (simp_all add: path_count_def)

lemma port_paths_map: "port_paths (map Some xs @ ys) = xs @ port_paths ys"
  by (induction xs) simp_all

text \<open>Where the first NULL ends an array, all that follows is NULL too.\<close>

definition null_tail :: "u8 list option list \<Rightarrow> bool" where
  "null_tail ps \<longleftrightarrow> (\<forall>c\<in>set (drop (path_count ps) ps). c = None)"

lemma port_paths_nulls: "\<forall>c\<in>set ys. c = None \<Longrightarrow> port_paths ys = []"
  by (cases ys) auto

lemma path_count_le: "path_count ps \<le> length ps"
  by (simp add: path_count_def length_takeWhile_le)

lemma overwrite_nulls:
  assumes "null_tail arr"
  shows "port_paths (overwrite (map Some xs) (overwrite (replicate (path_count arr) None) arr)) = xs"
proof -
  have "\<forall>c\<in>set (overwrite (replicate (path_count arr) None) arr). c = None"
    using assms by (auto simp: overwrite_def null_tail_def)
  then have "\<forall>c\<in>set (drop (length xs) (overwrite (replicate (path_count arr) None) arr)). c = None"
    by (meson in_set_dropD)
  then show ?thesis
    by (simp add: overwrite_def [of "map Some xs"] port_paths_map port_paths_nulls)
qed

lemma swap_paths:
  assumes "m \<noteq> p" and "null_tail (path (heap s m))" and "null_tail (path (heap s p))"
  shows "port_paths (path (heap (gpio_handler_swap_port_info m p s) m)) = port_paths (path (heap s p))"
    and "port_paths (path (heap (gpio_handler_swap_port_info m p s) p)) = port_paths (path (heap s m))"
    and "dev (heap (gpio_handler_swap_port_info m p s) p) = dev (heap s m)"
    and "dev (heap (gpio_handler_swap_port_info m p s) m) = None"
    and "q \<noteq> m \<Longrightarrow> q \<noteq> p \<Longrightarrow> heap (gpio_handler_swap_port_info m p s) q = heap s q"
  using assms
  by (simp_all add: gpio_handler_swap_port_info_def Let_def port_paths_take overwrite_nulls)

end
