(* ===== verification/Ykush_Handler.thy ===== *)
theory Ykush_Handler
  imports Port_Contract
begin

section \<open>The YKUSH hub (ykush_handler.c)\<close>

text \<open>
  A YKUSH hub switches its three ports by commands to a HID device that sits on the hub
  itself. Commands are asynchronous transfers, so the effect on the port's state is in the
  callbacks. Adding a hub is in theory \<open>Monitor_Callbacks\<close>, because it walks the devices.
\<close>

abbreviation YKUSH_VID :: u16 where "YKUSH_VID \<equiv> 0x04d8"
abbreviation YKUSH_PID :: u16 where "YKUSH_PID \<equiv> 0x0042"
abbreviation YKUSH_PID2 :: u16 where "YKUSH_PID2 \<equiv> 0xF2F7"
abbreviation MAX_YKUSH_PORTS :: u8 where "MAX_YKUSH_PORTS \<equiv> 3"

subsection \<open>The callbacks of the transfers\<close>

text \<open>\<open>completed\<close>: the status of the transfer is \<open>LIBUSB_TRANSFER_COMPLETED\<close>.\<close>

definition ykush_enable_cb :: "pid \<Rightarrow> bool \<Rightarrow> sys \<Rightarrow> sys" where
  "ykush_enable_cb p completed s =
     (if \<not> completed then s
      else port_upd p (\<lambda>pt. pt\<lparr>enabled := True, pwr_state := True\<rparr>) s)"

definition ykush_disable_cb :: "pid \<Rightarrow> bool \<Rightarrow> sys \<Rightarrow> sys" where
  "ykush_disable_cb p completed s =
     (if \<not> completed then s
      else port_upd p (\<lambda>pt. pt\<lparr>enabled := False, msg_mode := IDLE, pwr_state := False\<rparr>) s)"

definition ykush_reset_cb :: "env \<Rightarrow> pid \<Rightarrow> bool \<Rightarrow> sys \<Rightarrow> sys" where
  "ykush_reset_cb e p completed s =
     (if \<not> enabled (heap s p) then s
      else if \<not> completed then port_upd p (\<lambda>pt. pt\<lparr>msg_mode := IDLE\<rparr>) s
      else
        let s = port_upd p (\<lambda>pt. pt\<lparr>pwr_state := \<not> pwr_state pt\<rparr>) s
        in if pwr_state (heap s p) then port_upd p (\<lambda>pt. pt\<lparr>msg_mode := IDLE\<rparr>) s
           else usb_helpers_start_timeout e p DEFAULT_TIMEOUT_SEC s)"

subsection \<open>Commands\<close>

definition ykush_perform_transfer ::
  "env \<Rightarrow> pid \<Rightarrow> hid option \<Rightarrow> u8 \<Rightarrow> ykush_cb \<Rightarrow> sys \<Rightarrow> (int \<times> sys) result" where
  "ykush_perform_transfer e p yhub port_cmd fn s =
     (let s = port_upd p (\<lambda>pt. pt\<lparr>buf := (buf pt)[0 := port_cmd, 1 := port_cmd]\<rparr>) s;
          (tr, s) = sys_call e Usb_Alloc_Transfer s
      in if tr = 0 then Inr (-1, s)
         else case yhub of
           None \<Rightarrow> Inl Null_Deref
         | Some h \<Rightarrow>
             let (retval, s) =
                   sys_call e
                     (Usb_Submit (Ykush_Transfer p (comm_handle (hubs s h)) (buf (heap s p)) fn)) s
             in Inr (retval, if retval \<noteq> 0 then sys_do e Usb_Free_Transfer s else s))"

definition ykush_port_cmd :: "u8 \<Rightarrow> u8 option" where
  "ykush_port_cmd n =
     (if n = 1 then Some 0x01 else if n = 2 then Some 0x02 else if n = 3 then Some 0x03
      else None)"

definition ykush_update_port :: "env \<Rightarrow> pid \<Rightarrow> u8 \<Rightarrow> sys \<Rightarrow> (int \<times> sys) result" where
  "ykush_update_port e p cmd s =
     (let yhub = parent (heap s p)
      in case ykush_port_cmd (port_num (heap s p)) of
           None \<Rightarrow> Inr (-1, s)
         | Some port_cmd \<Rightarrow>
             if cmd = CMD_ENABLE then
               and_then (ykush_perform_transfer e p yhub (or port_cmd 0x10) Ykush_Enable_Cb s)
                 (\<lambda>(r, s). Inr (if r \<noteq> 0 then -1 else 0, s))
             else if cmd = CMD_DISABLE then
               and_then (ykush_perform_transfer e p yhub port_cmd Ykush_Disable_Cb s)
                 (\<lambda>(r, s). Inr (if r \<noteq> 0 then -1 else 0, s))
             else if \<not> enabled (heap s p) then Inr (0, s)
             else
               and_then (guarded_del_timeout p (port_upd p (\<lambda>pt. pt\<lparr>msg_mode := RESET\<rparr>) s))
                 (\<lambda>s.
                   let port_cmd = (if \<not> pwr_state (heap s p) then or port_cmd 0x10 else port_cmd)
                   in and_then (ykush_perform_transfer e p yhub port_cmd Ykush_Reset_Cb s)
                        (\<lambda>(r, s).
                          Inr (0, if r \<noteq> 0
                                  then usb_helpers_start_timeout e p DEFAULT_TIMEOUT_SEC s
                                  else s))))"

definition ykush_handle_timeout :: "env \<Rightarrow> pid \<Rightarrow> sys \<Rightarrow> sys result" where
  "ykush_handle_timeout e p s =
     (if msg_mode (heap s p) = PING then Inr (usb_helpers_send_ping e p s)
      else and_then (ykush_update_port e p CMD_RESTART s) (\<lambda>(_, s). Inr s))"

subsection \<open>Hubs\<close>

text \<open>
  The loop that configures the ports: port \<open>i + 1\<close> has the path of the HID device with the
  last number replaced. It stops at the first failure; the result is the last return value.
\<close>

fun ykush_configure_ports ::
  "env \<Rightarrow> hid \<Rightarrow> u8 list \<Rightarrow> nat \<Rightarrow> nat \<Rightarrow> sys \<Rightarrow> u8 \<times> sys" where
  "ykush_configure_ports e h comm_path 0 i s = (0, s)"
| "ykush_configure_ports e h comm_path (Suc n) i s =
     (let num_port_numbers = length comm_path - 1;
          p = hub_ports (hubs s h) ! i;
          comm_path = comm_path[num_port_numbers := of_nat i + 1];
          s = port_upd p (\<lambda>_. zero_port\<lparr>port_type := PORT_TYPE_YKUSH\<rparr>) s;
          (retval, s) =
            usb_helpers_configure_port e p comm_path (of_nat num_port_numbers + 1) (of_nat i + 1)
              (Some h) s
      in if retval \<noteq> 0 then (retval, s) else ykush_configure_ports e h comm_path n (Suc i) s)"

text \<open>
  The three calls that prepare the HID device after it is open; the handle is closed when
  one of them fails. \<open>LIBUSB_ERROR_NOT_FOUND\<close> is -5.
\<close>

definition ykush_claim :: "env \<Rightarrow> handle \<Rightarrow> sys \<Rightarrow> bool \<times> sys" where
  "ykush_claim e ch s =
     (let (retval, s) = sys_call e (Usb_Detach_Driver (Some ch)) s
      in if retval \<noteq> 0 \<and> retval \<noteq> -5 then (False, sys_do e (Usb_Close ch) s)
         else let (retval, s) = sys_call e (Usb_Set_Configuration (Some ch)) s
         in if retval \<noteq> 0 then (False, sys_do e (Usb_Close ch) s)
         else let (retval, s) = sys_call e (Usb_Claim_Interface (Some ch)) s
         in if retval \<noteq> 0 then (False, sys_do e (Usb_Close ch) s)
         else (True, s))"

text \<open>The number of ports the hub reports less one, or 0 on failure.\<close>

definition ykush_configure_hub :: "env \<Rightarrow> hid \<Rightarrow> sys \<Rightarrow> u8 \<times> sys" where
  "ykush_configure_hub e h s =
     (let (n, s) = usb_helpers_get_num_ports e (hub_dev (hubs s h)) 0x200 s
      in if n = 0 then (0, s)
         else
           let n = n - 1;
               ((retval, ch), s) = usb_open e (comm_dev (hubs s h)) s
           in case ch of
                None \<Rightarrow> (0, s)
              | Some ch \<Rightarrow>
                  let s = hub_upd h (\<lambda>hb. hb\<lparr>comm_handle := Some ch\<rparr>) s;
                      (ok, s) = ykush_claim e ch s
                  in if \<not> ok then (0, s)
                     else
                       let s = hub_upd h (\<lambda>hb. hb\<lparr>num_ports := MAX_YKUSH_PORTS\<rparr>) s;
                           d = the (comm_dev (hubs s h));
                           (retval, s) =
                             ykush_configure_ports e h (bus_number e d # port_numbers e d) 3 0 s
                       in (if retval = 0 then n else 0, s))"

fun ykush_release_ports :: "env \<Rightarrow> pid list \<Rightarrow> sys \<Rightarrow> sys result" where
  "ykush_release_ports e [] s = Inr s"
| "ykush_release_ports e (p # ps) s =
     and_then (usb_monitor_lists_del_port e p (usb_helpers_release_port e p s))
       (ykush_release_ports e ps)"

definition ykush_release_memory :: "env \<Rightarrow> hid \<Rightarrow> sys \<Rightarrow> sys result" where
  "ykush_release_memory e h s =
     (let s = (case comm_handle (hubs s h) of
                 None \<Rightarrow> s
               | Some ch \<Rightarrow> sys_do e (Usb_Close ch) (sys_do e (Usb_Release_Interface (Some ch)) s));
          s = sys_do e (Usb_Unref (hub_dev (hubs s h))) s;
          s = sys_do e (Usb_Unref (comm_dev (hubs s h))) s
      in and_then
           (ykush_release_ports e
              (take (unat (num_ports (hubs s h))) (hub_ports (hubs s h))) s)
           (\<lambda>s. Inr (sys_do e Free_Mem (usb_monitor_lists_del_hub h s))))"

definition ykush_del_device :: "env \<Rightarrow> dev \<Rightarrow> sys \<Rightarrow> sys result" where
  "ykush_del_device e device s =
     (case usb_monitor_lists_find_hub s (parent_dev e device) of
        None \<Rightarrow> Inr s
      | Some h \<Rightarrow> ykush_release_memory e h s)"

text \<open>The part of \<open>ykush_add_device\<close> that allocates the hub with its three ports.\<close>

definition ykush_alloc_hub :: "env \<Rightarrow> dev \<Rightarrow> sys \<Rightarrow> hid option \<times> sys" where
  "ykush_alloc_hub e device s =
     (let (r, s) = sys_call e Calloc s
      in if r = 0 then (None, s)
         else
           let h = next_hid s;
               p = next_pid s;
               s = s\<lparr>next_hid := Suc h, next_pid := p + 3,
                     hubs := (hubs s)(h := zero_hub\<lparr>hub_ports := [p, p + 1, p + 2]\<rparr>),
                     heap := (heap s)(p := zero_port, p + 1 := zero_port, p + 2 := zero_port)\<rparr>;
               s = sys_do e (Usb_Ref (Some device)) s;
               s = sys_do e (Usb_Ref (parent_dev e device)) s;
               s = hub_upd h (\<lambda>hb. hb\<lparr>hub_dev := parent_dev e device,
                                      comm_dev := Some device\<rparr>) s
           in (Some h, s))"

lemma ykush_transfer_local:
  assumes "only_port p s s'" and "tq s' xs"
  shows "succeeds (ykush_perform_transfer e p (Some h) c f s') (\<lambda>(r, s''). only_port p s s'' \<and> tq s'' xs)"
  using assms by (simp add: ykush_perform_transfer_def sys_call_eq Let_def)

lemma ykush_update_local:
  assumes par: "parent (heap s p) \<noteq> None" and tq: "tq s xs"
  shows "succeeds (ykush_update_port e p cmd s) (\<lambda>(r, s'). port_local p s xs s')"
proof -
  obtain h where h: "parent (heap s p) = Some h" using par by auto
  obtain s1 where s1: "guarded_del_timeout p (port_upd p (\<lambda>pt. pt\<lparr>msg_mode := RESET\<rparr>) s) = Inr s1"
    "tq s1 (remove1 p xs)" "s1 = (port_upd p (\<lambda>pt. pt\<lparr>msg_mode := RESET\<rparr>) s)\<lparr>timeout_q := timeout_q s1\<rparr>"
    using guarded_del_local [of "port_upd p (\<lambda>pt. pt\<lparr>msg_mode := RESET\<rparr>) s" xs p] tq by auto
  have o1: "only_port p s s1" by (subst s1(3)) simp
  have p: "p \<notin> set (remove1 p xs)" using tq_distinct [OF tq] by simp
  have restart: "succeeds (ykush_perform_transfer e p (Some h) c f s1) (\<lambda>(r, s'').
      (r \<noteq> 0 \<longrightarrow> port_local p s xs (usb_helpers_start_timeout e p t s'')) \<and>
      (r = 0 \<longrightarrow> port_local p s xs s''))" for c f t
  proof -
    have "port_local p s xs (usb_helpers_start_timeout e p t s'')" "port_local p s xs s''"
      if "only_port p s s''" "tq s'' (remove1 p xs)" for s''
      using that start_timeout_tq [OF that(2) p]
      by (auto simp: port_local_def local_tq_def)
    then show ?thesis using ykush_transfer_local [OF o1 s1(2), of e h c f] by (auto elim!: succeeds_pairE)
  qed
  have direct: "succeeds (ykush_perform_transfer e p (Some h) c f s) (\<lambda>(r, s''). port_local p s xs s'')" for c f
    using ykush_transfer_local [of p s s xs e h c f] tq by (auto elim!: succeeds_pairE intro: port_local_same')
  show ?thesis
    using direct restart tq by (auto simp: ykush_update_port_def h s1(1) Let_def split: option.split)
qed

lemma ykush_timeout_local:
  assumes "parent (heap s p) \<noteq> None" "tq s xs" "p \<notin> set xs"
  shows "succeeds (ykush_handle_timeout e p s) (port_local p s xs)"
  using assms ykush_update_local [OF assms(1,2), of e CMD_RESTART]
  by (auto simp: ykush_handle_timeout_def send_ping_local elim!: succeeds_pairE)

interpretation ykush: port_handler ykush_update_port ykush_handle_timeout "\<lambda>pt. parent pt \<noteq> None"
  using ykush_update_local ykush_timeout_local
  by unfold_locales (simp_all add: only_port_parent)

end
