(* ===== verification/Generic_Handler.thy ===== *)
theory Generic_Handler
  imports Port_Contract
begin

section \<open>Hubs with per-port power switching (generic_handler.c)\<close>

text \<open>
  Ports of hubs that advertise per-port power switching, commanded by control messages to
  the hub. \<open>usb_monitor_cb\<close> does not call this handler at the commit under verification; it
  is modelled as it stands.
\<close>

abbreviation USB_REQ_CLEAR_FEATURE :: u8 where "USB_REQ_CLEAR_FEATURE \<equiv> 0x01"
abbreviation USB_REQ_SET_FEATURE :: u8 where "USB_REQ_SET_FEATURE \<equiv> 0x03"
abbreviation USB_PATH_MAX :: nat where "USB_PATH_MAX \<equiv> 8"

definition generic_update_cb :: "env \<Rightarrow> pid \<Rightarrow> bool \<Rightarrow> sys \<Rightarrow> sys" where
  "generic_update_cb e p completed s =
     (if \<not> completed then port_upd p (\<lambda>pt. pt\<lparr>msg_mode := IDLE\<rparr>) s
      else
        let s = port_upd p (\<lambda>pt. pt\<lparr>pwr_state := \<not> pwr_state pt\<rparr>) s
        in if pwr_state (heap s p) then port_upd p (\<lambda>pt. pt\<lparr>msg_mode := IDLE\<rparr>) s
           else usb_helpers_start_timeout e p DEFAULT_TIMEOUT_SEC s)"

definition generic_update_port :: "env \<Rightarrow> pid \<Rightarrow> u8 \<Rightarrow> sys \<Rightarrow> (int \<times> sys) result" where
  "generic_update_port e p cmd s =
     (let ghub = parent (heap s p)
      in and_then (guarded_del_timeout p (port_upd p (\<lambda>pt. pt\<lparr>msg_mode := RESET\<rparr>) s)) (\<lambda>s.
           let (tr, s) = sys_call e Usb_Alloc_Transfer s
           in if tr = 0 then Inr (0, usb_helpers_start_timeout e p DEFAULT_TIMEOUT_SEC s)
              else
                let request = (if pwr_state (heap s p) then USB_REQ_CLEAR_FEATURE
                               else USB_REQ_SET_FEATURE)
                in case ghub of
                     None \<Rightarrow> Inl Null_Deref
                   | Some h \<Rightarrow>
                       let (retval, s) =
                             sys_call e
                               (Usb_Submit (Generic_Transfer p (hub_handle (hubs s h)) request
                                  (port_num (heap s p)))) s
                       in Inr (0, if retval \<noteq> 0 then ping_submit_failed e p s else s)))"

definition generic_timeout_port :: "env \<Rightarrow> pid \<Rightarrow> sys \<Rightarrow> sys result" where
  "generic_timeout_port e p s =
     (if msg_mode (heap s p) = PING then Inr (usb_helpers_send_ping e p s)
      else and_then (generic_update_port e p CMD_RESTART s) (\<lambda>(_, s). Inr s))"

subsection \<open>Hubs\<close>

text \<open>
  Port \<open>i + 1\<close> of the hub has the hub's path and the number appended, which is a write past
  the array for a hub at depth seven. The result of \<open>usb_helpers_configure_port\<close> is ignored.
\<close>

fun generic_configure_ports ::
  "env \<Rightarrow> hid \<Rightarrow> u8 list \<Rightarrow> nat \<Rightarrow> nat \<Rightarrow> sys \<Rightarrow> sys result" where
  "generic_configure_ports e h hub_path 0 i s = Inr s"
| "generic_configure_ports e h hub_path (Suc n) i s =
     (if USB_PATH_MAX \<le> length hub_path then Inl Out_Of_Bounds
      else
        let p = hub_ports (hubs s h) ! i;
            s = port_upd p (\<lambda>_. zero_port) s;
            (_, s) =
              usb_helpers_configure_port e p (hub_path @ [of_nat i + 1])
                (of_nat (length hub_path) + 1) (of_nat i + 1) (Some h) s
        in generic_configure_ports e h hub_path n (Suc i) s)"

definition generic_configure_hub :: "env \<Rightarrow> hid \<Rightarrow> sys \<Rightarrow> sys result" where
  "generic_configure_hub e h s =
     (let d = the (hub_dev (hubs s h))
      in generic_configure_ports e h (bus_number e d # port_numbers e d)
           (unat (num_ports (hubs s h))) 0 s)"

text \<open>
  \<open>generic_add_device\<close> up to the insertion of the hub: \<open>None\<close> when the device is no hub to
  add. The number of ports is stored before the result of \<open>malloc\<close> is tested.
\<close>

definition generic_prepare_hub :: "env \<Rightarrow> dev \<Rightarrow> sys \<Rightarrow> (hid option \<times> sys) result" where
  "generic_prepare_hub e device s =
     (if usb_monitor_lists_find_hub s (Some device) \<noteq> None then Inr (None, s)
      else
        let (sw, s) = usb_helpers_get_power_switch e (Some device) (bcd_usb e device) s
        in if sw \<noteq> 1 then Inr (None, s)
           else
             let (n, s) = usb_helpers_get_num_ports e (Some device) (bcd_usb e device) s
             in if n = 0 then Inr (None, s)
                else
                  let (r, s) = sys_call e Calloc s
                  in if r = 0 then Inl Null_Deref
                     else
                       let h = next_hid s;
                           ps = [next_pid s ..< next_pid s + unat n];
                           s = s\<lparr>next_hid := Suc h, next_pid := next_pid s + unat n,
                                 hubs := (hubs s)(h := zero_hub\<lparr>num_ports := n,
                                                                hub_ports := ps\<rparr>)\<rparr>;
                           ((retval, hh), s) = usb_open e (Some device) s
                       in if retval \<noteq> 0 then Inr (None, sys_do e Free_Mem s)
                          else
                            let s = sys_do e (Usb_Ref (Some device)) s;
                                s = hub_upd h (\<lambda>hb. hb\<lparr>hub_handle := hh,
                                                       hub_dev := Some device\<rparr>) s
                            in and_then (generic_configure_hub e h s) (\<lambda>s. Inr (Some h, s)))"

fun generic_del_ports :: "env \<Rightarrow> pid list \<Rightarrow> sys \<Rightarrow> sys result" where
  "generic_del_ports e [] s = Inr s"
| "generic_del_ports e (p # ps) s =
     and_then (usb_monitor_lists_del_port e p (usb_helpers_release_port e p s))
       (generic_del_ports e ps)"

definition generic_del_device :: "env \<Rightarrow> dev \<Rightarrow> sys \<Rightarrow> sys result" where
  "generic_del_device e device s =
     (case usb_monitor_lists_find_hub s (Some device) of
        None \<Rightarrow> Inr s
      | Some h \<Rightarrow>
          let s = (case hub_handle (hubs s h) of None \<Rightarrow> s | Some hh \<Rightarrow> sys_do e (Usb_Close hh) s);
              s = sys_do e (Usb_Unref (hub_dev (hubs s h))) s
          in and_then
               (generic_del_ports e
                  (take (unat (num_ports (hubs s h))) (hub_ports (hubs s h))) s)
               (\<lambda>s. Inr (sys_do e Free_Mem (usb_monitor_lists_del_hub h s))))"

lemma generic_update_local:
  assumes par: "parent (heap s p) \<noteq> None" and tq: "tq s xs"
  shows "succeeds (generic_update_port e p cmd s) (\<lambda>(r, s'). port_local p s xs s')"
proof -
  obtain h where h: "parent (heap s p) = Some h" using par by auto
  obtain s1 where s1: "guarded_del_timeout p (port_upd p (\<lambda>pt. pt\<lparr>msg_mode := RESET\<rparr>) s) = Inr s1"
    "tq s1 (remove1 p xs)" "s1 = (port_upd p (\<lambda>pt. pt\<lparr>msg_mode := RESET\<rparr>) s)\<lparr>timeout_q := timeout_q s1\<rparr>"
    using guarded_del_local [of "port_upd p (\<lambda>pt. pt\<lparr>msg_mode := RESET\<rparr>) s" xs p] tq by auto
  have o1: "only_port p s s1" by (subst s1(3)) simp
  have p: "p \<notin> set (remove1 p xs)" using tq_distinct [OF tq] by simp
  have same: "port_local p s xs s''" if "only_port p s s''" "tq s'' (remove1 p xs)" for s''
    using that by (auto simp: port_local_def local_tq_def)
  have start: "port_local p s xs (usb_helpers_start_timeout e p t s'')"
    if "only_port p s s''" "tq s'' (remove1 p xs)" for s'' t
    using that start_timeout_tq [OF that(2) p] by (auto simp: port_local_def local_tq_def)
  have failed: "port_local p s xs (ping_submit_failed e p s'')"
    if "only_port p s s''" "tq s'' (remove1 p xs)" for s''
    unfolding ping_submit_failed_def Let_def using that
    by (auto intro!: start split: option.split)
  show ?thesis
    using o1 s1(2) by (auto simp: generic_update_port_def h s1(1) Let_def sys_call_eq intro: same start failed)
qed

lemma generic_timeout_local:
  assumes "parent (heap s p) \<noteq> None" "tq s xs" "p \<notin> set xs"
  shows "succeeds (generic_timeout_port e p s) (port_local p s xs)"
  using assms generic_update_local [OF assms(1,2), of e CMD_RESTART]
  by (auto simp: generic_timeout_port_def send_ping_local elim!: succeeds_pairE)

interpretation generic: port_handler generic_update_port generic_timeout_port "\<lambda>pt. parent pt \<noteq> None"
  using generic_update_local generic_timeout_local
  by unfold_locales (simp_all add: only_port_parent)

end
