(* ===== verification/Event_Loop.thy ===== *)
theory Event_Loop
  imports Usb_Helpers
begin

section \<open>The event loop (backend_event_loop.c)\<close>

text \<open>
  The timers are kept in a list sorted by the time they expire, chained by the \<open>LIST\<close> macros.
  A run of the timers executes the callbacks of the expired ones and puts the periodic ones
  back. The callbacks are a parameter here; theory \<open>Monitor_Callbacks\<close> supplies them.
\<close>

subsection \<open>Handles\<close>

text \<open>
  \<open>backend_event_loop_update\<close> with the operations the sources use; the return value is that
  of \<open>epoll_ctl\<close>.
\<close>

definition backend_event_loop_update :: "env \<Rightarrow> call \<Rightarrow> sys \<Rightarrow> int \<times> sys" where
  "backend_event_loop_update e op s = sys_call e op s"

text \<open>
  \<open>backend_create_epoll_handle\<close> returns nothing but the success: it writes to the new handle
  after the test for NULL, so a failed allocation is no result.
\<close>

definition backend_create_epoll_handle :: "env \<Rightarrow> sys \<Rightarrow> sys result" where
  "backend_create_epoll_handle e s =
     (let (r, s) = sys_call e Calloc s in if r = 0 then Inl Null_Deref else Inr s)"

subsection \<open>The list of timers\<close>

text \<open>
  The walk of \<open>backend_insert_timeout\<close>: the last timer that does not expire later than the
  new one. \<open>prev_itr\<close> is the timer seen before \<open>itr\<close>.
\<close>

fun insert_walk ::
  "(tid \<Rightarrow> timer) \<Rightarrow> tid lq \<Rightarrow> u64 \<Rightarrow> nat \<Rightarrow> tid option \<Rightarrow> tid option \<Rightarrow> tid option result" where
  "insert_walk tm q c n None prev_itr = Inr prev_itr"
| "insert_walk tm q c 0 (Some i) prev_itr = Inl No_Fuel"
| "insert_walk tm q c (Suc n) (Some i) prev_itr =
     (if c < timeout_clock (tm i) then Inr prev_itr
      else insert_walk tm q c n (le_next q i) (Some i))"

text \<open>
  No more timers can be on the list than were ever created, so \<open>next_tid\<close> is fuel enough.
\<close>

definition backend_insert_timeout :: "tid \<Rightarrow> sys \<Rightarrow> sys result" where
  "backend_insert_timeout t s =
     (let c = timeout_clock (timers s t);
          first = lh_first (timer_q s)
      in case first of
           None \<Rightarrow> Inr (s\<lparr>timer_q := list_insert_head t (timer_q s)\<rparr>)
         | Some i \<Rightarrow>
             if c < timeout_clock (timers s i)
             then Inr (s\<lparr>timer_q := list_insert_head t (timer_q s)\<rparr>)
             else
               and_then (insert_walk (timers s) (timer_q s) c (next_tid s) first None)
                 (\<lambda>prev_itr. case prev_itr of
                    None \<Rightarrow> Inl Null_Deref
                  | Some y \<Rightarrow> Inr (s\<lparr>timer_q := list_insert_after y t (timer_q s)\<rparr>)))"

definition backend_delete_timeout :: "tid \<Rightarrow> sys \<Rightarrow> sys result" where
  "backend_delete_timeout t s =
     (if \<not> lq_active (timer_q s) t then Inr s
      else and_then (lq_unlink t (timer_q s)) (\<lambda>q. Inr (s\<lparr>timer_q := q\<rparr>)))"

text \<open>\<open>calloc\<close> clears the links of the new timer. A timer with clock 0 is not started.\<close>

definition backend_event_loop_add_timeout ::
  "env \<Rightarrow> u64 \<Rightarrow> timer_cb \<Rightarrow> u32 \<Rightarrow> bool \<Rightarrow> sys \<Rightarrow> (tid option \<times> sys) result" where
  "backend_event_loop_add_timeout e clk f iv free_after_use s =
     (let (r, s) = sys_call e Calloc s
      in if r = 0 then Inr (None, s)
         else
           let t = next_tid s;
               q = (timer_q s)\<lparr>le_next := (le_next (timer_q s))(t := None),
                               le_prev := (le_prev (timer_q s))(t := None)\<rparr>;
               s = s\<lparr>next_tid := Suc t, timer_q := q,
                     timers := (timers s)(t := \<lparr>timeout_clock = clk, cb = f, intvl = iv,
                                               auto_free = free_after_use\<rparr>)\<rparr>
           in if clk \<noteq> 0 then and_then (backend_insert_timeout t s) (\<lambda>s. Inr (Some t, s))
              else Inr (Some t, s))"

text \<open>The clock of the event loop is in milliseconds.\<close>

definition clock_ms :: "env \<Rightarrow> sys \<Rightarrow> u64 \<times> sys" where
  "clock_ms e s = (let (tp, s) = clock_gettime e s in (tp div 1000, s))"

text \<open>After a callback: rearm the timer or free it.\<close>

definition rearm_timer :: "env \<Rightarrow> u64 \<Rightarrow> tid \<Rightarrow> sys \<Rightarrow> sys result" where
  "rearm_timer e cur_time t s =
     (if intvl (timers s t) \<noteq> 0
      then backend_insert_timeout t
             (s\<lparr>timers := (timers s)(t := (timers s t)\<lparr>timeout_clock :=
                                              cur_time + ucast (intvl (timers s t))\<rparr>)\<rparr>)
      else if auto_free (timers s t) then Inr (sys_do e Free_Mem s)
      else Inr s)"

text \<open>The pointer to the next timer is read before the current one leaves the list.\<close>

fun run_timers_loop ::
  "env \<Rightarrow> (timer_cb \<Rightarrow> sys \<Rightarrow> sys result) \<Rightarrow> u64 \<Rightarrow> nat \<Rightarrow> tid option \<Rightarrow> sys \<Rightarrow> sys result" where
  "run_timers_loop e run cur_time n None s = Inr s"
| "run_timers_loop e run cur_time 0 (Some t) s = Inl No_Fuel"
| "run_timers_loop e run cur_time (Suc n) (Some t) s =
     (if timeout_clock (timers s t) \<le> cur_time then
        let nxt = le_next (timer_q s) t
        in and_then (backend_delete_timeout t s) (\<lambda>s.
             and_then (run (cb (timers s t)) s) (\<lambda>s.
               and_then (rearm_timer e cur_time t s) (\<lambda>s.
                 run_timers_loop e run cur_time n nxt s)))
      else Inr s)"

definition backend_event_loop_run_timers ::
  "env \<Rightarrow> (timer_cb \<Rightarrow> sys \<Rightarrow> sys result) \<Rightarrow> nat \<Rightarrow> sys \<Rightarrow> sys result" where
  "backend_event_loop_run_timers e run n s =
     (let timeout = lh_first (timer_q s);
          (cur_time, s) = clock_ms e s
      in run_timers_loop e run cur_time n timeout s)"

subsection \<open>The loop\<close>

text \<open>
  The time \<open>epoll_wait\<close> may sleep. The difference of the two clocks is stored in an \<open>int\<close>.
\<close>

definition sleep_time :: "sys \<Rightarrow> u64 \<Rightarrow> int" where
  "sleep_time s cur_time =
     (case lh_first (timer_q s) of
        None \<Rightarrow> -1
      | Some t \<Rightarrow>
          if timeout_clock (timers s t) < cur_time then 0
          else sint (ucast (timeout_clock (timers s t) - cur_time) :: u32))"

text \<open>
  One turn of \<open>backend_event_loop_run\<close>. The handle of libusb is called once, after the
  others; then the callback for the end of a turn. \<open>handle\<close> and \<open>itr\<close> are these callbacks.
\<close>

fun run_handles ::
  "(epoll_handle \<Rightarrow> u32 \<Rightarrow> sys \<Rightarrow> sys result) \<Rightarrow> (epoll_handle \<times> u32) list \<Rightarrow> sys \<Rightarrow> sys result" where
  "run_handles handle [] s = Inr s"
| "run_handles handle ((h, ev) # evs) s =
     (if h = Libusb_Handle then run_handles handle evs s
      else and_then (handle h ev s) (run_handles handle evs))"

definition event_loop_turn ::
  "env \<Rightarrow> (timer_cb \<Rightarrow> sys \<Rightarrow> sys result) \<Rightarrow> (epoll_handle \<Rightarrow> u32 \<Rightarrow> sys \<Rightarrow> sys result) \<Rightarrow>
   (sys \<Rightarrow> sys result) \<Rightarrow> nat \<Rightarrow> sys \<Rightarrow> sys result" where
  "event_loop_turn e run handle itr n s =
     (let timeout = lh_first (timer_q s);
          (cur_time, s) = clock_ms e s;
          evs = epoll_events e (trace s);
          s = sys_do e (Epoll_Wait (sleep_time s cur_time)) s
      in case evs of
           None \<Rightarrow> Inr s
         | Some evs \<Rightarrow>
             and_then (if timeout \<noteq> None then backend_event_loop_run_timers e run n s else Inr s)
               (\<lambda>s. and_then (run_handles handle evs s) (\<lambda>s.
                 and_then (if Libusb_Handle \<in> fst ` set evs then handle Libusb_Handle 0 s
                           else Inr s)
                   (\<lambda>s. if itr_cb s then itr s else Inr s))))"

text \<open>\<open>backend_event_loop_run\<close> never returns; its first \<open>k\<close> turns.\<close>

fun backend_event_loop_run ::
  "env \<Rightarrow> (timer_cb \<Rightarrow> sys \<Rightarrow> sys result) \<Rightarrow> (epoll_handle \<Rightarrow> u32 \<Rightarrow> sys \<Rightarrow> sys result) \<Rightarrow>
   (sys \<Rightarrow> sys result) \<Rightarrow> nat \<Rightarrow> nat \<Rightarrow> sys \<Rightarrow> sys result" where
  "backend_event_loop_run e run handle itr n 0 s = Inr s"
| "backend_event_loop_run e run handle itr n (Suc k) s =
     and_then (event_loop_turn e run handle itr n s)
       (backend_event_loop_run e run handle itr n k)"

section \<open>Properties of the event loop\<close>

subsection \<open>The sorted list of timers\<close>

abbreviation expires :: "sys \<Rightarrow> tid \<Rightarrow> u64" where
  "expires s t \<equiv> timeout_clock (timers s t)"

text \<open>\<open>tmq s xs\<close>: the links of the timers represent \<open>xs\<close>, all created, sorted by their time.\<close>

definition tmq :: "sys \<Rightarrow> tid list \<Rightarrow> bool" where
  "tmq s xs \<longleftrightarrow> lq_list (timer_q s) xs \<and> set xs \<subseteq> {..<next_tid s} \<and> sorted (map (expires s) xs)"

definition timers_upto :: "sys \<Rightarrow> u64 \<Rightarrow> tid list \<Rightarrow> tid list" where
  "timers_upto s c xs = takeWhile (\<lambda>i. expires s i \<le> c) xs"

definition timers_after :: "sys \<Rightarrow> u64 \<Rightarrow> tid list \<Rightarrow> tid list" where
  "timers_after s c xs = dropWhile (\<lambda>i. expires s i \<le> c) xs"

lemma upto_after [simp]: "timers_upto s c xs @ timers_after s c xs = xs"
  by (simp add: timers_upto_def timers_after_def)

lemma filter_insert_timer:
  "\<not> P t \<Longrightarrow> filter P (timers_upto s c xs @ t # timers_after s c xs) = filter P xs"
  by (metis filter.simps(2) filter_append upto_after)

lemma tmq_first: "tmq s xs \<Longrightarrow> lh_first (timer_q s) = (case xs of [] \<Rightarrow> None | x # _ \<Rightarrow> Some x)"
  by (simp add: tmq_def lq_first)

lemma tmq_distinct: "tmq s xs \<Longrightarrow> distinct xs"
  by (simp add: tmq_def lq_list_def)

lemma tmq_unique: "tmq s xs \<Longrightarrow> tmq s ys \<Longrightarrow> xs = ys"
  by (auto simp: tmq_def intro: lq_list_unique)

lemma tmq_length: "tmq s xs \<Longrightarrow> length xs \<le> next_tid s"
  by (metis card_lessThan card_mono distinct_card finite_lessThan tmq_def tmq_distinct)

lemma insert_walk_list:
  assumes "lq_list q (ys @ zs)" and "length zs \<le> n"
  shows "insert_walk tm q c n (case zs of [] \<Rightarrow> None | z # _ \<Rightarrow> Some z) prev_itr =
           (let w = takeWhile (\<lambda>i. timeout_clock (tm i) \<le> c) zs
            in Inr (if w = [] then prev_itr else Some (last w)))"
  using assms
proof (induction zs arbitrary: ys n prev_itr)
  case (Cons z zs)
  obtain m where n: "n = Suc m" using Cons.prems(2) by (cases n) auto
  have "le_next q z = (case zs of [] \<Rightarrow> None | z # _ \<Rightarrow> Some z)"
    using Cons.prems(1) by (rule lq_next)
  with n Cons.prems Cons.IH [of "ys @ [z]" m "Some z"] show ?case
    by (auto simp: Let_def not_le)
qed simp

lemma insert_timeout_list:
  assumes s: "lq_list (timer_q s) xs" "length xs \<le> next_tid s" and t: "t \<notin> set xs"
  obtains q where "backend_insert_timeout t s = Inr (s\<lparr>timer_q := q\<rparr>)"
    and "lq_list q (timers_upto s (expires s t) xs @ t # timers_after s (expires s t) xs)"
proof (cases "timers_upto s (expires s t) xs = []")
  case True
  then have "xs = [] \<or> expires s t < expires s (hd xs)"
    by (cases xs) (auto simp: timers_upto_def not_le split: if_splits)
  then have "backend_insert_timeout t s = Inr (s\<lparr>timer_q := list_insert_head t (timer_q s)\<rparr>)"
    using lq_first [OF s(1)] by (cases xs) (simp_all add: backend_insert_timeout_def)
  moreover have "timers_after s (expires s t) xs = xs"
    using upto_after [of s "expires s t" xs] True by simp
  ultimately show thesis using that list_insert_head_list [OF s(1) t] True by simp
next
  case False
  define w where "w = timers_upto s (expires s t) xs"
  obtain x xs' where xs: "xs = x # xs'" using False by (cases xs) (auto simp: timers_upto_def)
  have "\<not> expires s t < expires s x" using False xs by (auto simp: timers_upto_def split: if_splits)
  moreover have "insert_walk (timers s) (timer_q s) (expires s t) (next_tid s) (Some x) None = Inr (Some (last w))"
    using insert_walk_list [of "timer_q s" "[]" xs "next_tid s" "timers s" "expires s t" None] s xs False
    by (simp add: w_def timers_upto_def Let_def)
  ultimately have run: "backend_insert_timeout t s = Inr (s\<lparr>timer_q := list_insert_after (last w) t (timer_q s)\<rparr>)"
    using lq_first [OF s(1)] xs by (simp add: backend_insert_timeout_def)
  have split: "xs = butlast w @ last w # timers_after s (expires s t) xs"
    using upto_after [of s "expires s t" xs] False
    by (metis append.assoc append_Cons append_Nil append_butlast_last_id w_def)
  have "lq_list (list_insert_after (last w) t (timer_q s))
          (butlast w @ last w # t # timers_after s (expires s t) xs)"
    by (rule list_insert_after_list) (use s t split in metis)+
  with run show thesis using that False
    by (metis append.assoc append_Cons append_Nil append_butlast_last_id w_def)
qed

lemma sorted_insert_timer:
  assumes "sorted (map f xs)"
  shows "sorted (map f (takeWhile (\<lambda>i. f i \<le> f t) xs @ t # dropWhile (\<lambda>i. f i \<le> (f t :: 'a :: linorder)) xs))"
  using assms
proof (induction xs)
  case (Cons x xs)
  then show ?case
    by (auto simp: not_le dest: set_takeWhileD set_dropWhileD)
qed simp

text \<open>Inserting a timer keeps the list sorted; it goes behind those that expire at the same time.\<close>

lemma insert_timeout_tmq:
  assumes s: "tmq s xs" and t: "t \<notin> set xs" "t < next_tid s"
  obtains q where "backend_insert_timeout t s = Inr (s\<lparr>timer_q := q\<rparr>)"
    and "tmq (s\<lparr>timer_q := q\<rparr>) (timers_upto s (expires s t) xs @ t # timers_after s (expires s t) xs)"
proof -
  let ?ys = "timers_upto s (expires s t) xs @ t # timers_after s (expires s t) xs"
  obtain q where q: "backend_insert_timeout t s = Inr (s\<lparr>timer_q := q\<rparr>)" "lq_list q ?ys"
    using insert_timeout_list [of s xs t] s t tmq_length [OF s] by (auto simp: tmq_def)
  have "set ?ys = insert t (set xs)"
    by (metis Un_insert_right append_Cons list.simps(15) set_append upto_after)
  moreover have "sorted (map (expires s) ?ys)"
    unfolding timers_upto_def timers_after_def by (rule sorted_insert_timer) (use s in \<open>simp add: tmq_def\<close>)
  ultimately have "tmq (s\<lparr>timer_q := q\<rparr>) ?ys" using q(2) s t by (simp add: tmq_def)
  with q(1) show thesis by (rule that)
qed

lemma delete_timeout_tmq:
  assumes "tmq s xs"
  obtains q where "backend_delete_timeout t s = Inr (s\<lparr>timer_q := q\<rparr>)"
    and "tmq (s\<lparr>timer_q := q\<rparr>) (remove1 t xs)"
proof (cases "t \<in> set xs")
  case True
  have l: "lq_list (timer_q s) xs" using assms by (simp add: tmq_def)
  from l True obtain q where q: "lq_unlink t (timer_q s) = Inr q" "lq_list q (remove1 t xs)"
    by (rule lq_unlink_member)
  have "tmq (s\<lparr>timer_q := q\<rparr>) (remove1 t xs)"
    using assms q(2) by (auto simp: tmq_def sorted_map_remove1 dest: notin_set_remove1 in_set_remove1 [THEN iffD1, rotated] set_mp [OF set_remove1_subset])
  with q(1) l True show thesis
    by (intro that) (simp_all add: backend_delete_timeout_def lq_active_iff)
next
  case False
  have "backend_delete_timeout t s = Inr (s\<lparr>timer_q := timer_q s\<rparr>)"
    using assms False lq_active_iff [of "timer_q s" xs t] by (simp add: backend_delete_timeout_def tmq_def)
  with assms False show thesis by (intro that [of "timer_q s"]) (simp_all add: remove1_idem)
qed


subsection \<open>Running the timers\<close>

text \<open>The run as a fold over a list of timers, without pointers.\<close>

fun fire_timers ::
  "env \<Rightarrow> (timer_cb \<Rightarrow> sys \<Rightarrow> sys result) \<Rightarrow> u64 \<Rightarrow> tid list \<Rightarrow> sys \<Rightarrow> sys result" where
  "fire_timers e run cur [] s = Inr s"
| "fire_timers e run cur (t # ts) s =
     and_then (backend_delete_timeout t s) (\<lambda>s.
       and_then (run (cb (timers s t)) s) (\<lambda>s.
         and_then (rearm_timer e cur t s) (fire_timers e run cur ts)))"

text \<open>
  What a callback may do to the timers: insert one-shot timers that expire later, and
  nothing else.
\<close>

definition timers_kept :: "u64 \<Rightarrow> sys \<Rightarrow> tid list \<Rightarrow> sys \<Rightarrow> tid list \<Rightarrow> bool" where
  "timers_kept cur s xs s' ys \<longleftrightarrow>
     tmq s' ys \<and> filter (\<lambda>i. i \<in> set xs) ys = xs \<and> (\<forall>i\<in>set xs. timers s' i = timers s i) \<and>
     (\<forall>i\<in>set ys. i \<notin> set xs \<longrightarrow> cur < expires s' i \<and> intvl (timers s' i) = 0) \<and>
     (\<forall>i. intvl (timers s' i) = intvl (timers s i)) \<and> next_tid s \<le> next_tid s'"

lemma timers_kept_same:
  "tmq s xs \<Longrightarrow> timers s' = timers s \<Longrightarrow> timer_q s' = timer_q s \<Longrightarrow> next_tid s' = next_tid s \<Longrightarrow>
   timers_kept cur s xs s' xs"
  by (simp add: timers_kept_def tmq_def)

lemma timers_upto_filter:
  assumes "sorted (map (expires s) xs)"
  shows "timers_upto s c xs = filter (\<lambda>i. expires s i \<le> c) xs"
  using assms by (induction xs) (force simp: timers_upto_def filter_empty_conv not_le eq_commute [of "[]"])+

lemma timers_after_filter:
  assumes "sorted (map (expires s) xs)"
  shows "timers_after s c xs = filter (\<lambda>i. c < expires s i) xs"
  using assms unfolding timers_after_def
  by (induction xs) (force simp: not_le intro: filter_True [symmetric])+

lemma timers_kept_upto:
  assumes "tmq s xs" and "timers_kept cur s xs s' ys"
  shows "timers_upto s' cur ys = timers_upto s cur xs"
proof -
  have "timers_upto s' cur ys = filter (\<lambda>i. expires s' i \<le> cur) ys"
    using assms(2) by (intro timers_upto_filter) (simp add: timers_kept_def tmq_def)
  also have "\<dots> = filter (\<lambda>i. expires s' i \<le> cur) (filter (\<lambda>i. i \<in> set xs) ys)"
    unfolding filter_filter using assms(2) by (intro filter_cong) (auto simp: timers_kept_def)
  also have "\<dots> = filter (\<lambda>i. expires s i \<le> cur) xs"
    using assms(2) by (auto simp: timers_kept_def intro: filter_cong)
  also have "\<dots> = timers_upto s cur xs"
    using assms(1) by (simp add: timers_upto_filter tmq_def)
  finally show ?thesis .
qed

text \<open>Rearming a periodic timer puts it behind the expired ones.\<close>

lemma rearm_tmq:
  assumes s: "tmq s ys" and t: "t \<notin> set ys \<or> intvl (timers s t) = 0" "t < next_tid s"
    and cur: "unat cur < 2 ^ 63"
  obtains s' zs where "rearm_timer e cur t s = Inr s'" and "tmq s' zs"
    and "timers_upto s' cur zs = timers_upto s cur ys"
    and "\<And>i. i \<noteq> t \<Longrightarrow> timers s' i = timers s i" and "next_tid s' = next_tid s"
    and "set ys \<subseteq> set zs" and "intvl (timers s t) \<noteq> 0 \<Longrightarrow> t \<in> set zs \<and> cur < expires s' t"
    and "\<And>i. intvl (timers s' i) = intvl (timers s i)" and "\<And>i. cb (timers s' i) = cb (timers s i)"
    and "s' = s\<lparr>timers := timers s', timer_q := timer_q s', trace := trace s'\<rparr>"
    and "trace s' = trace s \<or> (\<exists>c r. trace s' = (c, r) # trace s)"
proof (cases "intvl (timers s t) = 0")
  case True
  show thesis
  proof (cases "auto_free (timers s t)")
    case af: True
    have "rearm_timer e cur t s = Inr (sys_do e Free_Mem s)"
      using True af by (simp add: rearm_timer_def)
    then show thesis
      by (rule that [of _ ys]) (use True s in \<open>auto simp: tmq_def timers_upto_def sys_do_def sys_call_def Let_def\<close>)
  next
    case af: False
    have "rearm_timer e cur t s = Inr s"
      using True af by (simp add: rearm_timer_def)
    then show thesis
      by (rule that [of s ys]) (use True s in \<open>auto\<close>)
  qed
next
  case False
  let ?m = "(timers s)(t := (timers s t)\<lparr>timeout_clock := cur + ucast (intvl (timers s t))\<rparr>)"
  let ?s = "s\<lparr>timers := ?m\<rparr>"
  have tys: "t \<notin> set ys" using t False by simp
  have m: "map (expires ?s) ys = map (expires s) ys" using tys by (intro map_cong) auto
  have s': "tmq ?s ys" unfolding tmq_def m using s by (simp add: tmq_def)
  obtain q where q: "backend_insert_timeout t ?s = Inr (?s\<lparr>timer_q := q\<rparr>)"
    "tmq (?s\<lparr>timer_q := q\<rparr>) (timers_upto ?s (expires ?s t) ys @ t # timers_after ?s (expires ?s t) ys)"
    (is "tmq ?s' ?zs") using insert_timeout_tmq [OF s' tys] t(2) by auto
  have u32: "unat (intvl (timers s t)) < 2 ^ 32" using unsigned_less [of "intvl (timers s t)"] by simp
  then have "unat (ucast (intvl (timers s t)) :: u64) = unat (intvl (timers s t))"
    by (simp add: unsigned_ucast_eq take_bit_nat_eq_self)
  moreover note u32
  moreover have "intvl (timers s t) \<noteq> 0" by fact
  ultimately have lt: "cur < cur + ucast (intvl (timers s t))"
    using cur by (simp add: word_less_nat_alt unat_word_ariths unat_gt_0)
  have zs: "set ?zs = insert t (set ys)"
    by (metis Un_insert_right list.simps(15) set_append upto_after)
  have up: "timers_upto ?s' cur ?zs = timers_upto s cur ys"
  proof -
    have "timers_upto ?s' cur ?zs = filter (\<lambda>i. expires ?s' i \<le> cur) ?zs"
      using q(2) by (intro timers_upto_filter) (simp add: tmq_def)
    also have "\<dots> = filter (\<lambda>i. expires ?s' i \<le> cur) ys"
      using lt by (intro filter_insert_timer) (simp add: not_le)
    also have "\<dots> = filter (\<lambda>i. expires s i \<le> cur) ys"
      using tys by (intro filter_cong) auto
    finally show ?thesis using s by (simp add: timers_upto_filter tmq_def)
  qed
  have "rearm_timer e cur t s = Inr ?s'" using False q(1) by (simp add: rearm_timer_def)
  then show thesis
    by (rule that [of _ ?zs])
      (use False zs up q(2) lt in \<open>auto\<close>)
qed


lemma timers_upto_ConsD: "timers_upto s c xs = x # ys \<Longrightarrow> \<exists>xs'. xs = x # xs'"
  by (cases xs) (auto simp: timers_upto_def split: if_splits)

text \<open>
  The contract between the event loop and the callbacks of the timers. \<open>inv\<close> is what the
  callbacks need of the state; the event loop's own steps do not disturb it.
\<close>

locale timer_callbacks =
  fixes run :: "timer_cb \<Rightarrow> sys \<Rightarrow> sys result"
    and inv :: "u64 \<Rightarrow> sys \<Rightarrow> bool"
  assumes run_keeps: "inv cur s \<Longrightarrow> tmq s xs \<Longrightarrow> t < next_tid s \<Longrightarrow> t \<notin> set xs \<Longrightarrow>
      run (cb (timers s t)) s = Inr s' \<Longrightarrow> inv cur s' \<and> (\<exists>ys. timers_kept cur s xs s' ys)"
    and inv_loop: "inv cur s \<Longrightarrow> (\<And>i. intvl (m i) = intvl (timers s i)) \<Longrightarrow>
      (\<And>i. cb (m i) = cb (timers s i)) \<Longrightarrow>
      inv cur (s\<lparr>timers := m, timer_q := q, trace := (c, r) # trace s\<rparr>)"
    and inv_timers: "inv cur s \<Longrightarrow> (\<And>i. intvl (m i) = intvl (timers s i)) \<Longrightarrow>
      (\<And>i. cb (m i) = cb (timers s i)) \<Longrightarrow> inv cur (s\<lparr>timers := m, timer_q := q\<rparr>)"
begin

lemma fire_one:
  assumes s: "inv cur s" "tmq s (t # xs')" and cur: "unat cur < 2 ^ 63"
  obtains q where "backend_delete_timeout t s = Inr (s\<lparr>timer_q := q\<rparr>)"
    and "\<And>s2. run (cb (timers s t)) (s\<lparr>timer_q := q\<rparr>) = Inr s2 \<Longrightarrow>
      \<exists>s3 zs. rearm_timer e cur t s2 = Inr s3 \<and> inv cur s3 \<and> tmq s3 zs \<and>
        timers_upto s3 cur zs = timers_upto s cur xs' \<and> set xs' \<subseteq> set zs \<and>
        (\<forall>i\<in>set xs'. timers s3 i = timers s i) \<and> (\<forall>i. intvl (timers s3 i) = intvl (timers s i)) \<and>
        (intvl (timers s t) \<noteq> 0 \<longrightarrow> t \<in> set zs)"
proof -
  obtain q where q: "backend_delete_timeout t s = Inr (s\<lparr>timer_q := q\<rparr>)" "tmq (s\<lparr>timer_q := q\<rparr>) xs'"
    using delete_timeout_tmq [OF s(2), of t] by auto
  define s1 where "s1 = s\<lparr>timer_q := q\<rparr>"
  have s1: "inv cur s1" "tmq s1 xs'" "timers s1 = timers s" "next_tid s1 = next_tid s"
    using inv_timers [OF s(1), where m = "timers s" and q = q] q(2) by (simp_all add: s1_def)
  have t: "t \<notin> set xs'" "t < next_tid s"
    using s(2) tmq_distinct [OF s(2)] by (auto simp: tmq_def)
  have "\<exists>s3 zs. rearm_timer e cur t s2 = Inr s3 \<and> inv cur s3 \<and> tmq s3 zs \<and>
        timers_upto s3 cur zs = timers_upto s cur xs' \<and> set xs' \<subseteq> set zs \<and>
        (\<forall>i\<in>set xs'. timers s3 i = timers s i) \<and> (\<forall>i. intvl (timers s3 i) = intvl (timers s i)) \<and>
        (intvl (timers s t) \<noteq> 0 \<longrightarrow> t \<in> set zs)"
    if run: "run (cb (timers s1 t)) s1 = Inr s2" for s2
  proof -
    have "t < next_tid s1" using t(2) s1(4) by simp
    from run_keeps [OF s1(1,2) this t(1) run] obtain ys
      where s2: "inv cur s2" and ys: "timers_kept cur s1 xs' s2 ys" by blast
    have up2: "timers_upto s2 cur ys = timers_upto s cur xs'"
      using timers_kept_upto [OF s1(2) ys] s1(3) by (simp add: timers_upto_def)
    have sub: "set xs' \<subseteq> set ys" using ys by (metis filter_is_subset timers_kept_def)
    have s2': "t \<notin> set ys \<or> intvl (timers s2 t) = 0" "t < next_tid s2" "tmq s2 ys"
      using ys t s1(4) by (auto simp: timers_kept_def)
    obtain s3 zs where s3: "rearm_timer e cur t s2 = Inr s3" "tmq s3 zs"
        "timers_upto s3 cur zs = timers_upto s2 cur ys" "set ys \<subseteq> set zs"
        "intvl (timers s2 t) \<noteq> 0 \<Longrightarrow> t \<in> set zs"
      and others: "\<And>i. i \<noteq> t \<Longrightarrow> timers s3 i = timers s2 i" "\<And>i. intvl (timers s3 i) = intvl (timers s2 i)"
      "\<And>i. cb (timers s3 i) = cb (timers s2 i)"
      and upd: "s3 = s2\<lparr>timers := timers s3, timer_q := timer_q s3, trace := trace s3\<rparr>"
      and tr: "trace s3 = trace s2 \<or> (\<exists>c r. trace s3 = (c, r) # trace s2)"
      by (rule rearm_tmq [where e = e, OF s2'(3,1,2) cur]) (rule that; blast)
    have "inv cur s3"
      using tr
    proof
      assume "trace s3 = trace s2"
      then have "s3 = s2\<lparr>timers := timers s3, timer_q := timer_q s3\<rparr>" using upd by simp
      then show ?thesis using inv_timers [OF s2 others(2,3)] by metis
    next
      assume "\<exists>c r. trace s3 = (c, r) # trace s2"
      then show ?thesis using inv_loop [OF s2 others(2,3)] upd by metis
    qed
    moreover have "timers s3 i = timers s i" if "i \<in> set xs'" for i
      using others(1) [of i] that t(1) ys s1(3) by (metis timers_kept_def)
    moreover have "\<And>i. intvl (timers s2 i) = intvl (timers s i)"
      using ys s1(3) by (simp add: timers_kept_def)
    ultimately show ?thesis using s3 up2 sub others(2) by (intro exI [of _ s3] exI [of _ zs]) auto
  qed
  with q(1) show thesis by (intro that) (simp_all add: s1_def)
qed

text \<open>
  The walk over the pointers fires each timer that had expired when it began, once and in
  the order of the list, and stops.
\<close>

lemma run_loop_fires:
  assumes "inv cur s" and "tmq s xs" and cur: "unat cur < 2 ^ 63" and "length (timers_upto s cur xs) < n"
    and "p = (case xs of [] \<Rightarrow> None | x # _ \<Rightarrow> Some x) \<or>
         timers_upto s cur xs = [] \<and> (\<forall>j. p = Some j \<longrightarrow> cur < expires s j)"
  shows "run_timers_loop e run cur n p s = fire_timers e run cur (timers_upto s cur xs) s"
  using assms(1,2,4,5)
proof (induction "timers_upto s cur xs" arbitrary: n p s xs)
  case Nil
  then have "p = None \<or> (\<exists>j. p = Some j \<and> cur < expires s j)"
    by (cases xs) (auto simp: timers_upto_def not_le split: if_splits)
  then have "run_timers_loop e run cur n p s = Inr s"
    using Nil.prems(3) by (cases n) auto
  then show ?case by (simp add: Nil.hyps [symmetric])
next
  case (Cons t E)
  obtain xs' where xs: "xs = t # xs'" and E: "E = timers_upto s cur xs'" and exp: "expires s t \<le> cur"
    using Cons.hyps(2) by (cases xs) (auto simp: timers_upto_def split: if_splits)
  have p: "p = Some t" using Cons.prems(4) Cons.hyps(2) xs by auto
  obtain m where n: "n = Suc m" using Cons.prems(3) by (cases n) auto
  define nxt where "nxt = le_next (timer_q s) t"
  have nxt: "nxt = (case xs' of [] \<Rightarrow> None | x # _ \<Rightarrow> Some x)"
    using Cons.prems(2) lq_next [of "timer_q s" "[]" t xs'] by (simp add: nxt_def tmq_def xs)
  obtain q where q: "backend_delete_timeout t s = Inr (s\<lparr>timer_q := q\<rparr>)"
    and one: "\<And>s2. run (cb (timers s t)) (s\<lparr>timer_q := q\<rparr>) = Inr s2 \<Longrightarrow>
      \<exists>s3 zs. rearm_timer e cur t s2 = Inr s3 \<and> inv cur s3 \<and> tmq s3 zs \<and>
        timers_upto s3 cur zs = timers_upto s cur xs' \<and> set xs' \<subseteq> set zs \<and>
        (\<forall>i\<in>set xs'. timers s3 i = timers s i)"
    by (rule fire_one [where e = e, OF Cons.prems(1) Cons.prems(2) [unfolded xs] cur]) (rule that; blast)
  have rest: "and_then (rearm_timer e cur t s2) (run_timers_loop e run cur m nxt) =
              and_then (rearm_timer e cur t s2) (fire_timers e run cur E)"
    if run: "run (cb (timers s t)) (s\<lparr>timer_q := q\<rparr>) = Inr s2" for s2
  proof -
    from one [OF run] obtain s3 zs where r: "rearm_timer e cur t s2 = Inr s3"
      and s3: "inv cur s3" "tmq s3 zs" and up3: "timers_upto s3 cur zs = E" 
      and tm: "\<forall>i\<in>set xs'. timers s3 i = timers s i" using E by metis
    have "nxt = (case zs of [] \<Rightarrow> None | x # _ \<Rightarrow> Some x) \<or> E = [] \<and> (\<forall>j. nxt = Some j \<longrightarrow> cur < expires s3 j)"
    proof (cases E)
      case (Cons x E')
      then show ?thesis using E up3 nxt by (metis (no_types, lifting) list.case(2) timers_upto_ConsD)
    next
      case Nil
      have "cur < expires s3 j" if "nxt = Some j" for j
      proof -
        have j: "xs' = j # tl xs'" using nxt that by (cases xs') auto
        then have "cur < expires s j" using Nil E by (metis not_le takeWhile.simps(2) timers_upto_def list.distinct(1))
        with tm j show ?thesis by (metis list.set_intros(1))
      qed
      with Nil show ?thesis by blast
    qed
    moreover have "length (timers_upto s3 cur zs) < m"
      using Cons.prems(3) Cons.hyps(2) [symmetric] n up3 by simp
    ultimately show ?thesis using Cons.hyps(1) [of s3 zs m nxt] r up3 s3 by simp
  qed
  have "run_timers_loop e run cur n p s =
      and_then (run (cb (timers s t)) (s\<lparr>timer_q := q\<rparr>))
        (\<lambda>s. and_then (rearm_timer e cur t s) (run_timers_loop e run cur m nxt))"
    using exp q by (simp add: p n nxt_def)
  also have "\<dots> = and_then (run (cb (timers s t)) (s\<lparr>timer_q := q\<rparr>))
        (\<lambda>s. and_then (rearm_timer e cur t s) (fire_timers e run cur E))"
    using rest by (cases "run (cb (timers s t)) (s\<lparr>timer_q := q\<rparr>)") simp_all
  also have "\<dots> = fire_timers e run cur (timers_upto s cur xs) s"
    using q by (simp add: Cons.hyps(2) [symmetric])
  finally show ?case .
qed

text \<open>After the run no timer on the list has expired, and no periodic timer is lost.\<close>

lemma fire_keeps:
  assumes "inv cur s" and "tmq s xs" and cur: "unat cur < 2 ^ 63"
    and "fire_timers e run cur (timers_upto s cur xs) s = Inr s'"
  shows "inv cur s' \<and> (\<exists>zs. tmq s' zs \<and> (\<forall>i\<in>set zs. cur < expires s' i) \<and>
           (\<forall>i\<in>set xs. intvl (timers s i) \<noteq> 0 \<longrightarrow> i \<in> set zs))"
  using assms(1,2,4)
proof (induction "timers_upto s cur xs" arbitrary: s xs)
  case Nil
  have "\<forall>i\<in>set xs. cur < expires s i"
    using Nil.hyps [symmetric] Nil.prems(2) timers_upto_filter [of s xs cur]
    by (auto simp: tmq_def filter_empty_conv not_le eq_commute [of "[]"])
  then show ?case using Nil by auto
next
  case (Cons t E)
  obtain xs' where xs: "xs = t # xs'" and E: "E = timers_upto s cur xs'"
    using Cons.hyps(2) by (cases xs) (auto simp: timers_upto_def split: if_splits)
  obtain q where q: "backend_delete_timeout t s = Inr (s\<lparr>timer_q := q\<rparr>)"
    and one: "\<And>s2. run (cb (timers s t)) (s\<lparr>timer_q := q\<rparr>) = Inr s2 \<Longrightarrow>
      \<exists>s3 zs. rearm_timer e cur t s2 = Inr s3 \<and> inv cur s3 \<and> tmq s3 zs \<and>
        timers_upto s3 cur zs = timers_upto s cur xs' \<and> set xs' \<subseteq> set zs \<and>
        (\<forall>i. intvl (timers s3 i) = intvl (timers s i)) \<and> (intvl (timers s t) \<noteq> 0 \<longrightarrow> t \<in> set zs)"
    by (rule fire_one [where e = e, OF Cons.prems(1) Cons.prems(2) [unfolded xs] cur]) (rule that; blast)
  from Cons.prems(3) Cons.hyps(2) [symmetric] q obtain s2 where run: "run (cb (timers s t)) (s\<lparr>timer_q := q\<rparr>) = Inr s2"
    and rest: "and_then (rearm_timer e cur t s2) (fire_timers e run cur E) = Inr s'"
    by (auto simp: and_then_eq_Inr)
  from one [OF run] obtain s3 zs where s3: "rearm_timer e cur t s2 = Inr s3" "inv cur s3" "tmq s3 zs"
      "timers_upto s3 cur zs = E" and kept: "set xs' \<subseteq> set zs" "\<forall>i. intvl (timers s3 i) = intvl (timers s i)"
      "intvl (timers s t) \<noteq> 0 \<longrightarrow> t \<in> set zs" using E by metis
  have "inv cur s' \<and> (\<exists>ws. tmq s' ws \<and> (\<forall>i\<in>set ws. cur < expires s' i) \<and>
           (\<forall>i\<in>set zs. intvl (timers s3 i) \<noteq> 0 \<longrightarrow> i \<in> set ws))"
    using Cons.hyps(1) [of s3 zs] s3 rest by simp
  then show ?case using kept unfolding xs by (metis (no_types, lifting) set_ConsD subsetD)
qed

text \<open>The function itself: enough fuel is one more than the number of timers created.\<close>

lemma run_timers_fires:
  assumes "inv (clock e (trace s) div 1000) (snd (clock_ms e s))" and "tmq s xs"
    and "unat (clock e (trace s) div 1000) < 2 ^ 63" and "next_tid s < n"
  shows "backend_event_loop_run_timers e run n s =
           fire_timers e run (clock e (trace s) div 1000)
             (timers_upto s (clock e (trace s) div 1000) xs) (snd (clock_ms e s))"
proof -
  let ?c = "clock e (trace s) div 1000" and ?s = "snd (clock_ms e s)"
  have s: "timers ?s = timers s" "timer_q ?s = timer_q s" "next_tid ?s = next_tid s"
    "clock_ms e s = (?c, ?s)"
    by (simp_all add: clock_ms_def clock_gettime_def)
  then have "tmq ?s xs" and up: "timers_upto ?s ?c xs = timers_upto s ?c xs"
    using assms(2) by (simp_all add: tmq_def timers_upto_def)
  moreover have "length (timers_upto s ?c xs) < n"
    using tmq_length [OF assms(2)] assms(4) by (simp add: timers_upto_def length_takeWhile_le [THEN le_less_trans])
  ultimately have "run_timers_loop e run ?c n (lh_first (timer_q s)) ?s =
      fire_timers e run ?c (timers_upto ?s ?c xs) ?s"
    using run_loop_fires [OF assms(1) _ assms(3), of xs n "lh_first (timer_q s)" e]
      tmq_first [OF assms(2)] up by simp
  then show ?thesis
    unfolding backend_event_loop_run_timers_def Let_def up by (subst s(4)) simp
qed

end

end
