(* ===== verification/Lanner_Handler.thy ===== *)
theory Lanner_Handler
  imports Event_Loop Port_Contract
begin

section \<open>Ports switched by the MCU of a Lanner device (lanner_handler.c)\<close>

text \<open>
  The ports of a Lanner device are switched by one MCU on a serial line. An update of a port
  only registers the command; the exchange with the MCU (version, read the mask, write the
  mask) runs from the event loop as a state machine over \<open>mcu_state\<close>. The set-up of the
  terminal's attributes and log output are not modelled.
\<close>

abbreviation LANNER_VERSION_REPLY :: string where "LANNER_VERSION_REPLY \<equiv> ''100 VERSION''"
abbreviation LANNER_HANDLER_REPLY :: string where "LANNER_HANDLER_REPLY \<equiv> ''100 DIGITAL_OUT''"
abbreviation LANNER_HANDLER_OK_REPLY :: string where "LANNER_HANDLER_OK_REPLY \<equiv> ''100 OK''"
abbreviation LANNER_HANDLER_RESTART_MS :: u32 where "LANNER_HANDLER_RESTART_MS \<equiv> 5000"
abbreviation INPUT_SIZE :: nat where "INPUT_SIZE \<equiv> 256"

abbreviation is_lanner :: "sys \<Rightarrow> pid \<Rightarrow> bool" where
  "is_lanner s p \<equiv> port_type (heap s p) = PORT_TYPE_LANNER"

definition usb_monitor_start_itr_cb :: "sys \<Rightarrow> sys" where
  "usb_monitor_start_itr_cb s = s\<lparr>itr_cb := True\<rparr>"

definition usb_monitor_stop_itr_cb :: "sys \<Rightarrow> sys" where
  "usb_monitor_stop_itr_cb s = s\<lparr>itr_cb := False\<rparr>"

subsection \<open>Commands to ports\<close>

text \<open>503 while the MCU is busy. The private timer's links tell whether it is running.\<close>

definition lanner_update_port :: "pid \<Rightarrow> u8 \<Rightarrow> sys \<Rightarrow> int \<times> sys" where
  "lanner_update_port p cmd s =
     (let l = shared_info (heap s p)
      in if mcu_state (shared s l) \<noteq> LANNER_MCU_IDLE \<and> mcu_state (shared s l) \<noteq> LANNER_MCU_PENDING
         then (503, s)
         else
           let s = port_upd p (\<lambda>pt. pt\<lparr>cur_cmd := cmd\<rparr>) s;
               s = (if cmd = CMD_RESTART
                    then port_upd p (\<lambda>pt. pt\<lparr>restart_cmd := CMD_DISABLE, msg_mode := RESET\<rparr>) s
                    else s);
               s = shared_upd l (\<lambda>sh. sh\<lparr>pending_ports_mask :=
                     or (pending_ports_mask sh) (bitmask (heap s p))\<rparr>) s;
               s = shared_upd l (\<lambda>sh. sh\<lparr>mcu_state := LANNER_MCU_PENDING\<rparr>) s
           in (0, if \<not> lq_active (timer_q s) (mcu_timeout_handle (shared s l))
                  then usb_monitor_start_itr_cb s else s))"

definition lanner_handle_timeout :: "env \<Rightarrow> pid \<Rightarrow> sys \<Rightarrow> sys" where
  "lanner_handle_timeout e p s =
     (if msg_mode (heap s p) = PING then usb_helpers_send_ping e p s else s)"

subsection \<open>The device file\<close>

text \<open>0 on success; the file is closed when one of the steps that configure it fails.\<close>

definition lanner_handler_open_mcu :: "env \<Rightarrow> nat \<Rightarrow> sys \<Rightarrow> u8 \<times> sys" where
  "lanner_handler_open_mcu e l s =
     (let (fd, s) = sys_call e (Open_File (mcu_path (shared s l))) s
      in if fd = -1 then (1, s)
         else let (retval, s) = sys_call e (Tcgetattr fd) s
         in if retval \<noteq> 0 then (1, sys_do e (Close_Fd fd) s)
         else let (retval, s) = sys_call e Cfsetospeed s
         in if retval \<noteq> 0 then (1, sys_do e (Close_Fd fd) s)
         else let (retval, s) = sys_call e (Tcsetattr fd) s
         in if retval \<noteq> 0 then (1, sys_do e (Close_Fd fd) s)
         else (0, shared_upd l (\<lambda>sh. sh\<lparr>mcu_fd := fd\<rparr>) s))"

text \<open>Reads until a read fails; a device that reports the end of the file keeps it running.\<close>

fun lanner_flush_mcu :: "env \<Rightarrow> nat \<Rightarrow> nat \<Rightarrow> sys \<Rightarrow> sys result" where
  "lanner_flush_mcu e l 0 s = Inl No_Fuel"
| "lanner_flush_mcu e l (Suc n) s =
     (let (numbytes, s) = sys_call e (Read_Fd (mcu_fd (shared s l))) s
      in if numbytes < 0 then Inr s else lanner_flush_mcu e l n s)"

definition lanner_handler_cleanup_shared :: "env \<Rightarrow> nat \<Rightarrow> bool \<Rightarrow> bool \<Rightarrow> sys \<Rightarrow> sys" where
  "lanner_handler_cleanup_shared e l has_timer has_epoll s =
     (let s = (if has_timer then sys_do e Free_Mem s else s);
          s = (if has_epoll then sys_do e Free_Mem s else s);
          s = (if mcu_fd (shared s l) \<noteq> 0 then sys_do e (Close_Fd (mcu_fd (shared s l))) s else s);
          s = sys_do e Free_Mem s
      in sys_do e Free_Mem s)"

definition lanner_handler_start_private_timer :: "env \<Rightarrow> nat \<Rightarrow> u32 \<Rightarrow> sys \<Rightarrow> sys result" where
  "lanner_handler_start_private_timer e l timeout_ms s =
     (let (cur_time, s) = clock_ms e s;
          t = mcu_timeout_handle (shared s l);
          s = s\<lparr>timers := (timers s)(t := (timers s t)\<lparr>timeout_clock := cur_time + ucast timeout_ms\<rparr>)\<rparr>
      in backend_insert_timeout t s)"

subsection \<open>Writing a command\<close>

text \<open>\<open>EAGAIN\<close> is 11. Any other error of \<open>write\<close> ends the program.\<close>

definition lanner_handler_write_cmd_buf :: "env \<Rightarrow> nat \<Rightarrow> sys \<Rightarrow> sys result" where
  "lanner_handler_write_cmd_buf e l s =
     (let sh = shared s l;
          bytes_to_write = cmd_buf_strlen sh - cmd_buf_progress sh;
          (numbytes, s) =
            sys_call e (Write_Fd (mcu_fd sh)
              (take (unat bytes_to_write) (drop (unat (cmd_buf_progress sh)) (cmd_buf sh)))) s
      in if numbytes = -1 then
           let (errno, s) = sys_call e Errno s
           in if errno = 11 then Inr (snd (backend_event_loop_update e (Epoll_Mod (mcu_fd sh) True) s))
              else Inl Exit_Failure
         else
           let s = shared_upd l (\<lambda>sh. sh\<lparr>cmd_buf_progress := cmd_buf_progress sh + of_int numbytes\<rparr>) s
           in if cmd_buf_progress (shared s l) = cmd_buf_strlen (shared s l)
              then
                let s = shared_upd l (\<lambda>sh. sh\<lparr>cmd_buf_progress := 0\<rparr>) s
                in Inr (snd (backend_event_loop_update e (Epoll_Mod (mcu_fd sh) False) s))
              else Inr (snd (backend_event_loop_update e (Epoll_Mod (mcu_fd sh) True) s)))"

text \<open>\<open>snprintf\<close> into \<open>cmd_buf\<close>, which has 21 bytes, and \<open>strlen\<close>.\<close>

definition store_cmd :: "nat \<Rightarrow> string \<Rightarrow> sys \<Rightarrow> sys" where
  "store_cmd l txt s =
     shared_upd l (\<lambda>sh. sh\<lparr>cmd_buf := take 20 txt, cmd_buf_strlen := of_nat (length (take 20 txt))\<rparr>) s"

abbreviation newline :: char where "newline \<equiv> CHR 0x0A"

text \<open>The command that a port waits for: a restart is first a disable, then an enable.\<close>

definition cmd_to_check :: "usb_port \<Rightarrow> u8" where
  "cmd_to_check pt = (if cur_cmd pt = CMD_RESTART then restart_cmd pt else cur_cmd pt)"

text \<open>A port is on when its bit is 0.\<close>

fun create_mcu_bitmask_loop :: "sys \<Rightarrow> u8 \<Rightarrow> pid list \<Rightarrow> u8 \<Rightarrow> u8" where
  "create_mcu_bitmask_loop s pend [] b = b"
| "create_mcu_bitmask_loop s pend (itr # ps) b =
     (if \<not> is_lanner s itr then create_mcu_bitmask_loop s pend ps b
      else if and pend (bitmask (heap s itr)) = 0 then create_mcu_bitmask_loop s pend ps b
      else if cmd_to_check (heap s itr) = CMD_ENABLE
      then create_mcu_bitmask_loop s pend ps (and b (not (bitmask (heap s itr))))
      else create_mcu_bitmask_loop s pend ps (or b (bitmask (heap s itr))))"

definition lanner_handler_create_mcu_bitmask :: "nat \<Rightarrow> u8 \<Rightarrow> sys \<Rightarrow> u8" where
  "lanner_handler_create_mcu_bitmask l bitmask_from_mcu s =
     create_mcu_bitmask_loop s (pending_ports_mask (shared s l)) (port_list s) bitmask_from_mcu"

definition lanner_handler_set_digital_out :: "env \<Rightarrow> nat \<Rightarrow> sys \<Rightarrow> sys result" where
  "lanner_handler_set_digital_out e l s =
     (let b = lanner_handler_create_mcu_bitmask l (mcu_bitmask (shared s l)) s;
          s = shared_upd l (\<lambda>sh. sh\<lparr>mcu_bitmask_to_write := b\<rparr>) s;
          s = store_cmd l (''SET DIGITAL_OUT '' @ dec (unat b) @ [newline]) s
      in lanner_handler_write_cmd_buf e l s)"

text \<open>The two functions that take the context find the structure through \<open>mcu_info\<close>.\<close>

definition with_mcu_info :: "sys \<Rightarrow> (nat \<Rightarrow> sys result) \<Rightarrow> sys result" where
  "with_mcu_info s f = (case mcu_info s of None \<Rightarrow> Inl Null_Deref | Some l \<Rightarrow> f l)"

definition lanner_handler_get_digital_out :: "env \<Rightarrow> sys \<Rightarrow> sys result" where
  "lanner_handler_get_digital_out e s =
     with_mcu_info s (\<lambda>l.
       lanner_handler_write_cmd_buf e l (store_cmd l (''GET DIGITAL_OUT'' @ [newline]) s))"

definition lanner_handler_get_version :: "env \<Rightarrow> sys \<Rightarrow> sys result" where
  "lanner_handler_get_version e s =
     with_mcu_info s (\<lambda>l.
       lanner_handler_write_cmd_buf e l (store_cmd l (''GET VERSION'' @ [newline]) s))"

subsection \<open>Replies\<close>

text \<open>
  \<open>sscanf\<close> with one \<open>%u\<close>: the end of the input before the conversion, a mismatch, or the
  value. White space in the format matches any white space; \<open>%u\<close> is \<open>strtoul\<close> on 64 bits,
  stored in 32 bits.
\<close>

datatype scan = Scan_EOF | Scan_Fail | Scan_Val u32

definition scan_u :: "string \<Rightarrow> scan" where
  "scan_u s =
     (case dropWhile is_space s of
        [] \<Rightarrow> Scan_EOF
      | c # cs \<Rightarrow>
          let ds = (if c = CHR ''-'' \<or> c = CHR ''+'' then cs else c # cs);
              v = digits_val 0 ds;
              v = (if 2 ^ 64 \<le> v then 2 ^ 64 - 1 else if c = CHR ''-'' then - v else v)
          in case ds of
               [] \<Rightarrow> Scan_Fail
             | d # _ \<Rightarrow> if is_digit d then Scan_Val (word_of_int v) else Scan_Fail)"

fun scan_format :: "string \<Rightarrow> string \<Rightarrow> scan" where
  "scan_format [] s = scan_u s"
| "scan_format (f # fs) s =
     (if is_space f then scan_format fs (dropWhile is_space s)
      else case s of
             [] \<Rightarrow> Scan_EOF
           | c # cs \<Rightarrow> if c = f then scan_format fs cs else Scan_Fail)"

text \<open>
  The reply with the mask. The 32 bits of the value are stored from \<open>mcu_bitmask\<close> on:
  the second byte goes to \<open>mcu_bitmask_to_write\<close>, the others to the padding at the end of
  the structure (little-endian, pointers of 64 bits). Nothing is stored at the end of the
  input, which counts as a success.
\<close>

definition store_bitmask :: "nat \<Rightarrow> scan \<Rightarrow> sys \<Rightarrow> sys" where
  "store_bitmask l r s =
     (case r of
        Scan_Val v \<Rightarrow>
          shared_upd l (\<lambda>sh. sh\<lparr>mcu_bitmask := ucast v, mcu_bitmask_to_write := ucast (drop_bit 8 v)\<rparr>) s
      | _ \<Rightarrow> s)"

text \<open>A C string in a buffer: the characters before the first zero.\<close>

definition cstr :: "string \<Rightarrow> string" where
  "cstr b = takeWhile (\<lambda>c. c \<noteq> CHR 0x00) b"

text \<open>The second form of the reply is tried when the first does not match.\<close>

definition scan_bitmask :: "string \<Rightarrow> scan" where
  "scan_bitmask txt =
     (let n = scan_format (LANNER_HANDLER_REPLY @ ''= '') txt
      in if n = Scan_Fail then scan_format (LANNER_HANDLER_REPLY @ ''='') txt else n)"

definition lanner_handler_reply :: "env \<Rightarrow> nat \<Rightarrow> sys \<Rightarrow> sys result" where
  "lanner_handler_reply e l s =
     (let n = scan_bitmask (cstr (buf_input (shared s l)))
      in if n = Scan_Fail then Inl Exit_Failure
         else
           let s = store_bitmask l n s
           in lanner_handler_set_digital_out e l
                (shared_upd l (\<lambda>sh. sh\<lparr>mcu_state := LANNER_MCU_SET_DIGITAL_OUT\<rparr>) s))"

text \<open>What the reply \<open>100 OK\<close> does to one port whose bit is in the mask.\<close>

definition ok_port :: "nat \<Rightarrow> pid \<Rightarrow> sys \<Rightarrow> sys" where
  "ok_port l itr s =
     (let c = cmd_to_check (heap s itr)
      in if c = CMD_ENABLE then
           let s = port_upd itr (\<lambda>pt. pt\<lparr>enabled := True, pwr_state := True, msg_mode := IDLE\<rparr>) s
           in shared_upd l (\<lambda>sh. sh\<lparr>pending_ports_mask :=
                and (pending_ports_mask sh) (not (bitmask (heap s itr)))\<rparr>) s
         else if c = CMD_DISABLE then
           let s = port_upd itr (\<lambda>pt. pt\<lparr>enabled := False, pwr_state := False\<rparr>) s
           in if cur_cmd (heap s itr) \<noteq> CMD_RESTART
              then shared_upd l (\<lambda>sh. sh\<lparr>pending_ports_mask :=
                     and (pending_ports_mask sh) (not (bitmask (heap s itr)))\<rparr>) s
              else port_upd itr (\<lambda>pt. pt\<lparr>restart_cmd := CMD_ENABLE\<rparr>) s
         else s)"

fun ok_reply_loop :: "nat \<Rightarrow> pid list \<Rightarrow> sys \<Rightarrow> sys" where
  "ok_reply_loop l [] s = s"
| "ok_reply_loop l (itr # ps) s =
     (if \<not> is_lanner s itr then ok_reply_loop l ps s
      else if and (pending_ports_mask (shared s l)) (bitmask (heap s itr)) = 0
      then ok_reply_loop l ps s
      else ok_reply_loop l ps (ok_port l itr s))"

text \<open>The last Lanner port leads to the context; with no such port the pointer is not set.\<close>

definition lanner_handler_ok_reply :: "env \<Rightarrow> nat \<Rightarrow> sys \<Rightarrow> sys result" where
  "lanner_handler_ok_reply e l s =
     (let s = ok_reply_loop l (port_list s) s;
          s = shared_upd l (\<lambda>sh. sh\<lparr>mcu_bitmask := mcu_bitmask_to_write sh\<rparr>) s;
          s = shared_upd l (\<lambda>sh. sh\<lparr>mcu_bitmask_to_write := 0\<rparr>) s
      in if pending_ports_mask (shared s l) = 0
         then
           if \<not> list_ex (is_lanner s) (port_list s) then Inl Null_Deref
           else Inr (usb_monitor_start_itr_cb
                       (shared_upd l (\<lambda>sh. sh\<lparr>mcu_state := LANNER_MCU_UPDATE_DONE\<rparr>) s))
         else lanner_handler_start_private_timer e l LANNER_HANDLER_RESTART_MS s)"

definition starts_with :: "string \<Rightarrow> string \<Rightarrow> bool" where
  "starts_with pre txt \<longleftrightarrow> take (length pre) txt = pre"

text \<open>
  One message. \<open>status_code\<close> keeps the low 16 bits of the number; it is not initialised, and
  an empty message leaves it so.
\<close>

definition lanner_handler_handle_msg :: "env \<Rightarrow> nat \<Rightarrow> sys \<Rightarrow> sys result" where
  "lanner_handler_handle_msg e l s =
     (let txt = cstr (buf_input (shared s l));
          n = scan_format [] txt;
          status_code = (case n of Scan_Val v \<Rightarrow> ucast v | _ \<Rightarrow> stack_word e (trace s))
      in if n \<noteq> Scan_Fail \<and> status_code \<noteq> 100 \<and> cmd_buf_progress (shared s l) = 0
         then lanner_handler_write_cmd_buf e l s
         else case mcu_state (shared s l) of
           LANNER_MCU_GET_VERSION \<Rightarrow>
             if starts_with LANNER_VERSION_REPLY txt
             then lanner_handler_get_digital_out e
                    (shared_upd l (\<lambda>sh. sh\<lparr>mcu_state := LANNER_MCU_GET_DIGITAL_OUT\<rparr>) s)
             else Inr s
         | LANNER_MCU_GET_DIGITAL_OUT \<Rightarrow>
             if starts_with LANNER_HANDLER_REPLY txt then lanner_handler_reply e l s else Inr s
         | LANNER_MCU_SET_DIGITAL_OUT \<Rightarrow>
             if starts_with LANNER_HANDLER_OK_REPLY txt then lanner_handler_ok_reply e l s
             else Inr s
         | _ \<Rightarrow> Inr s)"

subsection \<open>Input\<close>

text \<open>A read: the result, and the bytes when it is positive.\<close>

definition read_call :: "env \<Rightarrow> int \<Rightarrow> nat \<Rightarrow> sys \<Rightarrow> (int \<times> string) \<times> sys" where
  "read_call e fd cnt s =
     (let bytes = take cnt (input_data e (trace s));
          (r, s) = sys_call e (Read_Fd fd) s
      in (if r \<le> 0 then (r, []) else (int (length bytes), bytes), s))"

definition store_bytes :: "string \<Rightarrow> nat \<Rightarrow> string \<Rightarrow> string" where
  "store_bytes b off bytes = take off b @ bytes @ drop (off + length bytes) b"

definition zero_chars :: "nat \<Rightarrow> string" where
  "zero_chars n = replicate n (CHR 0x00)"

text \<open>
  The loop over the messages in the buffer. \<open>input_progress\<close> is a \<open>uint8_t\<close>: the comparison with
  the size of the buffer, 256, is never true. Each turn removes a message, so 256 turns are
  enough.
\<close>

fun lanner_input_loop :: "env \<Rightarrow> nat \<Rightarrow> nat \<Rightarrow> sys \<Rightarrow> sys result" where
  "lanner_input_loop e l 0 s = Inl No_Fuel"
| "lanner_input_loop e l (Suc n) s =
     (let progress = unat (input_progress (shared s l));
          i = length (takeWhile (\<lambda>c. c \<noteq> newline) (take progress (buf_input (shared s l))))
      in if i = progress then
           if progress = INPUT_SIZE then Inl Exit_Failure else Inr s
         else
           let s = shared_upd l (\<lambda>sh. sh\<lparr>buf_input := (buf_input sh)[i := CHR 0x00]\<rparr>) s
           in and_then (lanner_handler_handle_msg e l s) (\<lambda>s.
                let next_msg_idx = i + 1;
                    b = buf_input (shared s l);
                    k = next_msg_idx +
                        length (takeWhile (\<lambda>c. c = CHR 0x00) (drop next_msg_idx (take progress b)))
                in if next_msg_idx = progress \<or> k = progress
                   then Inr (shared_upd l (\<lambda>sh. sh\<lparr>input_progress := 0,
                                                  buf_input := zero_chars INPUT_SIZE\<rparr>) s)
                   else
                     let left = progress - k
                     in lanner_input_loop e l n
                          (shared_upd l (\<lambda>sh. sh\<lparr>input_progress := of_nat left,
                             buf_input := take left (drop k b) @ zero_chars (INPUT_SIZE - left)\<rparr>) s)))"

definition lanner_handler_handle_input :: "env \<Rightarrow> nat \<Rightarrow> sys \<Rightarrow> sys result" where
  "lanner_handler_handle_input e l s =
     (let off = unat (input_progress (shared s l));
          ((numbytes, bytes), s) = read_call e (mcu_fd (shared s l)) (INPUT_SIZE - off) s
      in if numbytes \<le> 0 then Inl Exit_Failure
         else
           let i = (if off = 0 then length (takeWhile (\<lambda>c. c = CHR 0x00) bytes) else 0);
               b = store_bytes (buf_input (shared s l)) off bytes;
               b = (if i \<noteq> 0 then store_bytes b 0 (drop i bytes) else b);
               s = shared_upd l (\<lambda>sh. sh\<lparr>buf_input := b,
                     input_progress := input_progress sh + of_int (numbytes - int i)\<rparr>) s
           in lanner_input_loop e l INPUT_SIZE s)"

text \<open>\<open>EPOLLIN\<close> is 1 and \<open>EPOLLOUT\<close> is 4.\<close>

definition lanner_handler_event_cb :: "env \<Rightarrow> u32 \<Rightarrow> sys \<Rightarrow> sys result" where
  "lanner_handler_event_cb e events s =
     and_then (if and events 1 \<noteq> 0 then with_mcu_info s (\<lambda>l. lanner_handler_handle_input e l s) else Inr s)
       (\<lambda>s. if and events 4 \<noteq> 0 then with_mcu_info s (\<lambda>l. lanner_handler_write_cmd_buf e l s)
            else Inr s)"

subsection \<open>The update\<close>

text \<open>
  The first part: lock the MCU, open it, discard old input. \<open>None\<close> when it has to be tried
  again later. \<open>n\<close> bounds the reads of the flush.
\<close>

definition lanner_acquire_mcu :: "env \<Rightarrow> nat \<Rightarrow> nat \<Rightarrow> sys \<Rightarrow> (bool \<times> sys) result" where
  "lanner_acquire_mcu e n l s =
     (let (r, s) = sys_call e (Flock (lock_fd (shared s l)) True) s
      in if r \<noteq> 0 then
           and_then (lanner_handler_start_private_timer e l LANNER_HANDLER_RESTART_MS s)
             (\<lambda>s. Inr (False, s))
         else
           let (r, s) = lanner_handler_open_mcu e l s
           in if r \<noteq> 0 then
                and_then
                  (lanner_handler_start_private_timer e l LANNER_HANDLER_RESTART_MS
                     (sys_do e (Flock (lock_fd (shared s l)) False) s))
                  (\<lambda>s. Inr (False, s))
              else
                and_then (lanner_flush_mcu e l n s) (\<lambda>s.
                  let (_, s) = backend_event_loop_update e (Epoll_Add (mcu_fd (shared s l))) s
                  in Inr (True, shared_upd l (\<lambda>sh. sh\<lparr>mcu_state := LANNER_MCU_GET_VERSION\<rparr>) s)))"

definition lanner_handler_start_mcu_update :: "env \<Rightarrow> nat \<Rightarrow> sys \<Rightarrow> sys result" where
  "lanner_handler_start_mcu_update e n s =
     with_mcu_info s (\<lambda>l.
       and_then
         (if mcu_state (shared s l) = LANNER_MCU_PENDING then lanner_acquire_mcu e n l s
          else Inr (True, s))
         (\<lambda>(go, s).
           if \<not> go then Inr s
           else case mcu_state (shared s l) of
             LANNER_MCU_GET_VERSION \<Rightarrow> lanner_handler_get_version e s
           | LANNER_MCU_GET_DIGITAL_OUT \<Rightarrow> lanner_handler_get_digital_out e s
           | LANNER_MCU_SET_DIGITAL_OUT \<Rightarrow> lanner_handler_set_digital_out e l s
           | _ \<Rightarrow> Inr s))"

definition lanner_handle_private_timeout :: "env \<Rightarrow> nat \<Rightarrow> sys \<Rightarrow> sys result" where
  "lanner_handle_private_timeout e n s = lanner_handler_start_mcu_update e n s"

definition lanner_handler_itr_cb :: "env \<Rightarrow> nat \<Rightarrow> sys \<Rightarrow> sys result" where
  "lanner_handler_itr_cb e n s =
     with_mcu_info s (\<lambda>l.
       if mcu_state (shared s l) = LANNER_MCU_UPDATE_DONE then
         let s = sys_do e (Flock (lock_fd (shared s l)) False) s;
             s = sys_do e (Close_Fd (mcu_fd (shared s l))) s
         in Inr (shared_upd l (\<lambda>sh. sh\<lparr>mcu_state := LANNER_MCU_IDLE\<rparr>) s)
       else lanner_handler_start_mcu_update e n s)"

lemma lanner_update_local:
  assumes "tq s xs"
  shows "port_local p s xs (snd (lanner_update_port p cmd s))"
  using assms unfolding lanner_update_port_def usb_monitor_start_itr_cb_def Let_def
  by (intro port_local_same') auto

lemma lanner_timeout_local:
  "tq s xs \<Longrightarrow> p \<notin> set xs \<Longrightarrow> port_local p s xs (lanner_handle_timeout e p s)"
  by (simp add: lanner_handle_timeout_def send_ping_local)

interpretation lanner: port_handler "\<lambda>e p cmd s. Inr (lanner_update_port p cmd s)"
    "\<lambda>e p s. Inr (lanner_handle_timeout e p s)" "\<lambda>_. True"
  using lanner_update_local lanner_timeout_local by unfold_locales (simp_all add: case_prod_beta)

section \<open>Properties of the Lanner handler\<close>

subsection \<open>The mask\<close>

definition pending_port :: "sys \<Rightarrow> u8 \<Rightarrow> pid \<Rightarrow> bool" where
  "pending_port s pend p \<longleftrightarrow> is_lanner s p \<and> and pend (bitmask (heap s p)) \<noteq> 0"

lemma create_mask_untouched:
  assumes "\<forall>q\<in>set ps. pending_port s pend q \<longrightarrow> \<not> bit (bitmask (heap s q)) i"
  shows "bit (create_mcu_bitmask_loop s pend ps b) i = bit b i"
  using assms
proof (induction ps arbitrary: b)
  case (Cons q ps)
  then show ?case by (auto simp: pending_port_def bit_simps dest: bit_imp_le_length)
qed simp

text \<open>The bit of a pending port says whether the port is to be off.\<close>

lemma create_mask_bit:
  assumes "p \<in> set ps" and "distinct ps" and "pending_port s pend p" and "bit (bitmask (heap s p)) i"
    and "\<forall>q\<in>set ps. q \<noteq> p \<longrightarrow> is_lanner s q \<longrightarrow> \<not> bit (bitmask (heap s q)) i"
  shows "bit (create_mcu_bitmask_loop s pend ps b) i \<longleftrightarrow> cmd_to_check (heap s p) \<noteq> CMD_ENABLE"
  using assms
proof (induction ps arbitrary: b)
  case (Cons q ps)
  have i: "i < 8" using Cons.prems(4) bit_imp_le_length [of "bitmask (heap s p)" i] by simp
  show ?case
  proof (cases "q = p")
    case True
    then have "\<forall>q\<in>set ps. pending_port s pend q \<longrightarrow> \<not> bit (bitmask (heap s q)) i"
      using Cons.prems by (auto simp: pending_port_def)
    from create_mask_untouched [OF this] show ?thesis
      using True Cons.prems i by (auto simp: pending_port_def bit_simps)
  next
    case False
    then show ?thesis using Cons.IH Cons.prems by (simp add: pending_port_def)
  qed
qed simp

subsection \<open>The reply to a write\<close>

definition ok_effect :: "usb_port \<Rightarrow> usb_port" where
  "ok_effect pt =
     (if cmd_to_check pt = CMD_ENABLE then pt\<lparr>enabled := True, pwr_state := True, msg_mode := IDLE\<rparr>
      else if cmd_to_check pt = CMD_DISABLE then
        if cur_cmd pt \<noteq> CMD_RESTART then pt\<lparr>enabled := False, pwr_state := False\<rparr>
        else pt\<lparr>enabled := False, pwr_state := False, restart_cmd := CMD_ENABLE\<rparr>
      else pt)"

definition ok_finished :: "usb_port \<Rightarrow> bool" where
  "ok_finished pt \<longleftrightarrow> cmd_to_check pt = CMD_ENABLE \<or>
                    cmd_to_check pt = CMD_DISABLE \<and> cur_cmd pt \<noteq> CMD_RESTART"

lemma ok_port_effect:
  "heap (ok_port l p s) = (heap s)(p := ok_effect (heap s p))"
  "pending_ports_mask (shared (ok_port l p s) l) =
     (if ok_finished (heap s p) then and (pending_ports_mask (shared s l)) (not (bitmask (heap s p)))
      else pending_ports_mask (shared s l))"
  by (simp_all add: ok_port_def ok_effect_def ok_finished_def Let_def)

lemma ok_effect_same [simp]:
  "bitmask (ok_effect pt) = bitmask pt" "port_type (ok_effect pt) = port_type pt"
  by (simp_all add: ok_effect_def)

definition masks_disjoint :: "sys \<Rightarrow> pid list \<Rightarrow> bool" where
  "masks_disjoint s ps \<longleftrightarrow>
     distinct ps \<and> (\<forall>p\<in>set ps. \<forall>q\<in>set ps. p \<noteq> q \<longrightarrow> is_lanner s p \<longrightarrow> is_lanner s q \<longrightarrow>
        and (bitmask (heap s p)) (bitmask (heap s q)) = 0)"

lemma and_not_disjoint:
  fixes m1 m2 w :: u8
  assumes "and m1 m2 = 0"
  shows "and (and w (not m1)) m2 = and w m2"
proof (rule bit_word_eqI)
  fix i
  have "\<not> bit (and m1 m2) i" using assms by simp
  then show "bit (and (and w (not m1)) m2) i = bit (and w m2) i"
    by (auto simp: bit_simps dest: bit_imp_le_length)
qed

lemma ok_reply_loop_effect:
  assumes "masks_disjoint s ps" and "pend = pending_ports_mask (shared s l)"
  shows "heap (ok_reply_loop l ps s) =
           (\<lambda>q. if q \<in> set ps \<and> pending_port s pend q then ok_effect (heap s q) else heap s q) \<and>
         (\<forall>i. bit (pending_ports_mask (shared (ok_reply_loop l ps s) l)) i \<longleftrightarrow>
           bit pend i \<and>
           \<not> (\<exists>p\<in>set ps. pending_port s pend p \<and> ok_finished (heap s p) \<and> bit (bitmask (heap s p)) i))"
  using assms
proof (induction ps arbitrary: s pend)
  case (Cons p ps)
  have disj: "masks_disjoint s ps" using Cons.prems(1) by (simp add: masks_disjoint_def)
  show ?case
  proof (cases "pending_port s pend p")
    case False
    then have "ok_reply_loop l (p # ps) s = ok_reply_loop l ps s"
      using Cons.prems(2) by (simp add: pending_port_def)
    then show ?thesis using Cons.IH [OF disj Cons.prems(2)] False by (auto simp: fun_eq_iff)
  next
    case True
    define s1 where "s1 = ok_port l p s"
    define pend1 where "pend1 = pending_ports_mask (shared s1 l)"
    have run: "ok_reply_loop l (p # ps) s = ok_reply_loop l ps s1"
      using True Cons.prems(2) by (simp add: pending_port_def s1_def)
    have h1: "heap s1 = (heap s)(p := ok_effect (heap s p))"
      and p1: "pend1 = (if ok_finished (heap s p) then and pend (not (bitmask (heap s p))) else pend)"
      by (simp_all add: s1_def pend1_def ok_port_effect Cons.prems(2))
    have p: "p \<notin> set ps" using Cons.prems(1) by (simp add: masks_disjoint_def)
    have disj1: "masks_disjoint s1 ps" using disj p by (auto simp: masks_disjoint_def h1)
    have same: "pending_port s1 pend1 q = pending_port s pend q" if "q \<in> set ps" for q
    proof -
      have "q \<noteq> p" using that p by auto
      moreover have "and pend1 (bitmask (heap s q)) = and pend (bitmask (heap s q))" if "is_lanner s q"
        using Cons.prems(1) True \<open>q \<in> set ps\<close> \<open>q \<noteq> p\<close> that
        by (auto simp: p1 masks_disjoint_def pending_port_def intro!: and_not_disjoint)
      ultimately show ?thesis by (auto simp: pending_port_def h1)
    qed
    note IH = Cons.IH [OF disj1 pend1_def]
    have "heap (ok_reply_loop l ps s1) q =
        (if q \<in> set (p # ps) \<and> pending_port s pend q then ok_effect (heap s q) else heap s q)" for q
      using IH [THEN conjunct1] same True p by (auto simp: h1 fun_eq_iff)
    moreover have "bit (pending_ports_mask (shared (ok_reply_loop l ps s1) l)) i \<longleftrightarrow> bit pend i \<and>
        \<not> (\<exists>p\<in>set (p # ps). pending_port s pend p \<and> ok_finished (heap s p) \<and> bit (bitmask (heap s p)) i)" for i
    proof -
      have "(\<exists>q\<in>set ps. pending_port s1 pend1 q \<and> ok_finished (heap s1 q) \<and> bit (bitmask (heap s1 q)) i) \<longleftrightarrow>
            (\<exists>q\<in>set ps. pending_port s pend q \<and> ok_finished (heap s q) \<and> bit (bitmask (heap s q)) i)"
        using same p by (intro bex_cong) (auto simp: h1)
      moreover have "bit pend1 i \<longleftrightarrow> bit pend i \<and> \<not> (ok_finished (heap s p) \<and> bit (bitmask (heap s p)) i)"
        by (auto simp: p1 bit_simps dest: bit_imp_le_length)
      ultimately show ?thesis using IH [THEN conjunct2] True by auto
    qed
    ultimately show ?thesis unfolding run by blast
  qed
qed simp

subsection \<open>Reading the mask\<close>

lemma digits_val_append:
  "\<forall>c\<in>set ds. is_digit c \<Longrightarrow> rest = [] \<or> \<not> is_digit (hd rest) \<Longrightarrow> digits_val v (ds @ rest) = digits_val v ds"
  by (induction ds arbitrary: v) (cases rest; simp)+

lemma dec_digits: "c \<in> set (dec n) \<Longrightarrow> is_digit c"
  by (metis dec_chars digit_char_props)


lemma scan_u_dec:
  assumes "n < 2 ^ 32" and "rest = [] \<or> \<not> is_digit (hd rest)"
  shows "scan_u (dec n @ rest) = Scan_Val (of_nat n)"
proof -
  obtain d ds where d: "dec n = d # ds" by (cases "dec n") auto
  then have dig: "is_digit d" using dec_digits [of d n] by simp
  have "\<not> is_space d" "d \<noteq> CHR ''-''" "d \<noteq> CHR ''+''"
    using dec_chars [of d n] d digit_char_props by auto
  moreover have "digits_val 0 (d # ds @ rest) = int n"
  proof -
    have "digits_val 0 (dec n @ rest) = int n"
      using digits_val_append [of "dec n" rest 0] dec_digits assms(2) by (simp add: digits_val_dec)
    then show ?thesis by (simp only: d append_Cons)
  qed
  ultimately show ?thesis
    using dig assms(1) by (simp add: scan_u_def d Let_def)
qed

lemma scan_u_spaces: "scan_u (CHR '' '' # s) = scan_u s"
  by (simp add: scan_u_def is_space_def)

lemma scan_format_prefix:
  assumes "\<forall>c\<in>set fs. \<not> is_space c"
  shows "scan_format (fs @ gs) (fs @ s) = scan_format gs s"
  using assms by (induction fs) auto

lemma dropWhile_space_dec: "dropWhile is_space (dec n @ rest) = dec n @ rest"
  using dec_chars [of "hd (dec n)" n] digit_char_props(4)
  by (cases "dec n") auto

text \<open>Both firmware versions: with and without a space after the equals sign.\<close>

lemma scan_reply:
  assumes "n < 2 ^ 32" and "rest = [] \<or> \<not> is_digit (hd rest)"
  shows "scan_format (LANNER_HANDLER_REPLY @ ''= '') (LANNER_HANDLER_REPLY @ ''='' @ dec n @ rest) = Scan_Val (of_nat n)"
    and "scan_format (LANNER_HANDLER_REPLY @ ''= '') (LANNER_HANDLER_REPLY @ ''= '' @ dec n @ rest) = Scan_Val (of_nat n)"
  using scan_u_dec [OF assms] dropWhile_space_dec [of n rest]
  by (simp_all add: is_space_def)


subsection \<open>The input loop\<close>

text \<open>A message leaves the input buffer and its length alone.\<close>

lemma write_cmd_buf_input:
  assumes "lanner_handler_write_cmd_buf e l s = Inr s'"
  shows "buf_input (shared s' k) = buf_input (shared s k)"
    and "input_progress (shared s' k) = input_progress (shared s k)"
  using assms
  by (auto simp: lanner_handler_write_cmd_buf_def backend_event_loop_update_def sys_call_eq Let_def
      split: if_splits)

lemma store_cmd_input [simp]:
  "buf_input (shared (store_cmd l txt s) k) = buf_input (shared s k)"
  "input_progress (shared (store_cmd l txt s) k) = input_progress (shared s k)"
  by (simp_all add: store_cmd_def)

lemma ok_reply_loop_input [simp]:
  "buf_input (shared (ok_reply_loop l ps s) k) = buf_input (shared s k)"
  "input_progress (shared (ok_reply_loop l ps s) k) = input_progress (shared s k)"
  by (induction ps arbitrary: s) (auto simp: ok_port_def Let_def)

lemma insert_timeout_shared: "backend_insert_timeout t s = Inr s' \<Longrightarrow> shared s' = shared s"
  by (auto simp: backend_insert_timeout_def and_then_eq_Inr Let_def split: option.splits if_splits)

lemma private_timer_input:
  assumes "lanner_handler_start_private_timer e l ms s = Inr s'"
  shows "shared s' = shared s"
  using assms insert_timeout_shared
  by (fastforce simp: lanner_handler_start_private_timer_def clock_ms_def clock_gettime_def Let_def)

lemma set_digital_out_input:
  assumes "lanner_handler_set_digital_out e l s = Inr s'"
  shows "buf_input (shared s' k) = buf_input (shared s k)"
    and "input_progress (shared s' k) = input_progress (shared s k)"
  using write_cmd_buf_input [of e l _ s' k] assms
  by (auto simp: lanner_handler_set_digital_out_def Let_def)

lemma get_digital_out_input:
  assumes "lanner_handler_get_digital_out e s = Inr s'"
  shows "buf_input (shared s' k) = buf_input (shared s k)"
    and "input_progress (shared s' k) = input_progress (shared s k)"
  using write_cmd_buf_input [of e _ _ s' k] assms
  by (auto simp: lanner_handler_get_digital_out_def with_mcu_info_def split: option.splits)

lemma store_bitmask_input [simp]:
  "buf_input (shared (store_bitmask l n s) k) = buf_input (shared s k)"
  "input_progress (shared (store_bitmask l n s) k) = input_progress (shared s k)"
  by (simp_all add: store_bitmask_def split: scan.split)

lemma reply_input:
  assumes "lanner_handler_reply e l s = Inr s'"
  shows "buf_input (shared s' k) = buf_input (shared s k)"
    and "input_progress (shared s' k) = input_progress (shared s k)"
  using set_digital_out_input [of e l _ s' k] assms
  by (auto simp: lanner_handler_reply_def Let_def split: if_splits)

lemma ok_reply_input:
  assumes "lanner_handler_ok_reply e l s = Inr s'"
  shows "buf_input (shared s' k) = buf_input (shared s k)"
    and "input_progress (shared s' k) = input_progress (shared s k)"
  using private_timer_input [of e l _ _ s'] assms
  by (auto simp: lanner_handler_ok_reply_def usb_monitor_start_itr_cb_def Let_def split: if_splits)

lemma msg_branches:
  "(if a then x
    else case m of
      LANNER_MCU_GET_VERSION \<Rightarrow> if b1 then y1 else z
    | LANNER_MCU_GET_DIGITAL_OUT \<Rightarrow> if b2 then y2 else z
    | LANNER_MCU_SET_DIGITAL_OUT \<Rightarrow> if b3 then y3 else z
    | _ \<Rightarrow> z) \<in> {x, y1, y2, y3, z}"
  by (cases m) simp_all

lemma handle_msg_input:
  assumes "lanner_handler_handle_msg e l s = Inr s'"
  shows "buf_input (shared s' k) = buf_input (shared s k)"
    and "input_progress (shared s' k) = input_progress (shared s k)"
proof -
  let ?g = "shared_upd l (\<lambda>sh. sh\<lparr>mcu_state := LANNER_MCU_GET_DIGITAL_OUT\<rparr>) s"
  have "lanner_handler_handle_msg e l s \<in>
      {lanner_handler_write_cmd_buf e l s, lanner_handler_get_digital_out e ?g,
       lanner_handler_reply e l s, lanner_handler_ok_reply e l s, Inr s}"
    unfolding lanner_handler_handle_msg_def Let_def by (rule msg_branches)
  moreover have "buf_input (shared ?g k) = buf_input (shared s k)"
      "input_progress (shared ?g k) = input_progress (shared s k)" by simp_all
  ultimately show "buf_input (shared s' k) = buf_input (shared s k)"
    and "input_progress (shared s' k) = input_progress (shared s k)"
    using assms write_cmd_buf_input [of e l s s' k] get_digital_out_input [of e ?g s' k]
      reply_input [of e l s s' k] ok_reply_input [of e l s s' k]
    by (metis (no_types, lifting) empty_iff insert_iff sum.inject(2))+
qed

text \<open>
  Each turn of the loop takes at least the newline out of the buffer, so any fuel above the
  number of bytes in it gives the same run.
\<close>

lemma input_loop_fuel:
  assumes "unat (input_progress (shared s l)) < n" and "unat (input_progress (shared s l)) < m"
  shows "lanner_input_loop e l n s = lanner_input_loop e l m s"
  using assms
proof (induction n arbitrary: m s)
  case (Suc n)
  obtain m' where m: "m = Suc m'" using Suc.prems(2) by (cases m) auto
  let ?p = "unat (input_progress (shared s l))"
  let ?i = "length (takeWhile (\<lambda>c. c \<noteq> newline) (take ?p (buf_input (shared s l))))"
  let ?s = "shared_upd l (\<lambda>sh. sh\<lparr>buf_input := (buf_input sh)[?i := CHR 0x00]\<rparr>) s"
  have rest: "lanner_input_loop e l n (shared_upd l (\<lambda>sh. sh\<lparr>input_progress := of_nat (?p - k), buf_input := b\<rparr>) s1) =
              lanner_input_loop e l m' (shared_upd l (\<lambda>sh. sh\<lparr>input_progress := of_nat (?p - k), buf_input := b\<rparr>) s1)"
    if "0 < k" "0 < ?p" for k b s1
  proof (rule Suc.IH)
    have "?p < 256" using unsigned_less [of "input_progress (shared s l)"] by simp
    then have "unat (of_nat (?p - k) :: u8) = ?p - k"
      by (simp add: unat_of_nat take_bit_nat_eq_self)
    then show "unat (input_progress (shared (shared_upd l (\<lambda>sh. sh\<lparr>input_progress := of_nat (?p - k), buf_input := b\<rparr>) s1) l)) < n"
      "unat (input_progress (shared (shared_upd l (\<lambda>sh. sh\<lparr>input_progress := of_nat (?p - k), buf_input := b\<rparr>) s1) l)) < m'"
      using that Suc.prems m by auto
  qed
  show ?case
  proof (cases "?i = ?p")
    case True
    then show ?thesis by (simp add: m Let_def)
  next
    case False
    moreover have "?i \<le> ?p" by (metis length_take length_takeWhile_le min.bounded_iff)
    ultimately have pos: "0 < ?p" by simp
    show ?thesis
    proof (cases "lanner_handler_handle_msg e l ?s")
      case (Inl f)
      with False show ?thesis by (simp add: m Let_def)
    next
      case (Inr s1)
      show ?thesis
        unfolding m lanner_input_loop.simps Let_def if_not_P [OF False] Inr and_then_simps
        by (rule if_cong [OF refl refl]) (rule rest [OF _ pos]; simp)
    qed
  qed
qed simp

lemma read_call_eq:
  "read_call e fd cnt s =
     (let bytes = take cnt (input_data e (trace s)); r = answer e (trace s) (Read_Fd fd)
      in (if r \<le> 0 then (r, []) else (int (length bytes), bytes), sys_do e (Read_Fd fd) s))"
  by (simp add: read_call_def sys_call_eq Let_def)

text \<open>
  The buffer is full and holds no newline: the progress of eight bits is back at 0, and the
  test for an oversized reply does not see it.
\<close>

lemma input_wraps:
  assumes k: "0 < unat (input_progress (shared s l))"
    and read: "0 < answer e (trace s) (Read_Fd (mcu_fd (shared s l)))"
    and bytes: "256 \<le> unat (input_progress (shared s l)) + length (input_data e (trace s))"
  shows "\<exists>s'. lanner_handler_handle_input e l s = Inr s' \<and> input_progress (shared s' l) = 0"
proof -
  let ?k = "unat (input_progress (shared s l))"
  let ?b = "take (256 - ?k) (input_data e (trace s))"
  have len: "length ?b = 256 - ?k" using bytes by simp
  have k256: "?k < 256" using unsigned_less [of "input_progress (shared s l)"] by simp
  have "input_progress (shared s l) + of_int (int (256 - ?k)) = of_nat ?k + of_nat (256 - ?k)" by simp
  also have "\<dots> = of_nat 256" using k256 by (simp flip: of_nat_add)
  also have "\<dots> = (0 :: u8)" by simp
  finally have wrap: "input_progress (shared s l) + of_int (int (256 - ?k)) = 0" .
  have stop: "lanner_input_loop e l (Suc n) s1 = Inr s1" if "input_progress (shared s1 l) = 0" for n s1
    using that by (simp add: Let_def)
  have "lanner_handler_handle_input e l s =
      lanner_input_loop e l INPUT_SIZE (shared_upd l (\<lambda>sh. sh\<lparr>buf_input := store_bytes (buf_input (shared s l)) ?k ?b,
                     input_progress := input_progress sh + of_int (int (256 - ?k))\<rparr>) (sys_do e (Read_Fd (mcu_fd (shared s l))) s))"
    using k read len k256 by (simp add: lanner_handler_handle_input_def read_call_eq Let_def del: lanner_input_loop.simps)
  also have "\<dots> = Inr (shared_upd l (\<lambda>sh. sh\<lparr>buf_input := store_bytes (buf_input (shared s l)) ?k ?b,
                     input_progress := input_progress sh + of_int (int (256 - ?k))\<rparr>) (sys_do e (Read_Fd (mcu_fd (shared s l))) s))"
    (is "_ = Inr ?s")
    using stop [of ?s 255] wrap by (simp del: lanner_input_loop.simps)
  finally show ?thesis using wrap by auto
qed

subsection \<open>A complete restart\<close>

lemma ok_reply_loop_frame [simp]: "port_list (ok_reply_loop l ps s) = port_list s"
  by (induction ps arbitrary: s) (auto simp: ok_port_def Let_def)

lemma masks_disjoint_bit:
  assumes "masks_disjoint s ps" and "p \<in> set ps" "is_lanner s p" and "q \<in> set ps" "is_lanner s q"
    and "q \<noteq> p" and "bit (bitmask (heap s p)) i"
  shows "\<not> bit (bitmask (heap s q)) i"
proof
  assume "bit (bitmask (heap s q)) i"
  with assms(7) have "bit (and (bitmask (heap s q)) (bitmask (heap s p))) i" by (simp add: bit_simps)
  with assms show False by (simp add: masks_disjoint_def)
qed

lemma masks_disjoint_cong:
  assumes "\<And>q. bitmask (heap s' q) = bitmask (heap s q)" and "\<And>q. port_type (heap s' q) = port_type (heap s q)"
  shows "masks_disjoint s' ps = masks_disjoint s ps"
  by (simp add: masks_disjoint_def assms)

lemma pending_bit: "is_lanner s p \<Longrightarrow> bit pend i \<Longrightarrow> bit (bitmask (heap s p)) i \<Longrightarrow> pending_port s pend p"
  unfolding pending_port_def by (metis bit_0_eq bit_and_iff bot_apply bot_bool_def)

text \<open>
  What the next write to the MCU and the reply to it do to one port whose command is
  registered.
\<close>

lemma ok_reply_one:
  assumes masks: "masks_disjoint s ps" and p: "p \<in> set ps" "is_lanner s p"
    and b: "bit (bitmask (heap s p)) i" "bit (pending_ports_mask (shared s l)) i"
  shows "bit (create_mcu_bitmask_loop s (pending_ports_mask (shared s l)) ps w) i \<longleftrightarrow>
           cmd_to_check (heap s p) \<noteq> CMD_ENABLE"
    and "heap (ok_reply_loop l ps s) p = ok_effect (heap s p)"
    and "bit (pending_ports_mask (shared (ok_reply_loop l ps s) l)) i \<longleftrightarrow> \<not> ok_finished (heap s p)"
    and "masks_disjoint (ok_reply_loop l ps s) ps"
proof -
  let ?pend = "pending_ports_mask (shared s l)"
  have pend: "pending_port s ?pend p" using pending_bit p(2) b by blast
  have others: "\<forall>q\<in>set ps. q \<noteq> p \<longrightarrow> is_lanner s q \<longrightarrow> \<not> bit (bitmask (heap s q)) i"
    using masks_disjoint_bit [OF masks p] b(1) by blast
  show "bit (create_mcu_bitmask_loop s ?pend ps w) i \<longleftrightarrow> cmd_to_check (heap s p) \<noteq> CMD_ENABLE"
    using create_mask_bit [OF p(1) _ pend b(1) others] masks by (simp add: masks_disjoint_def)
  note eff = ok_reply_loop_effect [OF masks refl, of l]
  show "heap (ok_reply_loop l ps s) p = ok_effect (heap s p)"
    using eff p(1) pend by simp
  show "masks_disjoint (ok_reply_loop l ps s) ps"
    using masks by (subst masks_disjoint_cong) (simp_all add: eff [THEN conjunct1])
  have "(\<exists>q\<in>set ps. pending_port s ?pend q \<and> ok_finished (heap s q) \<and> bit (bitmask (heap s q)) i) \<longleftrightarrow>
        ok_finished (heap s p)"
    using others p(1) pend b(1) by (auto simp: pending_port_def)
  then show "bit (pending_ports_mask (shared (ok_reply_loop l ps s) l)) i \<longleftrightarrow> \<not> ok_finished (heap s p)"
    using eff [THEN conjunct2, THEN spec, of i] b(2) by blast
qed

text \<open>
  A restart that was accepted: the first mask written has the port's bit set, the reply
  switches the port off and keeps its command pending; the second mask has the bit cleared,
  and the reply ends the restart.
\<close>

lemma lanner_cycle:
  assumes masks: "masks_disjoint s (port_list s)" and p: "p \<in> set (port_list s)" "is_lanner s p"
    and b: "bit (bitmask (heap s p)) i"
    and idle: "mcu_state (shared s l) \<in> {LANNER_MCU_IDLE, LANNER_MCU_PENDING}"
    and l: "l = shared_info (heap s p)"
  defines "s1 \<equiv> snd (lanner_update_port p CMD_RESTART s)"
  defines "s2 \<equiv> ok_reply_loop l (port_list s1) s1"
  defines "s3 \<equiv> ok_reply_loop l (port_list s2) s2"
  shows "bit (lanner_handler_create_mcu_bitmask l w s1) i"
    and "\<not> pwr_state (heap s2 p) \<and> \<not> enabled (heap s2 p) \<and> bit (pending_ports_mask (shared s2 l)) i"
    and "\<not> bit (lanner_handler_create_mcu_bitmask l w' s2) i"
    and "pwr_state (heap s3 p) \<and> enabled (heap s3 p) \<and> msg_mode (heap s3 p) = IDLE \<and>
         \<not> bit (pending_ports_mask (shared s3 l)) i"
proof -
  have h1: "heap s1 = (heap s)(p := (heap s p)\<lparr>cur_cmd := CMD_RESTART, restart_cmd := CMD_DISABLE, msg_mode := RESET\<rparr>)"
    and pend1: "pending_ports_mask (shared s1 l) = or (pending_ports_mask (shared s l)) (bitmask (heap s p))"
    and pl: "port_list s1 = port_list s" "port_list s2 = port_list s"
    using idle by (auto simp: s1_def s2_def lanner_update_port_def usb_monitor_start_itr_cb_def Let_def l)
  have m1: "masks_disjoint s1 (port_list s)" using masks by (subst masks_disjoint_cong) (auto simp: h1)
  have p1: "is_lanner s1 p" "bit (bitmask (heap s1 p)) i" "bit (pending_ports_mask (shared s1 l)) i"
    using p b by (auto simp: h1 pend1 bit_simps)
  note one = ok_reply_one [OF m1 p(1) p1(1,2,3)]
  have c1: "cmd_to_check (heap s1 p) = CMD_DISABLE" "\<not> ok_finished (heap s1 p)"
    by (simp_all add: h1 cmd_to_check_def ok_finished_def)
  show "bit (lanner_handler_create_mcu_bitmask l w s1) i"
    using one(1) c1 by (simp add: lanner_handler_create_mcu_bitmask_def pl)
  have h2: "heap s2 p = (heap s1 p)\<lparr>enabled := False, pwr_state := False, restart_cmd := CMD_ENABLE\<rparr>"
    using one(2) by (simp add: s2_def pl ok_effect_def cmd_to_check_def h1)
  have p2: "is_lanner s2 p" "bit (bitmask (heap s2 p)) i" "bit (pending_ports_mask (shared s2 l)) i"
    using p1 one(3) c1(2) by (simp_all add: h2) (simp add: s2_def pl)
  then show "\<not> pwr_state (heap s2 p) \<and> \<not> enabled (heap s2 p) \<and> bit (pending_ports_mask (shared s2 l)) i"
    by (simp add: h2)
  have m2: "masks_disjoint s2 (port_list s)" using one(4) by (simp add: s2_def pl)
  note two = ok_reply_one [OF m2 p(1) p2]
  have c2: "cmd_to_check (heap s2 p) = CMD_ENABLE" "ok_finished (heap s2 p)"
    by (simp_all add: h2 h1 cmd_to_check_def ok_finished_def)
  show "\<not> bit (lanner_handler_create_mcu_bitmask l w' s2) i"
    using two(1) c2 by (simp add: lanner_handler_create_mcu_bitmask_def pl)
  show "pwr_state (heap s3 p) \<and> enabled (heap s3 p) \<and> msg_mode (heap s3 p) = IDLE \<and>
         \<not> bit (pending_ports_mask (shared s3 l)) i"
    using two(2,3) c2 by (simp add: s3_def pl ok_effect_def)
qed

end
