(* ===== verification/Port_Dispatch.thy ===== *)
theory Port_Dispatch
  imports Gpio_Handler Ykush_Handler Generic_Handler Lanner_Handler
begin

section \<open>The function pointers of a port\<close>

text \<open>
  Every handler stores its own functions in the pointers \<open>update\<close> and \<open>timeout\<close> of its ports
  when it creates them, and \<open>port_type\<close> beside them, which generic ports leave 0. A call
  through a pointer is a call of the handler that the type names. The rest of usb_helpers.c,
  which calls through these pointers, follows.
\<close>

definition port_update :: "env \<Rightarrow> pid \<Rightarrow> u8 \<Rightarrow> sys \<Rightarrow> (int \<times> sys) result" where
  "port_update e p cmd s =
     (case port_type (heap s p) of
        PORT_TYPE_GPIO \<Rightarrow> gpio_update_port e p cmd s
      | PORT_TYPE_YKUSH \<Rightarrow> ykush_update_port e p cmd s
      | PORT_TYPE_LANNER \<Rightarrow> Inr (lanner_update_port p cmd s)
      | PORT_TYPE_UNKNOWN \<Rightarrow> generic_update_port e p cmd s)"

definition port_timeout :: "env \<Rightarrow> pid \<Rightarrow> sys \<Rightarrow> sys result" where
  "port_timeout e p s =
     (case port_type (heap s p) of
        PORT_TYPE_GPIO \<Rightarrow> gpio_handle_timeout e p s
      | PORT_TYPE_YKUSH \<Rightarrow> ykush_handle_timeout e p s
      | PORT_TYPE_LANNER \<Rightarrow> Inr (lanner_handle_timeout e p s)
      | PORT_TYPE_UNKNOWN \<Rightarrow> generic_timeout_port e p s)"

subsection \<open>The reply to a ping\<close>

definition usb_helpers_ping_cb :: "env \<Rightarrow> pid \<Rightarrow> bool \<Rightarrow> sys \<Rightarrow> sys result" where
  "usb_helpers_ping_cb e p completed s =
     (if \<not> enabled (heap s p) \<or> msg_mode (heap s p) \<noteq> PING then Inr s
      else if \<not> completed then
        if num_retrans (heap s p) = USB_RETRANS_LIMIT then
          let s = port_upd p (\<lambda>pt. pt\<lparr>num_retrans := 0\<rparr>) s
          in if msg_mode (heap s p) \<noteq> RESET then
               and_then (port_update e p CMD_RESTART s) (\<lambda>(r, s).
                 if r \<noteq> 0
                 then Inr (usb_helpers_start_timeout e p DEFAULT_TIMEOUT_SEC
                             (port_upd p (\<lambda>pt. pt\<lparr>num_retrans := USB_RETRANS_LIMIT\<rparr>) s))
                 else Inr s)
             else Inr (usb_helpers_start_timeout e p DEFAULT_TIMEOUT_SEC s)
        else
          Inr (usb_helpers_start_timeout e p DEFAULT_TIMEOUT_SEC
                 (port_upd p (\<lambda>pt. pt\<lparr>num_retrans := num_retrans pt + 1\<rparr>) s))
      else
        let s = port_upd p (\<lambda>pt. pt\<lparr>ping_cnt := ping_cnt pt + 1\<rparr>) s;
            s = (if ping_cnt (heap s p) = PING_OUTPUT
                 then port_upd p (\<lambda>pt. pt\<lparr>ping_cnt := 0\<rparr>) s else s);
            s = port_upd p (\<lambda>pt. pt\<lparr>num_retrans := 0\<rparr>) s
        in Inr (usb_helpers_start_timeout e p DEFAULT_TIMEOUT_SEC s))"

subsection \<open>Restarting all ports\<close>

fun reset_all_ports_loop :: "env \<Rightarrow> bool \<Rightarrow> pid list \<Rightarrow> sys \<Rightarrow> sys result" where
  "reset_all_ports_loop e forced [] s = Inr s"
| "reset_all_ports_loop e forced (itr # ps) s =
     (if msg_mode (heap s itr) = RESET \<or> \<not> enabled (heap s itr) \<or> msg_mode (heap s itr) = PROBE
      then reset_all_ports_loop e forced ps s
      else if forced \<or> status (heap s itr) = PORT_NO_DEV_CONNECTED
      then and_then (port_update e itr CMD_RESTART s) (\<lambda>(_, s). reset_all_ports_loop e forced ps s)
      else reset_all_ports_loop e forced ps s)"

definition usb_helpers_reset_all_ports :: "env \<Rightarrow> bool \<Rightarrow> sys \<Rightarrow> sys result" where
  "usb_helpers_reset_all_ports e forced s = reset_all_ports_loop e forced (port_list s) s"

text \<open>The handler of \<open>SIGUSR1\<close>. Signals are delivered between steps in the model.\<close>

definition usb_monitor_signal_handler :: "env \<Rightarrow> sys \<Rightarrow> sys result" where
  "usb_monitor_signal_handler e s = usb_helpers_reset_all_ports e True s"

text \<open>\<open>libusb_transfer\<close> callbacks, by the transfer that is done.\<close>

definition transfer_done :: "env \<Rightarrow> transfer \<Rightarrow> bool \<Rightarrow> sys \<Rightarrow> sys result" where
  "transfer_done e tr completed s =
     (case tr of
        Ping_Transfer p _ \<Rightarrow> usb_helpers_ping_cb e p completed s
      | Ykush_Transfer p _ _ Ykush_Enable_Cb \<Rightarrow> Inr (ykush_enable_cb p completed s)
      | Ykush_Transfer p _ _ Ykush_Disable_Cb \<Rightarrow> Inr (ykush_disable_cb p completed s)
      | Ykush_Transfer p _ _ Ykush_Reset_Cb \<Rightarrow> Inr (ykush_reset_cb e p completed s)
      | Generic_Transfer p _ _ _ \<Rightarrow> Inr (generic_update_cb e p completed s))"

subsection \<open>The contract\<close>

text \<open>Ports of hubs need their hub.\<close>

definition port_ready :: "usb_port \<Rightarrow> bool" where
  "port_ready pt \<longleftrightarrow>
     (port_type pt = PORT_TYPE_YKUSH \<or> port_type pt = PORT_TYPE_UNKNOWN \<longrightarrow> parent pt \<noteq> None)"

interpretation ports: port_handler port_update port_timeout port_ready
proof
  show "succeeds (port_update e p cmd s) (\<lambda>(r, s'). port_local p s xs s')"
    if "port_ready (heap s p)" "tq s xs" for e p cmd s xs
    using that gpio.update_local ykush.update_local generic.update_local lanner.update_local
    by (cases "port_type (heap s p)") (simp_all add: port_update_def port_ready_def)
  show "succeeds (port_timeout e p s) (port_local p s xs)"
    if "port_ready (heap s p)" "msg_mode (heap s p) \<noteq> PROBE" "tq s xs" "p \<notin> set xs" for e p s xs
    using that gpio.timeout_local ykush.timeout_local generic.timeout_local lanner.timeout_local
    by (cases "port_type (heap s p)") (simp_all add: port_timeout_def port_ready_def)
  show "port_ready (heap s' q)" if "only_port p s s'" "port_ready (heap s q)" for p q s s'
    using that by (simp add: port_ready_def only_port_parent only_port_type)
qed

subsection \<open>Restarting all ports, as a sequence\<close>

text \<open>
  Restarting all ports is one call of \<open>update\<close> for each port that could be restarted when it
  began; it succeeds, and no other port is changed.
\<close>

definition restartable :: "bool \<Rightarrow> usb_port \<Rightarrow> bool" where
  "restartable forced pt \<longleftrightarrow>
     enabled pt \<and> msg_mode pt \<noteq> RESET \<and> msg_mode pt \<noteq> PROBE \<and>
     (forced \<or> status pt = PORT_NO_DEV_CONNECTED)"

fun restart_each :: "env \<Rightarrow> pid list \<Rightarrow> sys \<Rightarrow> sys result" where
  "restart_each e [] s = Inr s"
| "restart_each e (p # ps) s =
     and_then (port_update e p CMD_RESTART s) (\<lambda>(_, s). restart_each e ps s)"

lemma reset_loop_restarts:
  assumes "tq s xs" and "distinct ps" and "\<forall>p\<in>set ps. port_ready (heap s p)"
  shows "reset_all_ports_loop e forced ps s =
           restart_each e (filter (\<lambda>p. restartable forced (heap s p)) ps) s"
  using assms
proof (induction ps arbitrary: s xs)
  case (Cons p ps)
  have "succeeds (port_update e p CMD_RESTART s) (\<lambda>(r, s'). port_local p s xs s')"
    using Cons.prems by (intro ports.update_local) auto
  then obtain r s1 where u: "port_update e p CMD_RESTART s = Inr (r, s1)" "port_local p s xs s1"
    by (auto simp: succeeds_iff)
  then obtain ys where s1: "only_port p s s1" "tq s1 ys" by (auto simp: port_local_def)
  have h: "heap s1 q = heap s q" if "q \<in> set ps" for q
    using s1(1) that Cons.prems(2) by (auto simp: only_port_def)
  then have "filter (\<lambda>q. restartable forced (heap s1 q)) ps = filter (\<lambda>q. restartable forced (heap s q)) ps"
    by (intro filter_cong) auto
  moreover have "reset_all_ports_loop e forced ps s1 =
      restart_each e (filter (\<lambda>q. restartable forced (heap s1 q)) ps) s1"
    using Cons.IH [OF s1(2)] Cons.prems h by simp
  moreover have "reset_all_ports_loop e forced ps s =
      restart_each e (filter (\<lambda>q. restartable forced (heap s q)) ps) s"
    using Cons.IH [OF Cons.prems(1)] Cons.prems by simp
  ultimately show ?case using u(1) by (auto simp: restartable_def)
qed simp

lemma restart_each_ok:
  assumes "tq s xs" and "\<forall>p\<in>set ps. port_ready (heap s p)"
  shows "succeeds (restart_each e ps s)
           (\<lambda>s'. (\<exists>ys. tq s' ys) \<and> (\<forall>q. q \<notin> set ps \<longrightarrow> heap s' q = heap s q) \<and> port_list s' = port_list s)"
  using assms
proof (induction ps arbitrary: s xs)
  case (Cons p ps)
  have "succeeds (port_update e p CMD_RESTART s) (\<lambda>(r, s'). port_local p s xs s')"
    using Cons.prems by (intro ports.update_local) auto
  then obtain r s1 where u: "port_update e p CMD_RESTART s = Inr (r, s1)" "port_local p s xs s1"
    by (auto simp: succeeds_iff)
  then obtain ys where s1: "only_port p s s1" "tq s1 ys" by (auto simp: port_local_def)
  have "\<forall>q\<in>set ps. port_ready (heap s1 q)"
    using Cons.prems(2) ports.ready_stable [OF s1(1)] by auto
  from Cons.IH [OF s1(2) this] show ?case
    using u(1) s1(1) by (auto simp: succeeds_iff only_port_def)
qed (auto simp: succeeds_iff)

end
