(* ===== verification/Monitor_Callbacks.thy ===== *)
theory Monitor_Callbacks
  imports Port_Dispatch
begin

section \<open>Devices, hubs and timeouts (usb_monitor_callbacks.c)\<close>

text \<open>
  What happens when libusb reports a device, and what the timers do. Adding a YKUSH hub
  walks the devices again, which may find another hub: the functions from
  \<open>usb_monitor_lists_add_hub\<close> to \<open>usb_monitor_cb\<close> call each other, and get the fuel \<open>n\<close> for
  the depth of these calls.
\<close>

subsection \<open>Devices\<close>

definition usb_device_added :: "env \<Rightarrow> dev \<Rightarrow> sys \<Rightarrow> sys result" where
  "usb_device_added e d s =
     (let (p, len) = usb_helpers_fill_port_array e d
      in and_then (usb_monitor_lists_find_port_path s p len) (\<lambda>port.
        case port of
          None \<Rightarrow> Inr s
        | Some port \<Rightarrow>
            if msg_mode (heap s port) \<noteq> PROBE \<and>
               (msg_mode (heap s port) = RESET \<or> \<not> enabled (heap s port)) then Inr s
            else if dev (heap s port) = Some d then Inr s
            else
              let s = port_upd port (\<lambda>pt. pt\<lparr>vid := id_vendor e d, pid := id_product e d,
                                            status := PORT_DEV_CONNECTED, dev := Some d\<rparr>) s;
                  s = sys_do e (Usb_Ref (Some d)) s
              in if msg_mode (heap s port) = PROBE then gpio_handler_handle_probe_connect e port s
                 else
                   let s = port_upd port (\<lambda>pt. pt\<lparr>msg_mode := PING\<rparr>) s;
                       s = usb_helpers_start_timeout e port ADDED_TIMEOUT_SEC s
                   in if usb_helpers_check_bad_id s port
                      then and_then (port_update e port CMD_RESTART s) (\<lambda>(_, s). Inr s)
                      else Inr s))"

definition usb_device_removed :: "env \<Rightarrow> dev \<Rightarrow> sys \<Rightarrow> sys result" where
  "usb_device_removed e d s =
     (let (p, len) = usb_helpers_fill_port_array e d
      in and_then (usb_monitor_lists_find_port_path s p len) (\<lambda>port.
           case port of None \<Rightarrow> Inr s | Some port \<Rightarrow> usb_helpers_reset_port e port s))"

definition is_ykush :: "env \<Rightarrow> dev \<Rightarrow> bool" where
  "is_ykush e d \<longleftrightarrow> id_vendor e d = YKUSH_VID \<and> (id_product e d = YKUSH_PID \<or> id_product e d = YKUSH_PID2)"

text \<open>
  The walk over the devices of the bus: \<open>added\<close> is what the generic callback does with an
  arrived device.
\<close>

fun each_device :: "(dev \<Rightarrow> sys \<Rightarrow> sys result) \<Rightarrow> dev list \<Rightarrow> sys \<Rightarrow> sys result" where
  "each_device added [] s = Inr s"
| "each_device added (d # ds) s = and_then (added d s) (each_device added ds)"

definition check_devices_with :: "(dev \<Rightarrow> sys \<Rightarrow> sys result) \<Rightarrow> env \<Rightarrow> sys \<Rightarrow> sys result" where
  "check_devices_with added e s =
     (let ds = device_list e (trace s);
          s = sys_do e Usb_Get_Device_List s
      in case ds of None \<Rightarrow> Inr s | Some ds \<Rightarrow> each_device added ds s)"

definition add_hub_with :: "(dev \<Rightarrow> sys \<Rightarrow> sys result) \<Rightarrow> env \<Rightarrow> hid \<Rightarrow> sys \<Rightarrow> sys result" where
  "add_hub_with added e h s = check_devices_with added e (usb_monitor_lists_insert_hub h s)"

definition ykush_add_device_with ::
  "(dev \<Rightarrow> sys \<Rightarrow> sys result) \<Rightarrow> env \<Rightarrow> dev \<Rightarrow> sys \<Rightarrow> sys result" where
  "ykush_add_device_with added e d s =
     (if usb_monitor_lists_find_hub s (parent_dev e d) \<noteq> None then Inr s
      else
        let (h, s) = ykush_alloc_hub e d s
        in case h of
             None \<Rightarrow> Inr s
           | Some h \<Rightarrow>
               let (n, s) = ykush_configure_hub e h s
               in if n = 0 then ykush_release_memory e h s else add_hub_with added e h s)"

definition usb_monitor_arrived_with ::
  "(dev \<Rightarrow> sys \<Rightarrow> sys result) \<Rightarrow> env \<Rightarrow> dev \<Rightarrow> sys \<Rightarrow> sys result" where
  "usb_monitor_arrived_with added e d s =
     and_then (usb_device_added e d s) (\<lambda>s.
       if is_ykush e d then ykush_add_device_with added e d s else Inr s)"

text \<open>The knot: a device that arrives, with calls nested at most \<open>n\<close> deep.\<close>

fun usb_monitor_arrived :: "nat \<Rightarrow> env \<Rightarrow> dev \<Rightarrow> sys \<Rightarrow> sys result" where
  "usb_monitor_arrived 0 e d s = Inl No_Fuel"
| "usb_monitor_arrived (Suc n) e d s = usb_monitor_arrived_with (usb_monitor_arrived n e) e d s"

definition usb_helpers_check_devices :: "nat \<Rightarrow> env \<Rightarrow> sys \<Rightarrow> sys result" where
  "usb_helpers_check_devices n e s = check_devices_with (usb_monitor_arrived n e) e s"

definition usb_monitor_lists_add_hub :: "nat \<Rightarrow> env \<Rightarrow> hid \<Rightarrow> sys \<Rightarrow> sys result" where
  "usb_monitor_lists_add_hub n e h s = add_hub_with (usb_monitor_arrived n e) e h s"

definition ykush_add_device :: "nat \<Rightarrow> env \<Rightarrow> dev \<Rightarrow> sys \<Rightarrow> sys result" where
  "ykush_add_device n e d s = ykush_add_device_with (usb_monitor_arrived n e) e d s"

definition ykush_event_cb :: "nat \<Rightarrow> env \<Rightarrow> bool \<Rightarrow> dev \<Rightarrow> sys \<Rightarrow> sys result" where
  "ykush_event_cb n e arrived d s =
     (if arrived then ykush_add_device n e d s else ykush_del_device e d s)"

definition usb_monitor_cb :: "nat \<Rightarrow> env \<Rightarrow> bool \<Rightarrow> dev \<Rightarrow> sys \<Rightarrow> sys result" where
  "usb_monitor_cb n e arrived d s =
     and_then (if arrived then usb_device_added e d s else usb_device_removed e d s) (\<lambda>s.
       if is_ykush e d then ykush_event_cb n e arrived d s else Inr s)"

definition generic_add_device :: "nat \<Rightarrow> env \<Rightarrow> dev \<Rightarrow> sys \<Rightarrow> sys result" where
  "generic_add_device n e d s =
     and_then (generic_prepare_hub e d s) (\<lambda>(h, s).
       case h of None \<Rightarrow> Inr s | Some h \<Rightarrow> usb_monitor_lists_add_hub n e h s)"

definition generic_event_cb :: "nat \<Rightarrow> env \<Rightarrow> bool \<Rightarrow> dev \<Rightarrow> sys \<Rightarrow> sys result" where
  "generic_event_cb n e arrived d s =
     (if id_vendor e d = 0x0424 \<and> id_product e d = 0x2514 then Inr s
      else if arrived then generic_add_device n e d s
      else generic_del_device e d s)"

subsection \<open>Events of libusb\<close>

definition usb_event_cb :: "nat \<Rightarrow> env \<Rightarrow> usb_event \<Rightarrow> sys \<Rightarrow> sys result" where
  "usb_event_cb n e ev s =
     (case ev of
        Device_Arrived d \<Rightarrow> usb_monitor_cb n e True d s
      | Device_Left d \<Rightarrow> usb_monitor_cb n e False d s
      | Transfer_Done tr completed \<Rightarrow> transfer_done e tr completed s)"

fun each_usb_event :: "nat \<Rightarrow> env \<Rightarrow> usb_event list \<Rightarrow> sys \<Rightarrow> sys result" where
  "each_usb_event n e [] s = Inr s"
| "each_usb_event n e (ev # evs) s = and_then (usb_event_cb n e ev s) (each_usb_event n e evs)"

text \<open>\<open>libusb_handle_events_timeout_completed\<close>: the callbacks of what is pending.\<close>

definition libusb_handle_events :: "nat \<Rightarrow> env \<Rightarrow> sys \<Rightarrow> sys result" where
  "libusb_handle_events n e s =
     (let s = sys_do e Usb_Unlock_Events s;
          evs = usb_events e (trace s);
          s = sys_do e Usb_Handle_Events s
      in and_then (each_usb_event n e evs s) (\<lambda>s. Inr (sys_do e Usb_Lock_Events s)))"

definition usb_monitor_usb_event_cb :: "nat \<Rightarrow> env \<Rightarrow> sys \<Rightarrow> sys result" where
  "usb_monitor_usb_event_cb n e s = libusb_handle_events n e s"

subsection \<open>Timeouts\<close>

text \<open>
  The walk over the pointers of the timeout list: the next pointer is read before the port
  leaves the list and its handler runs. \<open>tmo\<close> is the call through the port's pointer.
\<close>

fun check_timeouts_loop ::
  "(env \<Rightarrow> pid \<Rightarrow> sys \<Rightarrow> sys result) \<Rightarrow> env \<Rightarrow> u64 \<Rightarrow> nat \<Rightarrow> pid option \<Rightarrow> sys \<Rightarrow> sys result" where
  "check_timeouts_loop tmo e cur_time n None s = Inr s"
| "check_timeouts_loop tmo e cur_time 0 (Some p) s = Inl No_Fuel"
| "check_timeouts_loop tmo e cur_time (Suc n) (Some p) s =
     (let nxt = le_next (timeout_q s) p
      in if timeout_expire (heap s p) \<le> cur_time then
           and_then (usb_monitor_lists_del_timeout p s) (\<lambda>s.
             and_then
               (if enabled (heap s p) \<or> msg_mode (heap s p) = PROBE then tmo e p s
                else Inr s)
               (check_timeouts_loop tmo e cur_time n nxt))
         else check_timeouts_loop tmo e cur_time n nxt s)"

definition usb_monitor_check_timeouts :: "env \<Rightarrow> nat \<Rightarrow> sys \<Rightarrow> sys result" where
  "usb_monitor_check_timeouts e n s =
     (let (cur_time, s) = clock_gettime e s
      in check_timeouts_loop port_timeout e cur_time n (lh_first (timeout_q s)) s)"

definition usb_monitor_check_devices_cb :: "nat \<Rightarrow> env \<Rightarrow> sys \<Rightarrow> sys result" where
  "usb_monitor_check_devices_cb n e s = usb_helpers_check_devices n e s"

definition usb_monitor_check_reset_cb :: "env \<Rightarrow> sys \<Rightarrow> sys result" where
  "usb_monitor_check_reset_cb e s = usb_helpers_reset_all_ports e False s"

definition usb_monitor_1sec_timeout_cb :: "nat \<Rightarrow> env \<Rightarrow> sys \<Rightarrow> sys result" where
  "usb_monitor_1sec_timeout_cb n e s =
     and_then (libusb_handle_events n e s) (usb_monitor_check_timeouts e n)"

definition usb_monitor_libusb_fd_add :: "env \<Rightarrow> int \<Rightarrow> sys \<Rightarrow> sys" where
  "usb_monitor_libusb_fd_add e fd s = snd (backend_event_loop_update e (Epoll_Add fd) s)"

definition usb_monitor_libusb_fd_remove :: "env \<Rightarrow> int \<Rightarrow> sys \<Rightarrow> sys" where
  "usb_monitor_libusb_fd_remove e fd s = sys_do e (Close_Fd fd) s"

text \<open>The callback of the end of a turn. It is switched off after the MCU's update has begun.\<close>

definition usb_monitor_itr_cb :: "env \<Rightarrow> nat \<Rightarrow> sys \<Rightarrow> sys result" where
  "usb_monitor_itr_cb e n s =
     and_then (lanner_handler_itr_cb e n s) (\<lambda>s. Inr (usb_monitor_stop_itr_cb s))"

text \<open>The callbacks the timers are created with.\<close>

definition run_timer_cb :: "env \<Rightarrow> nat \<Rightarrow> timer_cb \<Rightarrow> sys \<Rightarrow> sys result" where
  "run_timer_cb e n f s =
     (case f of
        One_Sec_Cb \<Rightarrow> usb_monitor_1sec_timeout_cb n e s
      | Check_Devices_Cb \<Rightarrow> usb_monitor_check_devices_cb n e s
      | Check_Reset_Cb \<Rightarrow> usb_monitor_check_reset_cb e s
      | Lanner_Private_Cb \<Rightarrow> lanner_handle_private_timeout e n s)"

section \<open>Properties of the timeouts\<close>

text \<open>The run of the timeouts as a fold over a list of ports, without pointers.\<close>

fun fire_timeouts ::
  "(env \<Rightarrow> pid \<Rightarrow> sys \<Rightarrow> sys result) \<Rightarrow> env \<Rightarrow> u64 \<Rightarrow> pid list \<Rightarrow> sys \<Rightarrow> sys result" where
  "fire_timeouts tmo e cur [] s = Inr s"
| "fire_timeouts tmo e cur (p # ps) s =
     (if timeout_expire (heap s p) \<le> cur then
        and_then (usb_monitor_lists_del_timeout p s) (\<lambda>s.
          and_then
            (if enabled (heap s p) \<or> msg_mode (heap s p) = PROBE then tmo e p s else Inr s)
            (fire_timeouts tmo e cur ps))
      else fire_timeouts tmo e cur ps s)"

lemma only_port_heap: "only_port p s s' \<Longrightarrow> q \<noteq> p \<Longrightarrow> heap s' q = heap s q"
  by (simp add: only_port_def)

context port_handler
begin

text \<open>One port of the walk: what precedes it in the list may have grown, what follows has not changed.\<close>

lemma fire_one:
  assumes tq: "tq s (zs @ p # ps)" and ready: "ready (heap s p)" and mode: "msg_mode (heap s p) \<noteq> PROBE"
  obtains s1 s2 zs' where "usb_monitor_lists_del_timeout p s = Inr s1"
    and "(if enabled (heap s1 p) \<or> msg_mode (heap s1 p) = PROBE then tmo e p s1 else Inr s1) = Inr s2"
    and "tq s2 (zs' @ ps)" and "set zs' \<subseteq> insert p (set zs)" and "only_port p s s2"
    and "set zs \<subseteq> set zs'"
proof -
  have p: "p \<notin> set zs" "p \<notin> set ps" using tq_distinct [OF tq] by auto
  obtain q where q: "usb_monitor_lists_del_timeout p s = Inr (s\<lparr>timeout_q := q\<rparr>)"
      "lq_list q (zs @ ps)"
    using del_timeout_member [OF tq, of p] p by (auto simp: remove1_append)
  define s1 where "s1 = s\<lparr>timeout_q := q\<rparr>"
  have s1: "heap s1 = heap s" "tq s1 (zs @ ps)" "only_port p s s1"
    using q(2) by (simp_all add: s1_def tq_def)
  show thesis
  proof (cases "enabled (heap s1 p)")
    case False
    show thesis
      by (rule that [of s1 s1 zs]) (use q(1) False mode s1 in \<open>auto simp: s1_def\<close>)
  next
    case True
    have "succeeds (tmo e p s1) (port_local p s1 (zs @ ps))"
      by (rule timeout_local) (use ready mode s1 p in auto)
    then obtain s2 ys where s2: "tmo e p s1 = Inr s2" "only_port p s1 s2" "tq s2 ys"
        "local_tq p (zs @ ps) ys"
      by (auto simp: succeeds_iff port_local_def)
    have "ys = zs @ ps \<or> ys = (p # zs) @ ps"
      using s2(4) p by (auto simp: local_tq_def remove1_idem)
    moreover have "set zs \<subseteq> insert p (set zs)" "set (p # zs) \<subseteq> insert p (set zs)" "set zs \<subseteq> set (p # zs)" by auto
    ultimately obtain zs' where "ys = zs' @ ps" "set zs' \<subseteq> insert p (set zs)" "set zs \<subseteq> set zs'" by blast
    then show thesis
      using that [of s1 s2 zs'] q(1) s2 True s1 by (simp add: s1_def) (metis only_port_trans s1(3) s1_def)
  qed
qed

text \<open>
  The walk over the pointers visits each port of the list once, whatever the handlers put
  back; it returns, without a fault.
\<close>

lemma walk_fires:
  assumes "tq s (zs @ ps)" and "length ps < n"
    and "\<forall>p\<in>set ps. ready (heap s p) \<and> msg_mode (heap s p) \<noteq> PROBE"
  shows "check_timeouts_loop tmo e cur n (case ps of [] \<Rightarrow> None | p # _ \<Rightarrow> Some p) s =
           fire_timeouts tmo e cur ps s"
  using assms
proof (induction ps arbitrary: n s zs)
  case Nil
  then show ?case by (cases n) auto
next
  case (Cons p ps)
  obtain m where n: "n = Suc m" using Cons.prems(2) by (cases n) auto
  have nxt: "le_next (timeout_q s) p = (case ps of [] \<Rightarrow> None | p # _ \<Rightarrow> Some p)"
    using Cons.prems(1) unfolding tq_def by (rule lq_next)
  show ?case
  proof (cases "timeout_expire (heap s p) \<le> cur")
    case False
    then show ?thesis using Cons.IH [of s "zs @ [p]" m] Cons.prems by (simp add: n nxt)
  next
    case True
    obtain s1 s2 zs' where st: "usb_monitor_lists_del_timeout p s = Inr s1"
        "(if enabled (heap s1 p) \<or> msg_mode (heap s1 p) = PROBE then tmo e p s1 else Inr s1) = Inr s2"
        "tq s2 (zs' @ ps)" "only_port p s s2"
      using Cons.prems(1,3) by (auto elim: fire_one [where e = e])
    have "p \<notin> set ps" using tq_distinct [OF Cons.prems(1)] by simp
    then have "\<forall>q\<in>set ps. ready (heap s2 q) \<and> msg_mode (heap s2 q) \<noteq> PROBE"
      using Cons.prems(3) ready_stable [OF st(4)] only_port_heap [OF st(4)] by (metis list.set_intros(2))
    then have "check_timeouts_loop tmo e cur m (case ps of [] \<Rightarrow> None | p # _ \<Rightarrow> Some p) s2 =
        fire_timeouts tmo e cur ps s2"
      using Cons.IH [OF st(3)] Cons.prems(2) n by simp
    then show ?thesis using True by (simp only: n nxt check_timeouts_loop.simps fire_timeouts.simps
          Let_def if_True st(1,2) and_then_simps list.case)
  qed
qed

text \<open>What the run leaves behind.\<close>

lemma fire_result:
  assumes "tq s (zs @ ps)"
    and "\<forall>p\<in>set ps. ready (heap s p) \<and> msg_mode (heap s p) \<noteq> PROBE"
  shows "\<exists>s' ys. fire_timeouts tmo e cur ps s = Inr s' \<and> tq s' ys \<and> set ys \<subseteq> set zs \<union> set ps \<and>
           set zs \<subseteq> set ys \<and>
           (\<forall>p. (p \<in> set ps \<longrightarrow> cur < timeout_expire (heap s p)) \<longrightarrow> heap s' p = heap s p) \<and>
           (\<forall>p\<in>set ps. cur < timeout_expire (heap s p) \<longrightarrow> p \<in> set ys)"
  using assms
proof (induction ps arbitrary: s zs)
  case Nil
  then show ?case by auto
next
  case (Cons p ps)
  have p: "p \<notin> set ps" "p \<notin> set zs" using tq_distinct [OF Cons.prems(1)] by simp_all
  show ?case
  proof (cases "timeout_expire (heap s p) \<le> cur")
    case False
    then show ?thesis using Cons.IH [of s "zs @ [p]"] Cons.prems by auto
  next
    case True
    obtain s1 s2 zs' where st: "usb_monitor_lists_del_timeout p s = Inr s1"
        "(if enabled (heap s1 p) \<or> msg_mode (heap s1 p) = PROBE then tmo e p s1 else Inr s1) = Inr s2"
        "tq s2 (zs' @ ps)" "set zs' \<subseteq> insert p (set zs)" "only_port p s s2" "set zs \<subseteq> set zs'"
      using Cons.prems by (auto elim: fire_one [where e = e])
    have same: "heap s2 q = heap s q" if "q \<noteq> p" for q using only_port_heap [OF st(5) that] .
    have "\<forall>q\<in>set ps. ready (heap s2 q) \<and> msg_mode (heap s2 q) \<noteq> PROBE"
      using Cons.prems(2) ready_stable [OF st(5)] same p(1) by (metis list.set_intros(2))
    from Cons.IH [OF st(3) this] obtain s' ys where r: "fire_timeouts tmo e cur ps s2 = Inr s'"
        "tq s' ys" "set ys \<subseteq> set zs' \<union> set ps" "set zs' \<subseteq> set ys"
        "\<forall>p. (p \<in> set ps \<longrightarrow> cur < timeout_expire (heap s2 p)) \<longrightarrow> heap s' p = heap s2 p"
        "\<forall>p\<in>set ps. cur < timeout_expire (heap s2 p) \<longrightarrow> p \<in> set ys"
      by blast
    have "fire_timeouts tmo e cur (p # ps) s = Inr s'"
      using True by (simp only: fire_timeouts.simps if_True st(1,2) and_then_simps r(1))
    moreover have "set ys \<subseteq> set zs \<union> set (p # ps)" "set zs \<subseteq> set ys" using r(3,4) st(4,6) by auto
    moreover have "heap s' q = heap s q" if "q \<in> set (p # ps) \<longrightarrow> cur < timeout_expire (heap s q)" for q
    proof -
      have "q \<noteq> p" using that True by auto
      with that r(5) same show ?thesis by auto
    qed
    moreover have "q \<in> set ys" if "q \<in> set (p # ps)" "cur < timeout_expire (heap s q)" for q
    proof -
      have "q \<noteq> p" using that True by auto
      with that r(6) same show ?thesis by auto
    qed
    ultimately show ?thesis using r(2) by blast
  qed
qed

end

lemma clock_gettime_eq: "clock_gettime e s = (clock e (trace s), s\<lparr>trace := (Clock_Gettime, 0) # trace s\<rparr>)"
  by (simp add: clock_gettime_def)

text \<open>The contract of the handlers carries over to the monitor's walk.\<close>

lemma check_timeouts_fold:
  assumes "tq s xs" and "length xs < n"
    and "\<forall>p\<in>set xs. port_ready (heap s p) \<and> msg_mode (heap s p) \<noteq> PROBE"
  shows "usb_monitor_check_timeouts e n s =
           fire_timeouts port_timeout e (clock e (trace s)) xs (s\<lparr>trace := (Clock_Gettime, 0) # trace s\<rparr>)"
  using assms ports.walk_fires [of "s\<lparr>trace := (Clock_Gettime, 0) # trace s\<rparr>" "[]" xs n]
    lq_first [of "timeout_q s" xs]
  by (simp add: usb_monitor_check_timeouts_def clock_gettime_eq tq_def)

section \<open>Properties of the device callbacks\<close>

lemma reset_port_run:
  assumes "tq s xs"
  obtains s1 where "heap s1 = heap s" and "only_port p s s1" and "tq s1 xs"
    and "usb_helpers_reset_port e p s =
      and_then (if msg_mode (heap s p) \<noteq> RESET \<and> msg_mode (heap s p) \<noteq> PROBE then guarded_del_timeout p s1 else Inr s1)
        (\<lambda>s. Inr (port_upd p (\<lambda>pt. pt\<lparr>vid := 0, pid := 0, dev := None, dev_handle := None,
                                        status := PORT_NO_DEV_CONNECTED, num_retrans := 0\<rparr>) s))"
proof -
  define s1 where "s1 = (if status (heap s p) = PORT_DEV_CONNECTED
         then sys_do e (Usb_Unref (dev (heap s p)))
                (case dev_handle (heap s p) of None \<Rightarrow> s | Some h \<Rightarrow> sys_do e (Usb_Close h) s)
         else s)"
  show thesis
    by (rule that [of s1])
      (use assms in \<open>simp_all add: s1_def usb_helpers_reset_port_def Let_def guarded_del_timeout_def split: option.split\<close>)
qed

lemma reset_port_result:
  assumes tq: "tq s xs"
  shows "\<exists>s'. usb_helpers_reset_port e p s = Inr s' \<and> only_port p s s' \<and>
           tq s' (if msg_mode (heap s p) = RESET \<or> msg_mode (heap s p) = PROBE then xs else remove1 p xs) \<and>
           heap s' = (heap s)(p := (heap s p)\<lparr>vid := 0, pid := 0, dev := None, dev_handle := None,
                                            status := PORT_NO_DEV_CONNECTED, num_retrans := 0\<rparr>)"
proof -
  obtain s1 where s1: "heap s1 = heap s" "only_port p s s1" "tq s1 xs"
    and run: "usb_helpers_reset_port e p s =
      and_then (if msg_mode (heap s p) \<noteq> RESET \<and> msg_mode (heap s p) \<noteq> PROBE then guarded_del_timeout p s1 else Inr s1)
        (\<lambda>s. Inr (port_upd p (\<lambda>pt. pt\<lparr>vid := 0, pid := 0, dev := None, dev_handle := None,
                                        status := PORT_NO_DEV_CONNECTED, num_retrans := 0\<rparr>) s))"
    by (rule reset_port_run [OF tq, of p e])
  show ?thesis
  proof (cases "msg_mode (heap s p) = RESET \<or> msg_mode (heap s p) = PROBE")
    case True
    then show ?thesis using s1 by (auto simp: run)
  next
    case False
    obtain s2 where s2: "guarded_del_timeout p s1 = Inr s2" "tq s2 (remove1 p xs)" "s2 = s1\<lparr>timeout_q := timeout_q s2\<rparr>"
      using guarded_del_local [OF s1(3)] by blast
    have "heap s2 = heap s" "only_port p s s2" by (subst s2(3), simp add: s1)+
    then show ?thesis using False s2(1,2) by (auto simp: run)
  qed
qed

text \<open>A device on a path that no port has is ignored; else the port records it and waits.\<close>

definition can_take_device :: "usb_port \<Rightarrow> dev \<Rightarrow> bool" where
  "can_take_device pt d \<longleftrightarrow> msg_mode pt \<noteq> PROBE \<and> msg_mode pt \<noteq> RESET \<and> enabled pt \<and> dev pt \<noteq> Some d"

definition device_path :: "env \<Rightarrow> dev \<Rightarrow> u8 list" where
  "device_path e d = bus_number e d # port_numbers e d"

lemma find_device_port:
  assumes "\<forall>p\<in>set (port_list s). paths_intact (heap s p)" and "length (port_numbers e d) \<le> 7"
  shows "usb_monitor_lists_find_port_path s (fst (usb_helpers_fill_port_array e d)) (snd (usb_helpers_fill_port_array e d)) =
           Inr (List.find (\<lambda>p. device_path e d \<in> set (port_paths (path (heap s p)))) (port_list s))"
  using find_port_loop_intact [OF assms(1), of "device_path e d"] assms(2)
  by (simp add: usb_monitor_lists_find_port_path_def usb_helpers_fill_port_array_def device_path_def add.commute)

text \<open>A device that a port takes: the port records it, and its timeout is started whether or not it waits.\<close>

lemma device_added_run:
  assumes intact: "\<forall>p\<in>set (port_list s). paths_intact (heap s p)" and len: "length (port_numbers e d) \<le> 7"
    and found: "List.find (\<lambda>p. device_path e d \<in> set (port_paths (path (heap s p)))) (port_list s) = Some p"
    and can: "can_take_device (heap s p) d"
    and bad: "\<not> list_ex (\<lambda>(v, i). id_vendor e d = v \<and> id_product e d = i)
                 (take (unat (num_bad_device_ids s)) (bad_device_ids s))"
  defines "s1 \<equiv> port_upd p (\<lambda>pt. pt\<lparr>msg_mode := PING\<rparr>) (sys_do e (Usb_Ref (Some d))
     (port_upd p (\<lambda>pt. pt\<lparr>vid := id_vendor e d, pid := id_product e d, status := PORT_DEV_CONNECTED, dev := Some d\<rparr>) s))"
  shows "usb_device_added e d s = Inr (usb_helpers_start_timeout e p ADDED_TIMEOUT_SEC s1)"
proof -
  have "\<not> usb_helpers_check_bad_id (usb_helpers_start_timeout e p ADDED_TIMEOUT_SEC s1) p"
    using bad by (simp add: usb_helpers_check_bad_id_def s1_def)
  then show ?thesis
    using find_device_port [OF intact len] found can
    by (simp add: usb_device_added_def case_prod_beta can_take_device_def s1_def Let_def)
qed

lemma device_added_result:
  assumes intact: "\<forall>p\<in>set (port_list s). paths_intact (heap s p)" and len: "length (port_numbers e d) \<le> 7"
    and found: "List.find (\<lambda>p. device_path e d \<in> set (port_paths (path (heap s p)))) (port_list s) = Some p"
    and can: "can_take_device (heap s p) d" and tq: "tq s xs" "p \<notin> set xs"
    and bad: "\<not> list_ex (\<lambda>(v, i). id_vendor e d = v \<and> id_product e d = i)
                 (take (unat (num_bad_device_ids s)) (bad_device_ids s))"
  shows "\<exists>s' ex. usb_device_added e d s = Inr s' \<and> tq s' (p # xs) \<and>
           heap s' = (heap s)(p := (heap s p)\<lparr>vid := id_vendor e d, pid := id_product e d,
             status := PORT_DEV_CONNECTED, dev := Some d, msg_mode := PING, timeout_expire := ex\<rparr>)"
  using device_added_run [OF intact len found can bad] tq by (auto simp: start_timeout_tq)

subsection \<open>A failed restart after a failed ping\<close>

lemma walk_self_loop:
  assumes "le_next (timeout_q s) p = Some p" and "cur < timeout_expire (heap s p)"
  shows "check_timeouts_loop tmo e cur n (Some p) s = Inl No_Fuel"
proof -
  have "\<not> timeout_expire (heap s p) \<le> cur" using assms(2) by simp
  then show ?thesis using assms(1) by (induction n) (simp_all add: Let_def)
qed

lemma check_self_loop:
  assumes "lh_first (timeout_q s) = Some p" and "le_next (timeout_q s) p = Some p"
    and "clock e (trace s) < timeout_expire (heap s p)"
  shows "usb_monitor_check_timeouts e n s = Inl No_Fuel"
  using assms walk_self_loop [of "s\<lparr>trace := (Clock_Gettime, 0) # trace s\<rparr>" p]
  by (simp add: usb_monitor_check_timeouts_def clock_gettime_eq)

text \<open>
  A GPIO port whose pin cannot be written: the failed restart has started the timeout
  already, and the callback of the ping starts it once more. The walk over the timeouts does
  not end while the port has not expired.
\<close>

lemma ping_failed_restart:
  assumes gpio: "is_gpio s p" and tq: "tq s xs" and en: "enabled (heap s p)"
    and ping: "msg_mode (heap s p) = PING" "num_retrans (heap s p) = USB_RETRANS_LIMIT"
    and fails: "\<And>tr f. answer e tr (Open_File f) = -1"
  shows "\<exists>s'. usb_helpers_ping_cb e p False s = Inr s' \<and> lh_first (timeout_q s') = Some p \<and>
           le_next (timeout_q s') p = Some p \<and>
           (\<forall>n. clock e (trace s') < timeout_expire (heap s' p) \<longrightarrow>
                usb_monitor_check_timeouts e n s' = Inl No_Fuel)"
proof -
  define s0 where "s0 = port_upd p (\<lambda>pt. pt\<lparr>num_retrans := 0\<rparr>) s"
  have tq0: "tq s0 xs" and en0: "enabled (heap s0 p)" using tq en by (simp_all add: s0_def)
  have p: "p \<notin> set (remove1 p xs)" using tq_distinct [OF tq] by simp
  have neg: "fst (gpio_write_value e p v s1) = -1" for v s1
    by (simp add: gpio_write_value_def sys_call_eq fails Let_def)
  obtain s1 where s1: "guarded_del_timeout p (port_upd p (\<lambda>pt. pt\<lparr>msg_mode := RESET\<rparr>) s0) = Inr s1"
      "tq s1 (remove1 p xs)" "s1 = (port_upd p (\<lambda>pt. pt\<lparr>msg_mode := RESET\<rparr>) s0)\<lparr>timeout_q := timeout_q s1\<rparr>"
    using guarded_del_local [of "port_upd p (\<lambda>pt. pt\<lparr>msg_mode := RESET\<rparr>) s0" xs p] tq0 by auto
  obtain t where t: "gpio_write_value e p (if pwr_state (heap s1 p) then off_val (heap s1 p) else on_val (heap s1 p)) s1 =
      (-1, s1\<lparr>trace := t\<rparr>)"
    using gpio_write_value_shape [of e p _ s1] neg by (metis (no_types))
  define s2 where "s2 = usb_helpers_start_timeout e p DEFAULT_TIMEOUT_SEC (s1\<lparr>trace := t\<rparr>)"
  define s3 where "s3 = port_upd p (\<lambda>pt. pt\<lparr>num_retrans := USB_RETRANS_LIMIT\<rparr>) s2"
  have s3: "tq s3 (p # remove1 p xs)"
    unfolding s3_def s2_def using start_timeout_tq [of "s1\<lparr>trace := t\<rparr>" "remove1 p xs" p] s1(2) p by simp
  have upd: "port_update e p CMD_RESTART s0 = Inr (-1, s2)"
    using gpio en0 s1(1) t by (simp add: port_update_def gpio_update_port_def s0_def s2_def)
  define s4 where "s4 = usb_helpers_start_timeout e p DEFAULT_TIMEOUT_SEC s3"
  have run: "usb_helpers_ping_cb e p False s = Inr s4"
    using en ping upd by (simp add: usb_helpers_ping_cb_def s0_def s3_def s4_def Let_def)
  have loop: "lh_first (timeout_q s4) = Some p" "le_next (timeout_q s4) p = Some p"
    using start_timeout_twice [OF s3, of e DEFAULT_TIMEOUT_SEC] by (simp_all add: s4_def)
  with run check_self_loop [OF loop] show ?thesis by blast
qed

end
