(* ===== verification/Configuration.thy ===== *)
theory Configuration
  imports Monitor_Callbacks
begin

section \<open>Reading the configuration (usb_monitor.c and the handlers)\<close>

text \<open>
  From the text of the configuration file to the ports. JSON's null is a NULL pointer in
  json-c; the parsing functions keep their variables from one entry of an array to the
  next, and so do the loops here: their variables are arguments.
\<close>

fun is_object :: "json \<Rightarrow> bool" where "is_object (JObject _) = True" | "is_object _ = False"
fun is_array :: "json \<Rightarrow> bool" where "is_array (JArray _) = True" | "is_array _ = False"
fun is_int :: "json \<Rightarrow> bool" where "is_int (JInt _) = True" | "is_int _ = False"
fun is_string :: "json \<Rightarrow> bool" where "is_string (JString _) = True" | "is_string _ = False"
fun is_boolean :: "json \<Rightarrow> bool" where "is_boolean (JBool _) = True" | "is_boolean _ = False"

text \<open>A value as the pointer that json-c returns for it.\<close>

definition json_ptr :: "json \<Rightarrow> json option" where
  "json_ptr j = (if j = JNull then None else Some j)"

definition jint_u8 :: "env \<Rightarrow> json \<Rightarrow> u8" where
  "jint_u8 e v = word_of_int (json_object_get_int (jlib e) v)"

definition strdup_call :: "env \<Rightarrow> string option \<Rightarrow> sys \<Rightarrow> (string option \<times> sys) result" where
  "strdup_call e txt s =
     (case txt of
        None \<Rightarrow> Inl Null_Deref
      | Some txt \<Rightarrow>
          let (r, s) = sys_call e Strdup s in Inr (if r = 0 then None else Some txt, s))"

subsection \<open>GPIO ports\<close>

text \<open>The comparison is with \<open>port_num\<close>; both the number and the parameter have eight bits.\<close>

definition gpio_handler_get_port :: "sys \<Rightarrow> u8 \<Rightarrow> pid option" where
  "gpio_handler_get_port s num =
     List.find (\<lambda>itr. is_gpio s itr \<and> port_num (heap s itr) = num) (port_list s)"

definition gpio_handler_create_port ::
  "env \<Rightarrow> u16 \<Rightarrow> u8 \<Rightarrow> u8 \<Rightarrow> string option \<Rightarrow> sys \<Rightarrow> pid option \<times> sys" where
  "gpio_handler_create_port e num on off file s =
     (let (r, s) = sys_call e Calloc s
      in if r = 0 then (None, s)
         else
           let p = next_pid s
           in (Some p,
               port_upd p (\<lambda>_. zero_port\<lparr>port_type := PORT_TYPE_GPIO, gpio_path := file,
                                        gpio_num := num, on_val := on, off_val := off\<rparr>)
                 (s\<lparr>next_pid := Suc p\<rparr>)))"

text \<open>The return values are 0 on success and 1 on failure.\<close>

definition gpio_handler_add_port_gpio_path ::
  "env \<Rightarrow> u8 list \<Rightarrow> u8 \<Rightarrow> u8 \<Rightarrow> u8 \<Rightarrow> string option \<Rightarrow> sys \<Rightarrow> (u8 \<times> sys) result" where
  "gpio_handler_add_port_gpio_path e dev_path len on off file s =
     and_then (strdup_call e file s) (\<lambda>(copy, s).
       case copy of
         None \<Rightarrow> Inr (1, s)
       | Some copy \<Rightarrow>
           let (p, s) = gpio_handler_create_port e 0 on off (Some copy) s
           in case p of
                None \<Rightarrow> Inr (1, s)
              | Some p \<Rightarrow>
                  let (r, s) = usb_helpers_configure_port e p dev_path len 0 None s
                  in Inr (if r \<noteq> 0 then 1 else 0, s))"

definition gpio_handler_add_port_gpio_num ::
  "env \<Rightarrow> u16 \<Rightarrow> u8 list \<Rightarrow> u8 \<Rightarrow> sys \<Rightarrow> u8 \<times> sys" where
  "gpio_handler_add_port_gpio_num e num dev_path len s =
     (case gpio_handler_get_port s (ucast num) of
        Some p \<Rightarrow>
          let (retval, s) = usb_helpers_port_add_path e p dev_path len s
          in if retval \<noteq> 0 then (1, sys_do e Free_Mem s) else (retval, s)
      | None \<Rightarrow>
          let (p, s) =
                gpio_handler_create_port e num GPIO_DEFAULT_ON_VAL GPIO_DEFAULT_OFF_VAL None s
          in case p of
               None \<Rightarrow> (1, s)
             | Some p \<Rightarrow>
                 let (retval, s) = usb_helpers_configure_port e p dev_path len (ucast num) None s
                 in if retval \<noteq> 0 then (1, sys_do e Free_Mem s) else (retval, s))"

definition gpio_handler_add_port ::
  "env \<Rightarrow> string \<Rightarrow> u8 \<Rightarrow> u8 \<Rightarrow> u8 \<Rightarrow> string option \<Rightarrow> sys \<Rightarrow> (u8 \<times> sys) result" where
  "gpio_handler_add_port e txt num on off file s =
     (case usb_helpers_convert_char_to_path txt of
        None \<Rightarrow> Inr (1, s)
      | Some dev_path \<Rightarrow>
          let len = of_nat (length dev_path)
          in if num \<noteq> 0 then Inr (gpio_handler_add_port_gpio_num e (ucast num) dev_path len s)
             else gpio_handler_add_port_gpio_path e dev_path len on off file s)"

text \<open>The variables of \<open>gpio_handler_parse_json\<close> that live across the entries.\<close>

record gpio_vars =
  gv_path_array :: "json option"
  gv_num :: u16
  gv_on :: u8
  gv_off :: u8
  gv_path :: "string option"
  gv_unknown :: bool

definition gpio_vars_init :: gpio_vars where
  "gpio_vars_init = \<lparr>gv_path_array = None, gv_num = 0, gv_on = GPIO_DEFAULT_ON_VAL,
                     gv_off = GPIO_DEFAULT_OFF_VAL, gv_path = None, gv_unknown = False\<rparr>"

fun gpio_entry :: "env \<Rightarrow> (string \<times> json) list \<Rightarrow> gpio_vars \<Rightarrow> gpio_vars" where
  "gpio_entry e [] v = v"
| "gpio_entry e ((key, j) # ms) v =
     (if key = ''path'' \<and> is_array j then gpio_entry e ms (v\<lparr>gv_path_array := Some j\<rparr>)
      else if key = ''gpio_num'' \<and> is_int j
      then gpio_entry e ms (v\<lparr>gv_num := ucast (jint_u8 e j)\<rparr>)
      else if key = ''on_val'' \<and> is_int j then gpio_entry e ms (v\<lparr>gv_on := jint_u8 e j\<rparr>)
      else if key = ''off_val'' \<and> is_int j then gpio_entry e ms (v\<lparr>gv_off := jint_u8 e j\<rparr>)
      else if key = ''gpio_path'' \<and> is_string j
      then gpio_entry e ms (v\<lparr>gv_path := json_object_get_string (jlib e) j\<rparr>)
      else v\<lparr>gv_unknown := True\<rparr>)"

text \<open>The loop over the paths of an entry: copy the text, add the port, free the copy.\<close>

fun gpio_add_paths :: "env \<Rightarrow> gpio_vars \<Rightarrow> json list \<Rightarrow> sys \<Rightarrow> (u8 \<times> sys) result" where
  "gpio_add_paths e v [] s = Inr (0, s)"
| "gpio_add_paths e v (j # js) s =
     and_then (strdup_call e (json_object_get_string (jlib e) j) s) (\<lambda>(txt, s).
       case txt of
         None \<Rightarrow> Inr (1, s)
       | Some txt \<Rightarrow>
           and_then (gpio_handler_add_port e txt (ucast (gv_num v)) (gv_on v) (gv_off v) (gv_path v) s)
             (\<lambda>(r, s). if r \<noteq> 0 then Inr (1, sys_do e Free_Mem s)
                       else gpio_add_paths e v js (sys_do e Free_Mem s)))"

fun gpio_parse_entries :: "env \<Rightarrow> json list \<Rightarrow> gpio_vars \<Rightarrow> sys \<Rightarrow> (u8 \<times> sys) result" where
  "gpio_parse_entries e [] v s = Inr (0, s)"
| "gpio_parse_entries e (j # js) v s =
     and_then (json_members j) (\<lambda>ms.
       let v = gpio_entry e ms v
       in if gv_unknown v then Inr (1, s)
          else case gv_path_array v of
            None \<Rightarrow> Inr (1, s)
          | Some arr \<Rightarrow>
              and_then (json_elements arr) (\<lambda>paths.
                if paths = [] \<or> (gv_num v = 0 \<and> gv_path v = None) \<or>
                   (gv_num v \<noteq> 0 \<and> gv_path v \<noteq> None)
                then Inr (1, s)
                else
                  and_then (gpio_add_paths e v paths s) (\<lambda>(r, s).
                    if r \<noteq> 0 then Inr (1, s) else gpio_parse_entries e js v s)))"

definition gpio_handler_parse_json :: "env \<Rightarrow> json \<Rightarrow> sys \<Rightarrow> (u8 \<times> sys) result" where
  "gpio_handler_parse_json e json s =
     and_then (json_elements json) (\<lambda>js. gpio_parse_entries e js gpio_vars_init s)"

subsection \<open>Lanner ports\<close>

text \<open>
  \<open>1 << (bit - 1)\<close> is undefined for a bit that is 0 or more than 32; it leaves nothing of
  the mask in eight bits for a bit from 9 up.
\<close>

definition lanner_handler_add_port ::
  "env \<Rightarrow> string \<Rightarrow> u8 \<Rightarrow> nat \<Rightarrow> sys \<Rightarrow> (u8 \<times> sys) result" where
  "lanner_handler_add_port e txt b l s =
     (case usb_helpers_convert_char_to_path txt of
        None \<Rightarrow> Inr (1, s)
      | Some dev_path \<Rightarrow>
          let (r, s) = sys_call e Calloc s
          in if r = 0 then Inr (1, s)
             else if b = 0 \<or> 32 < b then Inl Out_Of_Bounds
             else
               let p = next_pid s;
                   s = s\<lparr>next_pid := Suc p\<rparr>;
                   s = port_upd p (\<lambda>_. zero_port\<lparr>port_type := PORT_TYPE_LANNER, shared_info := l,
                         bitmask := push_bit (unat b - 1) 1\<rparr>) s;
                   (r, s) = usb_helpers_configure_port e p dev_path (of_nat (length dev_path)) 0 None s
               in if r \<noteq> 0 then Inr (1, sys_do e Free_Mem s) else Inr (0, s))"

record lanner_vars =
  lv_path_array :: "json option"
  lv_bit :: u8
  lv_unknown :: bool

definition lanner_vars_init :: lanner_vars where
  "lanner_vars_init = \<lparr>lv_path_array = None, lv_bit = 255, lv_unknown = False\<rparr>"

fun lanner_entry :: "env \<Rightarrow> (string \<times> json) list \<Rightarrow> lanner_vars \<Rightarrow> lanner_vars" where
  "lanner_entry e [] v = v"
| "lanner_entry e ((key, j) # ms) v =
     (if key = ''path'' \<and> is_array j then lanner_entry e ms (v\<lparr>lv_path_array := Some j\<rparr>)
      else if key = ''bit'' \<and> is_int j then lanner_entry e ms (v\<lparr>lv_bit := jint_u8 e j\<rparr>)
      else v\<lparr>lv_unknown := True\<rparr>)"

definition lanner_fail :: "env \<Rightarrow> nat \<Rightarrow> sys \<Rightarrow> u8 \<times> sys" where
  "lanner_fail e l s = (1, lanner_handler_cleanup_shared e l True True s)"

fun lanner_add_paths :: "env \<Rightarrow> u8 \<Rightarrow> nat \<Rightarrow> json list \<Rightarrow> sys \<Rightarrow> (u8 \<times> sys) result" where
  "lanner_add_paths e b l [] s = Inr (0, s)"
| "lanner_add_paths e b l (j # js) s =
     and_then (strdup_call e (json_object_get_string (jlib e) j) s) (\<lambda>(txt, s).
       case txt of
         None \<Rightarrow> Inr (lanner_fail e l s)
       | Some txt \<Rightarrow>
           and_then (lanner_handler_add_port e txt b l s) (\<lambda>(r, s).
             if r \<noteq> 0 then Inr (lanner_fail e l (sys_do e Free_Mem s))
             else lanner_add_paths e b l js (sys_do e Free_Mem s)))"

fun lanner_parse_entries ::
  "env \<Rightarrow> nat \<Rightarrow> json list \<Rightarrow> lanner_vars \<Rightarrow> sys \<Rightarrow> (u8 \<times> sys) result" where
  "lanner_parse_entries e l [] v s = Inr (0, s\<lparr>mcu_info := Some l\<rparr>)"
| "lanner_parse_entries e l (j # js) v s =
     and_then (json_members j) (\<lambda>ms.
       let v = lanner_entry e ms v
       in if lv_unknown v \<or> lv_bit v = 255 then Inr (lanner_fail e l s)
          else case lv_path_array v of
            None \<Rightarrow> Inr (lanner_fail e l s)
          | Some arr \<Rightarrow>
              and_then (json_elements arr) (\<lambda>paths.
                if paths = [] then Inr (lanner_fail e l s)
                else
                  and_then (lanner_add_paths e (lv_bit v) l paths s) (\<lambda>(r, s).
                    if r \<noteq> 0 then Inr (1, s) else lanner_parse_entries e l js v s)))"

definition zero_shared :: lanner_shared where
  "zero_shared =
     \<lparr>mcu_path = [], mcu_timeout_handle = 0, mcu_fd = 0, lock_fd = 0, mcu_state = LANNER_MCU_IDLE,
      pending_ports_mask = 0, cmd_buf = [], buf_input = zero_chars INPUT_SIZE, cmd_buf_strlen = 0,
      cmd_buf_progress = 0, input_progress = 0, mcu_bitmask = 0, mcu_bitmask_to_write = 0\<rparr>"

definition lanner_handler_parse_json ::
  "env \<Rightarrow> json \<Rightarrow> string option \<Rightarrow> string option \<Rightarrow> sys \<Rightarrow> (u8 \<times> sys) result" where
  "lanner_handler_parse_json e json mcu_path_org mcu_lock_path s =
     and_then (json_elements json) (\<lambda>js.
       case (mcu_path_org, mcu_lock_path) of
         (Some org, Some lock) \<Rightarrow>
           and_then (strdup_call e (Some org) s) (\<lambda>(copy, s).
             case copy of
               None \<Rightarrow> Inr (1, s)
             | Some copy \<Rightarrow>
                 let (r, s) = sys_call e Calloc s
                 in if r = 0 then Inr (1, sys_do e Free_Mem s)
                    else
                      let l = next_shared s;
                          s = s\<lparr>next_shared := Suc l\<rparr>;
                          s = shared_upd l (\<lambda>_. zero_shared\<lparr>mcu_path := copy\<rparr>) s;
                          (fd, s) = sys_call e (Open_File lock) s;
                          s = shared_upd l (\<lambda>sh. sh\<lparr>lock_fd := fd\<rparr>) s
                      in if fd < 0 then Inr (1, lanner_handler_cleanup_shared e l False False s)
                         else
                           and_then (backend_create_epoll_handle e s) (\<lambda>s.
                             and_then (backend_event_loop_add_timeout e 0 Lanner_Private_Cb 0 False s)
                               (\<lambda>(t, s). case t of
                                  None \<Rightarrow> Inr (1, lanner_handler_cleanup_shared e l False True s)
                                | Some t \<Rightarrow>
                                    lanner_parse_entries e l js lanner_vars_init
                                      (shared_upd l (\<lambda>sh. sh\<lparr>mcu_timeout_handle := t\<rparr>) s))))
       | _ \<Rightarrow> Inr (1, s))"

subsection \<open>The configuration file\<close>

text \<open>The variables of \<open>usb_monitor_parse_handlers\<close>; the first two are reset for every entry.\<close>

record handler_vars =
  hv_name :: "string option"
  hv_obj :: "json option"
  hv_mcu_path :: "string option"
  hv_mcu_lock_path :: "string option"
  hv_unknown :: bool

fun handler_entry :: "env \<Rightarrow> (string \<times> json) list \<Rightarrow> handler_vars \<Rightarrow> handler_vars" where
  "handler_entry e [] v = v"
| "handler_entry e ((key, j) # ms) v =
     (if key = ''name'' then handler_entry e ms (v\<lparr>hv_name := json_object_get_string (jlib e) j\<rparr>)
      else if key = ''ports'' then handler_entry e ms (v\<lparr>hv_obj := json_ptr j\<rparr>)
      else if key = ''mcu_path''
      then handler_entry e ms (v\<lparr>hv_mcu_path := json_object_get_string (jlib e) j\<rparr>)
      else if key = ''mcu_lock_path''
      then handler_entry e ms (v\<lparr>hv_mcu_lock_path := json_object_get_string (jlib e) j\<rparr>)
      else v\<lparr>hv_unknown := True\<rparr>)"

fun parse_handlers_loop :: "env \<Rightarrow> json list \<Rightarrow> handler_vars \<Rightarrow> sys \<Rightarrow> (u8 \<times> sys) result" where
  "parse_handlers_loop e [] v s = Inr (0, s)"
| "parse_handlers_loop e (j # js) v s =
     and_then (json_members j) (\<lambda>ms.
       let v = handler_entry e ms (v\<lparr>hv_name := None, hv_obj := None\<rparr>)
       in case (hv_name v, hv_obj v) of
            (Some name, Some obj) \<Rightarrow>
              if hv_unknown v then Inr (1, s)
              else
                and_then
                  (if name = ''GPIO'' then gpio_handler_parse_json e obj s
                   else if name = ''Lanner''
                   then lanner_handler_parse_json e obj (hv_mcu_path v) (hv_mcu_lock_path v) s
                   else Inr (1, s))
                  (\<lambda>(r, s). if r \<noteq> 0 then Inr (1, s) else parse_handlers_loop e js v s)
          | _ \<Rightarrow> Inr (1, s))"

definition usb_monitor_parse_handlers :: "env \<Rightarrow> json \<Rightarrow> sys \<Rightarrow> (u8 \<times> sys) result" where
  "usb_monitor_parse_handlers e handlers s =
     and_then (json_elements handlers) (\<lambda>js.
       parse_handlers_loop e js \<lparr>hv_name = None, hv_obj = None, hv_mcu_path = None,
                                 hv_mcu_lock_path = None, hv_unknown = False\<rparr> s)"

text \<open>One bad device; \<open>None\<close> for a value that is no integer and for an unknown key.\<close>

fun bad_entry :: "env \<Rightarrow> (string \<times> json) list \<Rightarrow> u16 \<times> u16 \<Rightarrow> (u16 \<times> u16) option" where
  "bad_entry e [] vp = Some vp"
| "bad_entry e ((key, j) # ms) (v, d) =
     (if \<not> is_int j then None
      else if key = ''vid'' then bad_entry e ms (word_of_int (json_object_get_int (jlib e) j), d)
      else if key = ''pid'' then bad_entry e ms (v, word_of_int (json_object_get_int (jlib e) j))
      else None)"

fun parse_bad_loop :: "env \<Rightarrow> nat \<Rightarrow> json list \<Rightarrow> sys \<Rightarrow> (u8 \<times> sys) result" where
  "parse_bad_loop e i [] s = Inr (0, s)"
| "parse_bad_loop e i (j # js) s =
     (if \<not> is_object j then Inr (1, s)
      else
        and_then (json_members j) (\<lambda>ms.
          case bad_entry e ms (0, 0) of
            None \<Rightarrow> Inr (1, s)
          | Some (v, d) \<Rightarrow>
              if v = 0 \<or> d = 0 then Inr (1, s)
              else parse_bad_loop e (Suc i) js
                     (s\<lparr>bad_device_ids := (bad_device_ids s)[i := (v, d)]\<rparr>)))"

definition usb_monitor_parse_bad_vid_pids :: "env \<Rightarrow> json \<Rightarrow> sys \<Rightarrow> (u8 \<times> sys) result" where
  "usb_monitor_parse_bad_vid_pids e bad_vid_pids s =
     and_then (json_elements bad_vid_pids) (\<lambda>js.
       let (r, s) = sys_call e Calloc s
       in if r = 0 then Inr (1, s\<lparr>bad_device_ids := []\<rparr>)
          else
            and_then (parse_bad_loop e 0 js (s\<lparr>bad_device_ids := replicate (length js) (0, 0)\<rparr>))
              (\<lambda>(r, s). if r \<noteq> 0 then Inr (1, s)
                        else Inr (0, s\<lparr>num_bad_device_ids := of_nat (length js)\<rparr>)))"

fun parse_config_loop :: "env \<Rightarrow> (string \<times> json) list \<Rightarrow> sys \<Rightarrow> (u8 \<times> sys) result" where
  "parse_config_loop e [] s = Inr (0, s)"
| "parse_config_loop e ((key, j) # ms) s =
     (if key = ''handlers'' then
        if \<not> is_array j then Inr (1, s)
        else and_then (usb_monitor_parse_handlers e j s) (\<lambda>(r, s).
               if r \<noteq> 0 then Inr (r, s) else parse_config_loop e ms s)
      else if key = ''disable_auto_restart'' then
        if \<not> is_boolean j then Inr (1, s)
        else parse_config_loop e ms (s\<lparr>disable_auto_restart := (j = JBool True)\<rparr>)
      else if key = ''bad_vid_pids'' then
        if \<not> is_array j then Inr (1, s)
        else and_then (usb_monitor_parse_bad_vid_pids e j s) (\<lambda>(r, s).
               if r \<noteq> 0 then Inr (r, s) else parse_config_loop e ms s)
      else parse_config_loop e ms s)"

text \<open>
  The file is read into a zeroed buffer of 1024 bytes; a file that fills it leaves the text
  without a terminator.
\<close>

definition usb_monitor_parse_config :: "env \<Rightarrow> string \<Rightarrow> sys \<Rightarrow> (u8 \<times> sys) result" where
  "usb_monitor_parse_config e config_file_name s =
     (let (f, s) = sys_call e (Fopen config_file_name) s
      in if f = 0 then Inr (1, s)
         else
           let bytes = take 1024 (input_data e (trace s));
               s = sys_do e Fread s;
               (err, s) = (if length bytes \<noteq> 1024 then sys_call e Ferror s else (0, s))
           in if err \<noteq> 0 then Inr (1, sys_do e Fclose s)
              else
                let s = sys_do e Fclose s
                in if length bytes = 1024 \<and> CHR 0x00 \<notin> set bytes then Inl Out_Of_Bounds
                   else case json_tokener_parse (jlib e) (cstr bytes) of
                     None \<Rightarrow> Inr (1, s)
                   | Some conf_json \<Rightarrow> and_then (json_members conf_json) (\<lambda>ms. parse_config_loop e ms s))"

end
