(* ===== verification/Client.thy ===== *)
theory Client
  imports Configuration
begin

section \<open>The REST interface (usb_monitor_client.c, http_utility.c)\<close>

text \<open>
  A client asks for the state of the ports or commands them. What the callbacks that the HTTP
  parser of theory \<open>Http_Parser\<close> makes do, and what is sent back, is here. A client's socket
  delivers its request in pieces.
\<close>

abbreviation MAX_REQUEST_SIZE :: nat where "MAX_REQUEST_SIZE \<equiv> 4096"
abbreviation HTTP_REPLY_HEADER_MAX_LEN :: nat where "HTTP_REPLY_HEADER_MAX_LEN \<equiv> 4096"

definition client_upd :: "nat \<Rightarrow> (http_client \<Rightarrow> http_client) \<Rightarrow> sys \<Rightarrow> sys" where
  "client_upd i f s = s\<lparr>clients := (clients s)(i := map_option f (clients s i))\<rparr>"

subsection \<open>Replies\<close>

abbreviation crlf :: string where "crlf \<equiv> [CHR 0x0D, CHR 0x0A]"

text \<open>\<open>snprintf\<close> returns the length of the whole text; what is stored is cut to the buffer.\<close>

definition insert_http_header :: "u8 \<Rightarrow> u8 \<Rightarrow> string" where
  "insert_http_header major minor =
     ''HTTP/'' @ dec (unat major) @ ''.'' @ dec (unat minor) @ '' 200 OK'' @ crlf @
     ''Content-Type: application/json'' @ crlf @ ''Connection: close'' @ crlf @ crlf"

definition insert_http_header_code :: "u8 \<Rightarrow> u8 \<Rightarrow> u16 \<Rightarrow> string" where
  "insert_http_header_code major minor code =
     ''HTTP/'' @ dec (unat major) @ ''.'' @ dec (unat minor) @ '' '' @ dec (unat code) @ crlf @
     ''Connection: close'' @ crlf @ crlf"

definition socket_utility_send :: "env \<Rightarrow> int \<Rightarrow> string \<Rightarrow> sys \<Rightarrow> int \<times> sys" where
  "socket_utility_send e fd txt s = sys_call e (Send fd txt) s"

definition usb_monitor_client_send_code :: "env \<Rightarrow> http_client \<Rightarrow> u16 \<Rightarrow> sys \<Rightarrow> sys" where
  "usb_monitor_client_send_code e c code s =
     snd (socket_utility_send e (client_fd c) (insert_http_header_code 1 0 code) s)"

subsection \<open>The state of the ports\<close>

fun msg_mode_num :: "port_msg \<Rightarrow> int" where
  "msg_mode_num IDLE = 0"
| "msg_mode_num PING = 1"
| "msg_mode_num RESET = 2"
| "msg_mode_num PROBE = 3"

text \<open>Several allocations of JSON values in a row: whether all of them succeeded.\<close>

fun json_allocs :: "env \<Rightarrow> nat \<Rightarrow> sys \<Rightarrow> bool \<times> sys" where
  "json_allocs e 0 s = (True, s)"
| "json_allocs e (Suc n) s =
     (let (ok, s) = json_alloc e s in if ok then json_allocs e n s else (False, s))"

text \<open>The object for one path of a port.\<close>

definition usb_monitor_client_add_paths_json ::
  "env \<Rightarrow> pid \<Rightarrow> nat \<Rightarrow> sys \<Rightarrow> (json option \<times> sys) result" where
  "usb_monitor_client_add_paths_json e p i s =
     (let pt = heap s p;
          (ok, s) = json_allocs e 4 s
      in if \<not> ok then Inr (None, s)
         else case path pt ! i of
           None \<Rightarrow> Inl Null_Deref
         | Some copy \<Rightarrow>
             and_then (usb_helpers_convert_path_char (char_signed e) copy (path_len pt ! i)) (\<lambda>r.
               let (ok, s) = json_allocs e 2 s
               in if \<not> ok then Inr (None, s)
                  else Inr (Some (JObject
                         [(''mode'', JInt (msg_mode_num (msg_mode pt))),
                          (''vid'', JInt (int (unat (vid pt)))),
                          (''pid'', JInt (int (unat (pid pt)))),
                          (''path'', JString (path_text r)),
                          (''enabled'', JInt (if enabled pt then 1 else 0))]), s)))"

text \<open>The paths of a port up to the first NULL.\<close>

fun port_paths_json :: "env \<Rightarrow> pid \<Rightarrow> nat \<Rightarrow> nat \<Rightarrow> sys \<Rightarrow> (json list option \<times> sys) result" where
  "port_paths_json e p 0 i s = Inr (Some [], s)"
| "port_paths_json e p (Suc n) i s =
     (if path (heap s p) ! i = None then Inr (Some [], s)
      else
        and_then (usb_monitor_client_add_paths_json e p i s) (\<lambda>(j, s).
          case j of
            None \<Rightarrow> Inr (None, s)
          | Some j \<Rightarrow> and_then (port_paths_json e p n (Suc i) s) (\<lambda>(js, s).
                        Inr (map_option (\<lambda>js. j # js) js, s))))"

fun ports_json :: "env \<Rightarrow> pid list \<Rightarrow> sys \<Rightarrow> (json list option \<times> sys) result" where
  "ports_json e [] s = Inr (Some [], s)"
| "ports_json e (itr # ps) s =
     and_then (port_paths_json e itr MAX_NUM_PATHS 0 s) (\<lambda>(js, s).
       case js of
         None \<Rightarrow> Inr (None, s)
       | Some js \<Rightarrow> and_then (ports_json e ps s) (\<lambda>(js', s).
                      Inr (map_option (\<lambda>js'. js @ js') js', s)))"

definition usb_monitor_client_get_json :: "env \<Rightarrow> sys \<Rightarrow> (json option \<times> sys) result" where
  "usb_monitor_client_get_json e s =
     (let (ok, s) = json_allocs e 2 s
      in if \<not> ok then Inr (None, s)
         else and_then (ports_json e (port_list s) s) (\<lambda>(js, s).
           Inr (map_option (\<lambda>js. JObject [(''ports'', JArray js)]) js, s)))"

definition usb_monitor_client_handle_get :: "env \<Rightarrow> http_client \<Rightarrow> sys \<Rightarrow> sys result" where
  "usb_monitor_client_handle_get e c s =
     and_then (usb_monitor_client_get_json e s) (\<lambda>(json_ports, s).
       case json_ports of
         None \<Rightarrow> Inr (usb_monitor_client_send_code e c 500 s)
       | Some json_ports \<Rightarrow>
           let (r, s) = socket_utility_send e (client_fd c) (insert_http_header 1 0) s
           in Inr (if 0 < r
                   then snd (socket_utility_send e (client_fd c) (json_to_string (jlib e) json_ports) s)
                   else s))"

subsection \<open>Commands\<close>

text \<open>The members of one entry: the text of the path and the command, cut to eight bits.\<close>

fun update_entry :: "env \<Rightarrow> (string \<times> json) list \<Rightarrow> string option \<times> u8 \<Rightarrow> string option \<times> u8" where
  "update_entry e [] pc = pc"
| "update_entry e ((key, j) # ms) (p, c) =
     (if key = ''path'' then update_entry e ms (json_object_get_string (jlib e) j, c)
      else if key = ''cmd'' then update_entry e ms (p, word_of_int (json_object_get_int (jlib e) j))
      else update_entry e ms (p, c))"

text \<open>
  One entry after its members are read: the value of \<open>failure\<close> and whether the loop goes on.
\<close>

definition update_one ::
  "env \<Rightarrow> string option \<Rightarrow> u8 \<Rightarrow> int \<Rightarrow> sys \<Rightarrow> ((int \<times> bool) \<times> sys) result" where
  "update_one e p cmd failure s =
     (case p of
        None \<Rightarrow> Inr ((1, False), s)
      | Some txt \<Rightarrow>
          if CMD_DISABLE < cmd then Inr ((1, False), s)
          else case usb_helpers_convert_char_to_path txt of
            None \<Rightarrow> Inr ((1, False), s)
          | Some dev_path \<Rightarrow>
              and_then (usb_monitor_lists_find_port_path s dev_path (of_nat (length dev_path)))
                (\<lambda>port. case port of
                   None \<Rightarrow> Inr ((failure, True), s)
                 | Some p \<Rightarrow>
                     if port_type (heap s p) = PORT_TYPE_GPIO \<and> msg_mode (heap s p) = PROBE
                     then Inr ((1, False), s)
                     else if cmd = CMD_ENABLE \<and> enabled (heap s p) \<or>
                             cmd = CMD_DISABLE \<and> \<not> enabled (heap s p)
                     then Inr ((failure, True), s)
                     else if cmd = CMD_RESTART \<and> msg_mode (heap s p) = RESET
                     then Inr ((failure, True), s)
                     else and_then (port_update e p cmd s) (\<lambda>(r, s). Inr ((r, True), s))))"

fun update_ports_loop :: "env \<Rightarrow> json list \<Rightarrow> int \<Rightarrow> sys \<Rightarrow> (int \<times> sys) result" where
  "update_ports_loop e [] failure s = Inr (failure, s)"
| "update_ports_loop e (j # js) failure s =
     and_then (json_members j) (\<lambda>ms.
       let (p, cmd) = update_entry e ms (None, 0)
       in and_then (update_one e p cmd failure s) (\<lambda>((failure, go), s).
            if go then update_ports_loop e js failure s else Inr (failure, s)))"

definition usb_monitor_client_update_ports :: "env \<Rightarrow> json \<Rightarrow> sys \<Rightarrow> (int \<times> sys) result" where
  "usb_monitor_client_update_ports e ports s =
     and_then (json_elements ports) (\<lambda>js. update_ports_loop e js 0 s)"

text \<open>
  The body is read as a C string from the buffer. A buffer that is full and has no zero
  leaves it without a terminator.
\<close>

definition body_text :: "http_client \<Rightarrow> nat \<Rightarrow> string result" where
  "body_text c off =
     (let b = drop off (recv_buf c)
      in if CHR 0x00 \<in> set b \<or> length (recv_buf c) < MAX_REQUEST_SIZE then Inr (cstr b)
         else Inl Out_Of_Bounds)"

text \<open>The reply to a command that was carried out.\<close>

definition post_reply :: "env \<Rightarrow> http_client \<Rightarrow> sys \<Rightarrow> sys result" where
  "post_reply e c s =
     (let s = snd (socket_utility_send e (client_fd c) (insert_http_header 1 0) s)
      in and_then (usb_monitor_client_get_json e s) (\<lambda>(ports, s).
           Inr (case ports of
                  None \<Rightarrow> s
                | Some ports \<Rightarrow>
                    snd (socket_utility_send e (client_fd c) (json_to_string (jlib e) ports) s))))"

definition usb_monitor_client_handle_post :: "env \<Rightarrow> http_client \<Rightarrow> sys \<Rightarrow> sys result" where
  "usb_monitor_client_handle_post e c s =
     (case body_offset c of
        None \<Rightarrow> Inr (usb_monitor_client_send_code e c 400 s)
      | Some off \<Rightarrow>
          and_then (body_text c off) (\<lambda>txt.
            case json_tokener_parse (jlib e) txt of
              None \<Rightarrow> Inr (usb_monitor_client_send_code e c 400 s)
            | Some json_obj \<Rightarrow>
                and_then (json_members json_obj) (\<lambda>ms.
                  case map_of ms ''ports'' of
                    None \<Rightarrow> Inr (usb_monitor_client_send_code e c 400 s)
                  | Some ports \<Rightarrow>
                      if \<not> is_array ports then Inr (usb_monitor_client_send_code e c 400 s)
                      else
                        and_then (usb_monitor_client_update_ports e ports s) (\<lambda>(retval, s).
                          if retval \<noteq> 0 then
                            Inr (usb_monitor_client_send_code e c
                                   (if 100 < retval then word_of_int retval else 400) s)
                          else post_reply e c s))))"

subsection \<open>The callbacks of the parser and of the socket\<close>

definition with_client :: "nat \<Rightarrow> sys \<Rightarrow> (http_client \<Rightarrow> sys result) \<Rightarrow> sys result" where
  "with_client i s f = (case clients s i of None \<Rightarrow> Inl Null_Deref | Some c \<Rightarrow> f c)"

definition usb_monitor_client_on_body :: "nat \<Rightarrow> nat \<Rightarrow> sys \<Rightarrow> sys" where
  "usb_monitor_client_on_body i at s =
     client_upd i (\<lambda>c. if body_offset c = None then c\<lparr>body_offset := Some at\<rparr> else c) s"

definition usb_monitor_client_on_complete :: "env \<Rightarrow> nat \<Rightarrow> http_method \<Rightarrow> sys \<Rightarrow> sys result" where
  "usb_monitor_client_on_complete e i m s =
     with_client i s (\<lambda>c.
       and_then
         (if m = HTTP_GET then usb_monitor_client_handle_get e c s
          else if m = HTTP_POST then usb_monitor_client_handle_post e c s
          else Inr (usb_monitor_client_send_code e c 405 s))
         (\<lambda>s. Inr (client_upd i (\<lambda>c. c\<lparr>req_done := True\<rparr>) s)))"

text \<open>
  The callbacks do not touch the parser, so they run after it on the list of those it makes, which
  holds only those that \<open>client_settings\<close> has.
\<close>

fun http_events :: "env \<Rightarrow> nat \<Rightarrow> http_event list \<Rightarrow> sys \<Rightarrow> sys result" where
  "http_events e i [] s = Inr s"
| "http_events e i (On_Body at n # evs) s = http_events e i evs (usb_monitor_client_on_body i at s)"
| "http_events e i (On_Message_Complete m # evs) s =
     and_then (usb_monitor_client_on_complete e i m s) (http_events e i evs)"
| "http_events e i (_ # evs) s = http_events e i evs s"

definition usb_monitor_client_close :: "env \<Rightarrow> nat \<Rightarrow> sys \<Rightarrow> sys result" where
  "usb_monitor_client_close e i s =
     with_client i s (\<lambda>c.
       Inr ((sys_do e (Close_Fd (client_fd c)) s)
              \<lparr>clients_map := xor (clients_map s) (push_bit (unat (idx c)) 1)\<rparr>))"

text \<open>
  Every call of the parser starts at the beginning of the buffer, not at the new bytes.
\<close>

definition usb_monitor_client_cb :: "env \<Rightarrow> nat \<Rightarrow> sys \<Rightarrow> sys result" where
  "usb_monitor_client_cb e i s =
     with_client i s (\<lambda>c.
       let bytes = take (MAX_REQUEST_SIZE - unat (recv_progress c)) (input_data e (trace s));
           (r, s) = sys_call e (Recv (client_fd c)) s;
           numbytes = (if r \<le> 0 then r else int (length bytes))
       in if numbytes \<le> 0 then usb_monitor_client_close e i s
          else
            let buf = recv_buf c @ bytes;
                chunk = take (nat numbytes) buf
            in and_then (http_parser_execute client_settings (parser c) chunk) (\<lambda>(p, evs, numbytes_parsed).
                 let s = client_upd i (\<lambda>c. c\<lparr>recv_buf := buf,
                                            recv_progress := recv_progress c + of_int numbytes,
                                            parser := p\<rparr>) s
                 in and_then (http_events e i evs s) (\<lambda>s.
                      with_client i s (\<lambda>c.
                        if int numbytes_parsed \<noteq> numbytes \<or> http_errno (parser c) \<noteq> HPE_OK
                        then usb_monitor_client_close e i s
                        else if unat (recv_progress c) = MAX_REQUEST_SIZE \<and> \<not> req_done c
                        then usb_monitor_client_close e i s
                        else if req_done c then usb_monitor_client_close e i s
                        else Inr s))))"

section \<open>Properties of the REST interface\<close>

subsection \<open>Commands\<close>

lemma json_lib_string: "json_lib_ok jl \<Longrightarrow> json_object_get_string jl (JString t) = Some t"
  by (simp add: json_lib_ok_def)

lemma json_lib_int: "json_lib_ok jl \<Longrightarrow> - (2 ^ 31) \<le> i \<Longrightarrow> i < 2 ^ 31 \<Longrightarrow> json_object_get_int jl (JInt i) = i"
  by (simp add: json_lib_ok_def)

definition command :: "string \<Rightarrow> int \<Rightarrow> json" where
  "command p c = JObject [(''path'', JString p), (''cmd'', JInt c)]"

lemma update_entry_command:
  "json_lib_ok (jlib e) \<Longrightarrow> 0 \<le> c \<Longrightarrow> c < 256 \<Longrightarrow>
   update_entry e [(''path'', JString p), (''cmd'', JInt c)] (None, 0) = (Some p, word_of_int c)"
  by (simp add: json_lib_string json_lib_int)

text \<open>A port takes a command: it is not probed, its state differs, it is not restarting already.\<close>

definition takes_command :: "usb_port \<Rightarrow> u8 \<Rightarrow> bool" where
  "takes_command pt c \<longleftrightarrow>
     \<not> (port_type pt = PORT_TYPE_GPIO \<and> msg_mode pt = PROBE) \<and>
     (c = CMD_ENABLE \<longrightarrow> \<not> enabled pt) \<and> (c = CMD_DISABLE \<longrightarrow> enabled pt) \<and>
     (c = CMD_RESTART \<longrightarrow> msg_mode pt \<noteq> RESET)"

lemma update_one_reaches:
  assumes intact: "\<forall>p\<in>set (port_list s). paths_intact (heap s p)"
    and q: "q \<noteq> []" "length q \<le> 8"
    and found: "List.find (\<lambda>p. q \<in> set (port_paths (path (heap s p)))) (port_list s) = Some p"
    and c: "c \<le> CMD_DISABLE" and takes: "takes_command (heap s p) c"
  shows "update_one e (Some (printed q)) c f s = and_then (port_update e p c s) (\<lambda>(r, s). Inr ((r, True), s))"
proof -
  have "usb_monitor_lists_find_port_path s q (of_nat (length q)) = Inr (Some p)"
    using find_port_by_path [OF intact, of q] q(2) found by simp
  moreover have "usb_helpers_convert_char_to_path (printed q) = Some q"
    using convert_char_to_path_printed q by simp
  ultimately show ?thesis
    using c takes by (auto simp: update_one_def takes_command_def not_less)
qed

text \<open>A malformed entry ends the request: what follows it is not carried out.\<close>

lemma update_stops:
  assumes "json_members j = Inr ms" and "update_entry e ms (None, 0) = (p, c)"
    and "p = None \<or> CMD_DISABLE < c \<or> usb_helpers_convert_char_to_path (the p) = None"
  shows "update_ports_loop e (j # js) f s = Inr (1, s)"
  using assms by (auto simp: update_one_def split: option.split)


subsection \<open>The state of the ports\<close>

definition port_object :: "usb_port \<Rightarrow> u8 list \<Rightarrow> json" where
  "port_object pt q =
     JObject [(''mode'', JInt (msg_mode_num (msg_mode pt))), (''vid'', JInt (int (unat (vid pt)))),
              (''pid'', JInt (int (unat (pid pt)))), (''path'', JString (printed q)),
              (''enabled'', JInt (if enabled pt then 1 else 0))]"

definition json_allocates :: "env \<Rightarrow> bool" where
  "json_allocates e \<longleftrightarrow> (\<forall>tr. answer e tr Json_Alloc \<noteq> 0)"

lemma json_allocs_trace: "json_allocates e \<Longrightarrow> \<exists>t. json_allocs e n s = (True, s\<lparr>trace := t\<rparr>)"
proof (induction n arbitrary: s)
  case 0
  show ?case by (auto intro!: exI [of _ "trace s"])
next
  case (Suc n)
  define tr where "tr = (Json_Alloc, answer e (trace s) Json_Alloc) # trace s"
  have "json_alloc e s = (True, s\<lparr>trace := tr\<rparr>)"
    using Suc.prems by (simp add: json_alloc_def sys_call_def json_allocates_def tr_def Let_def)
  with Suc.IH [OF Suc.prems, of "s\<lparr>trace := tr\<rparr>"] show ?case by auto
qed

lemma json_allocs_ok:
  assumes "json_allocates e"
  obtains t where "json_allocs e n s = (True, s\<lparr>trace := t\<rparr>)"
  using json_allocs_trace [OF assms] by blast

text \<open>A path that can be printed: one to eight numbers of at most two digits.\<close>

definition printable :: "u8 list \<Rightarrow> bool" where
  "printable q \<longleftrightarrow> q \<noteq> [] \<and> length q \<le> 8 \<and> (\<forall>b\<in>set q. unat b < 100)"

lemma add_paths_ok:
  assumes e: "json_allocates e" and pt: "path (heap s p) ! i = Some q" "unat (path_len (heap s p) ! i) = length q"
    and q: "printable q"
  shows "\<exists>t. usb_monitor_client_add_paths_json e p i s =
           Inr (Some (port_object (heap s p) q), s\<lparr>trace := t\<rparr>)"
proof -
  obtain t1 where a1: "json_allocs e 4 s = (True, s\<lparr>trace := t1\<rparr>)" by (rule json_allocs_ok [OF e])
  obtain t2 where a2: "json_allocs e 2 (s\<lparr>trace := t1\<rparr>) = (True, s\<lparr>trace := t1\<rparr>\<lparr>trace := t2\<rparr>)"
    by (rule json_allocs_ok [OF e])
  have "path_len (heap s p) ! i = of_nat (length q)" using pt(2) by (simp flip: pt(2))
  then obtain r where "usb_helpers_convert_path_char (char_signed e) q (path_len (heap s p) ! i) = Inr r"
      "path_text r = printed q"
    using convert_path_char_prints [of q "char_signed e"] q by (auto simp: printable_def)
  then show ?thesis
    using a1 a2 pt(1)
    by (auto simp: usb_monitor_client_add_paths_json_def port_object_def Let_def intro!: exI [of _ t2])
qed


text \<open>The ports a client sees.\<close>

definition shown :: "(pid \<Rightarrow> usb_port) \<Rightarrow> pid list \<Rightarrow> json list" where
  "shown hp ps = concat (map (\<lambda>p. map (port_object (hp p)) (port_paths (path (hp p)))) ps)"

definition port_shown_ok :: "usb_port \<Rightarrow> bool" where
  "port_shown_ok pt \<longleftrightarrow> paths_intact pt \<and> length (path pt) = MAX_NUM_PATHS \<and>
                      (\<forall>q\<in>set (port_paths (path pt)). printable q)"

lemma two_paths:
  assumes "port_shown_ok pt"
  obtains "path pt ! 0 = None" "port_paths (path pt) = []"
  | q where "path pt ! 0 = Some q" "path pt ! 1 = None" "port_paths (path pt) = [q]"
      "unat (path_len pt ! 0) = length q" "printable q"
  | q r where "path pt ! 0 = Some q" "path pt ! 1 = Some r" "port_paths (path pt) = [q, r]"
      "unat (path_len pt ! 0) = length q" "printable q" "unat (path_len pt ! 1) = length r" "printable r"
proof -
  obtain a b where ab: "path pt = [a, b]" using assms
    by (auto simp: port_shown_ok_def numeral_2_eq_2 length_Suc_conv)
  have "length (path_len pt) = Suc (Suc 0)"
    using assms ab by (simp add: port_shown_ok_def paths_intact_def)
  then obtain c d where cd: "path_len pt = [c, d]" by (auto simp: length_Suc_conv)
  show thesis
    using assms that ab cd
    by (cases a; cases b) (auto simp: port_shown_ok_def paths_intact_def)
qed

lemma port_paths_json_ok:
  assumes e: "json_allocates e" and ok: "port_shown_ok (heap s p)"
  shows "\<exists>t. port_paths_json e p MAX_NUM_PATHS 0 s =
           Inr (Some (map (port_object (heap s p)) (port_paths (path (heap s p)))), s\<lparr>trace := t\<rparr>)"
  using ok
proof (cases rule: two_paths)
  case 1
  then show ?thesis by (auto simp: numeral_2_eq_2 intro!: exI [of _ "trace s"])
next
  case (2 q)
  obtain t where "usb_monitor_client_add_paths_json e p 0 s = Inr (Some (port_object (heap s p) q), s\<lparr>trace := t\<rparr>)"
    using add_paths_ok [OF e 2(1,4,5)] by blast
  with 2 show ?thesis by (auto simp: numeral_2_eq_2)
next
  case (3 q r)
  obtain t where t: "usb_monitor_client_add_paths_json e p 0 s = Inr (Some (port_object (heap s p) q), s\<lparr>trace := t\<rparr>)"
    using add_paths_ok [OF e 3(1,4,5)] by blast
  obtain t' where "usb_monitor_client_add_paths_json e p 1 (s\<lparr>trace := t\<rparr>) =
      Inr (Some (port_object (heap s p) r), s\<lparr>trace := t'\<rparr>)"
    using add_paths_ok [OF e, of "s\<lparr>trace := t\<rparr>" p 1 r] 3 by auto
  with 3 t show ?thesis by (auto simp: numeral_2_eq_2)
qed

lemma ports_json_ok:
  assumes "json_allocates e" and "\<forall>p\<in>set ps. port_shown_ok (heap s p)"
  shows "\<exists>t. ports_json e ps s = Inr (Some (shown (heap s) ps), s\<lparr>trace := t\<rparr>)"
  using assms(2)
proof (induction ps arbitrary: s)
  case Nil
  show ?case by (auto simp: shown_def intro!: exI [of _ "trace s"])
next
  case (Cons p ps)
  obtain t where t: "port_paths_json e p MAX_NUM_PATHS 0 s =
      Inr (Some (map (port_object (heap s p)) (port_paths (path (heap s p)))), s\<lparr>trace := t\<rparr>)"
    using port_paths_json_ok [OF assms(1), of s p] Cons.prems by auto
  obtain t' where "ports_json e ps (s\<lparr>trace := t\<rparr>) = Inr (Some (shown (heap s) ps), s\<lparr>trace := t'\<rparr>)"
    using Cons.IH [of "s\<lparr>trace := t\<rparr>"] Cons.prems by auto
  with t show ?case by (auto simp: shown_def)
qed

lemma get_json_ok:
  assumes "json_allocates e" and "\<forall>p\<in>set (port_list s). port_shown_ok (heap s p)"
  shows "\<exists>t. usb_monitor_client_get_json e s =
           Inr (Some (JObject [(''ports'', JArray (shown (heap s) (port_list s)))]), s\<lparr>trace := t\<rparr>)"
proof -
  obtain t where "json_allocs e 2 s = (True, s\<lparr>trace := t\<rparr>)" by (rule json_allocs_ok [OF assms(1)])
  moreover obtain t' where "ports_json e (port_list s) (s\<lparr>trace := t\<rparr>) =
      Inr (Some (shown (heap s) (port_list s)), s\<lparr>trace := t'\<rparr>)"
    using ports_json_ok [OF assms(1), of "port_list s" "s\<lparr>trace := t\<rparr>"] assms(2) by auto
  ultimately show ?thesis by (auto simp: usb_monitor_client_get_json_def intro!: exI [of _ t'])
qed

subsection \<open>Requests in pieces\<close>

text \<open>
  The second piece of a request that is not longer than the first: the parser is given the
  beginning of the first piece again.
\<close>

lemma second_piece:
  assumes c: "clients s i = Some c" and buf: "unat (recv_progress c) = length (recv_buf c)"
    and data: "input_data e (trace s) = b" "b \<noteq> []" "length b \<le> length (recv_buf c)"
      "length (recv_buf c) + length b \<le> MAX_REQUEST_SIZE"
    and got: "0 < answer e (trace s) (Recv (client_fd c))"
    and parse: "http_parser_execute client_settings (parser c) (take (length b) (recv_buf c)) = Inr (p, [], length b)"
      "http_errno p = HPE_OK"
    and going: "\<not> req_done c" "length (recv_buf c) + length b < MAX_REQUEST_SIZE"
  shows "\<exists>s'. usb_monitor_client_cb e i s = Inr s' \<and>
           clients s' i = Some (c\<lparr>recv_buf := recv_buf c @ b, recv_progress := recv_progress c + of_nat (length b),
                                 parser := p\<rparr>)"
proof -
  have fits: "take (MAX_REQUEST_SIZE - unat (recv_progress c)) b = b" using data(4) buf by simp
  have "unat (recv_progress c + of_nat (length b)) = length (recv_buf c) + length b"
    using going(2) buf by (simp add: unat_word_ariths unat_of_nat take_bit_nat_eq_self)
  then show ?thesis
    using c data(1-3) got parse going fits
    by (simp add: usb_monitor_client_cb_def with_client_def sys_call_eq Let_def client_upd_def)
qed

end
