(* ===== verification/Usb_Monitor.thy ===== *)
theory Usb_Monitor
  imports Client
begin

section \<open>The daemon (usb_monitor.c)\<close>

text \<open>
  Accepting clients, setting the event loop up and starting it. The event loop of theory
  \<open>Event_Loop\<close> gets the callbacks of the program here. Daemonising, the log file and the
  set-up of signals are calls whose results are tested.
\<close>

subsection \<open>Clients\<close>

definition usb_monitor_configure_client :: "env \<Rightarrow> nat \<Rightarrow> int \<Rightarrow> sys \<Rightarrow> sys" where
  "usb_monitor_configure_client e i sock s =
     (let s = s\<lparr>clients := (clients s)(i := Some
                  \<lparr>recv_buf = [], body_offset = None, parser = http_parser_init HTTP_REQUEST, client_fd = sock,
                   recv_progress = 0, req_done = False, idx = of_nat i\<rparr>)\<rparr>
      in snd (backend_event_loop_update e (Epoll_Add sock) s))"

text \<open>\<open>ffs\<close>: the position of the lowest set bit, counted from 1; 0 if there is none.\<close>

fun ffs_from :: "nat \<Rightarrow> nat \<Rightarrow> u8 \<Rightarrow> nat" where
  "ffs_from 0 i w = 0"
| "ffs_from (Suc n) i w = (if bit w i then i + 1 else ffs_from n (Suc i) w)"

definition ffs :: "u8 \<Rightarrow> nat" where "ffs w = ffs_from 8 0 w"

text \<open>The memory of a client is kept for the next one with its index.\<close>

definition usb_monitor_accept_cb :: "env \<Rightarrow> sys \<Rightarrow> sys" where
  "usb_monitor_accept_cb e s =
     (let (client_sock, s) = sys_call e Accept s
      in if clients_map s = 0 then sys_do e (Close_Fd client_sock) s
         else
           let i = ffs (clients_map s) - 1;
               (ok, s) = (if clients s i = None
                          then let (r, s) = sys_call e Malloc s in (r \<noteq> 0, s) else (True, s))
           in if \<not> ok then s
              else usb_monitor_configure_client e i client_sock
                     (s\<lparr>clients_map := xor (clients_map s) (push_bit i 1)\<rparr>))"

subsection \<open>The event loop of the program\<close>

definition run_handle :: "env \<Rightarrow> nat \<Rightarrow> epoll_handle \<Rightarrow> u32 \<Rightarrow> sys \<Rightarrow> sys result" where
  "run_handle e n h events s =
     (case h of
        Accept_Handle \<Rightarrow> Inr (usb_monitor_accept_cb e s)
      | Libusb_Handle \<Rightarrow> usb_monitor_usb_event_cb n e s
      | Mcu_Handle \<Rightarrow> lanner_handler_event_cb e events s
      | Client_Handle i \<Rightarrow> usb_monitor_client_cb e i s)"

definition monitor_turn :: "env \<Rightarrow> nat \<Rightarrow> sys \<Rightarrow> sys result" where
  "monitor_turn e n s =
     event_loop_turn e (run_timer_cb e n) (run_handle e n) (usb_monitor_itr_cb e n) n s"

text \<open>The first \<open>k\<close> turns of the loop, if the timers can be created.\<close>

definition usb_monitor_start_event_loop :: "env \<Rightarrow> nat \<Rightarrow> nat \<Rightarrow> sys \<Rightarrow> sys result" where
  "usb_monitor_start_event_loop e n k s =
     (let (cur_time, s) = clock_ms e s
      in and_then (backend_event_loop_add_timeout e (cur_time + 1000) One_Sec_Cb 1000 True s)
           (\<lambda>(t, s). if t = None then Inr s else
         and_then (backend_event_loop_add_timeout e (cur_time + 25000) Check_Devices_Cb 25000 True s)
           (\<lambda>(t, s). if t = None then Inr s else
         and_then
           (if disable_auto_restart s then Inr (Some 0, s)
            else backend_event_loop_add_timeout e (cur_time + 120000) Check_Reset_Cb 120000 True s)
           (\<lambda>(t, s). if t = None then Inr s else
         backend_event_loop_run e (run_timer_cb e n) (run_handle e n) (usb_monitor_itr_cb e n) n k s))))"

subsection \<open>Set-up\<close>

text \<open>
  \<open>socket_utility_create_unix_socket\<close> of socket_utility.c: the descriptor, or -1. The socket
  stays open when its mode or owner cannot be set. \<open>ENOENT\<close> is 2.
\<close>

definition socket_utility_create_unix_socket :: "env \<Rightarrow> string \<Rightarrow> bool \<Rightarrow> u32 \<Rightarrow> sys \<Rightarrow> int \<times> sys" where
  "socket_utility_create_unix_socket e path_name listen_sock gid s =
     (let (r, s) = sys_call e (Remove path_name) s;
          (errno, s) = (if r = -1 then sys_call e Errno s else (0, s))
      in if r = -1 \<and> errno \<noteq> 2 then (-1, s)
         else let (sock_fd, s) = sys_call e Socket s
         in if sock_fd = -1 then (-1, s)
         else let (r, s) = sys_call e (Bind sock_fd (take 106 path_name)) s
         in if r = -1 then (-1, sys_do e (Close_Fd sock_fd) s)
         else let (r, s) = sys_call e (Chmod path_name) s
         in if r = -1 then (-1, s)
         else let (r, s) = sys_call e (Chown path_name gid) s
         in if r \<noteq> 0 then (-1, s)
         else let (r, s) = (if listen_sock then sys_call e (Listen sock_fd) s else (0, s))
         in if r = -1 then (-1, sys_do e (Close_Fd sock_fd) s) else (sock_fd, s))"

definition usb_monitor_configure_unix_socket :: "env \<Rightarrow> sys \<Rightarrow> int \<times> sys" where
  "usb_monitor_configure_unix_socket e s =
     (let (fd, s) = socket_utility_create_unix_socket e ''/tmp/usbmonitor'' True (group_id s) s
      in if fd = -1 then (fd, s) else backend_event_loop_update e (Epoll_Add fd) s)"

fun add_pollfds :: "env \<Rightarrow> int list \<Rightarrow> sys \<Rightarrow> sys" where
  "add_pollfds e [] s = s"
| "add_pollfds e (fd # fds) s = add_pollfds e fds (snd (backend_event_loop_update e (Epoll_Add fd) s))"

definition backend_event_loop_create :: "env \<Rightarrow> sys \<Rightarrow> bool \<times> sys" where
  "backend_event_loop_create e s =
     (let (r, s) = sys_call e Calloc s
      in if r = 0 then (False, s)
         else let (efd, s) = sys_call e Epoll_Create s
         in if efd = -1 then (False, sys_do e Free_Mem s)
         else (True, s\<lparr>timer_q := (timer_q s)\<lparr>lh_first := None\<rparr>\<rparr>))"

text \<open>0 on success and 1 on failure.\<close>

definition usb_monitor_configure :: "env \<Rightarrow> bool \<Rightarrow> sys \<Rightarrow> (u8 \<times> sys) result" where
  "usb_monitor_configure e sock s =
     (let s = s\<lparr>hub_list := [], port_list := [], timeout_q := (timeout_q s)\<lparr>lh_first := None\<rparr>,
                clients_map := 0x1F\<rparr>;
          (ok, s) = backend_event_loop_create e s;
          s = s\<lparr>clients := (\<lambda>_. None)\<rparr>
      in if \<not> ok then Inr (1, s)
         else
           and_then
             (if sock then and_then (backend_create_epoll_handle e s) (\<lambda>s.
                             Inr (usb_monitor_configure_unix_socket e s))
              else Inr (0, s))
             (\<lambda>(r, s).
               if r \<noteq> 0 then Inr (1, s)
               else
                 let fds = pollfds e (trace s);
                     s = sys_do e Usb_Get_Pollfds s
                 in case fds of
                      None \<Rightarrow> Inr (1, s)
                    | Some fds \<Rightarrow>
                        and_then (backend_create_epoll_handle e s) (\<lambda>s.
                          let s = add_pollfds e fds s;
                              s = sys_do e Free_Mem s;
                              s = sys_do e Usb_Set_Notifiers s;
                              s = sys_do e Usb_Hotplug_Register s
                          in Inr (0, sys_do e Usb_Lock_Events s))))"

definition usb_monitor_start_probe :: "env \<Rightarrow> string \<Rightarrow> sys \<Rightarrow> (int \<times> sys) result" where
  "usb_monitor_start_probe e probe_mapping_path s =
     (if list_ex (is_gpio s) (port_list s) then gpio_handler_start_probe e probe_mapping_path s
      else Inr (0, s))"

abbreviation GPIO_PROBE_PATH_LEN :: nat where "GPIO_PROBE_PATH_LEN \<equiv> 127"

subsection \<open>Options\<close>

text \<open>
  \<open>getopt\<close> with the option string of \<open>main\<close>: the options in the order of the arguments, each
  with its own argument, and a question mark for one that is unknown or lacks its argument. The
  first parameter is what is left of an argument with several options. Arguments that are no
  options are passed over, and two dashes end the options.
\<close>

function getopt :: "string \<Rightarrow> string list \<Rightarrow> (char \<times> string) list" where
  "getopt (c # cs) args =
     (if c \<in> set ''ocgp'' then
        (if cs \<noteq> [] then (c, cs) # getopt [] args
         else case args of [] \<Rightarrow> [(CHR ''?'', [])] | a # as \<Rightarrow> (c, a) # getopt [] as)
      else (if c \<in> set ''dhs'' then c else CHR ''?'', []) # getopt cs args)"
| "getopt [] [] = []"
| "getopt [] (a # as) =
     (if a = ''--'' then []
      else if 2 \<le> length a \<and> hd a = CHR ''-'' then getopt (tl a) as
      else getopt [] as)"
  by pat_completeness auto
termination
  by (relation "measure (\<lambda>(cs, as). length cs + (\<Sum>a\<leftarrow>as. Suc (length a)))") (auto split: list.splits)

text \<open>
  What \<open>main\<close> keeps of the options in its variables. The log file is the result of the last
  \<open>fopen\<close>, and standard error before the first.
\<close>

record options =
  opt_logfile :: int
  opt_conf :: "string option"
  opt_daemon :: bool
  opt_probe :: "string option"

definition no_options :: options where
  "no_options = \<lparr>opt_logfile = 2, opt_conf = None, opt_daemon = False, opt_probe = None\<rparr>"

text \<open>The loop over the options; help and an option that is not known end the program.\<close>

fun option_loop :: "env \<Rightarrow> (char \<times> string) list \<Rightarrow> options \<Rightarrow> sys \<Rightarrow> (options \<times> sys) result" where
  "option_loop e [] v s = Inr (v, s)"
| "option_loop e ((c, optarg) # os) v s =
     (if c = CHR ''o'' then
        let (f, s) = sys_call e (Fopen optarg) s in option_loop e os (v\<lparr>opt_logfile := f\<rparr>) s
      else if c = CHR ''c'' then option_loop e os (v\<lparr>opt_conf := Some optarg\<rparr>) s
      else if c = CHR ''d'' then option_loop e os (v\<lparr>opt_daemon := True\<rparr>) s
      else if c = CHR ''s'' then option_loop e os v (s\<lparr>use_syslog := True\<rparr>)
      else if c = CHR ''g'' then option_loop e os v (s\<lparr>group_id := word_of_int (atoi optarg)\<rparr>)
      else if c = CHR ''p'' then option_loop e os (v\<lparr>opt_probe := Some optarg\<rparr>) s
      else Inl Exit_Success)"

subsection \<open>main\<close>

text \<open>The state is that of a context from \<open>calloc\<close>.\<close>

definition zero_sys :: sys where
  "zero_sys =
     \<lparr>heap = (\<lambda>_. zero_port), next_pid = 0, port_list = [], timeout_q = lq_init,
      hubs = (\<lambda>_. zero_hub), next_hid = 0, hub_list = [], shared = (\<lambda>_. zero_shared),
      next_shared = 0, mcu_info = None,
      timers = (\<lambda>_. \<lparr>timeout_clock = 0, cb = One_Sec_Cb, intvl = 0, auto_free = False\<rparr>),
      next_tid = 0, timer_q = lq_init, itr_cb = False, bad_device_ids = [], num_bad_device_ids = 0,
      clients_map = 0, clients = (\<lambda>_. None), disable_auto_restart = False, group_id = 0, use_syslog = False, next_handle = 0,
      trace = []\<rparr>"

text \<open>The steps of \<open>main\<close> up to the end of the set-up; each failure exits.\<close>

definition main_setup :: "env \<Rightarrow> string list \<Rightarrow> sys \<Rightarrow> (options \<times> sys) result" where
  "main_setup e argv s =
     (let (pid_fd, s) = sys_call e (Open_File ''/var/run/usb_monitor.pid'') s;
          (r, s) = (if pid_fd = -1 then (1, s) else sys_call e (Lockf pid_fd) s)
      in if r \<noteq> 0 then Inl Exit_Failure
         else let (r, s) = sys_call e Calloc s
         in if r = 0 then Inl Exit_Failure
         else and_then (option_loop e (getopt [] argv) no_options s) (\<lambda>(opts, s).
           let (r, s) = (if opt_daemon opts then sys_call e Daemon s else (0, s))
           in if r \<noteq> 0 then Inl (if opt_logfile opts = 0 then Null_Deref else Exit_Failure)
              else if opt_logfile opts = 0 then Inl Exit_Failure
              else let (r, s) = sys_call e Usb_Init s
              in if r \<noteq> 0 then Inl Exit_Failure
              else and_then (usb_monitor_configure e True s) (\<lambda>(r, s).
                if r \<noteq> 0 then Inl Exit_Failure
                else
                  and_then (case opt_conf opts of
                              None \<Rightarrow> Inr (0, s) | Some f \<Rightarrow> usb_monitor_parse_config e f s)
                    (\<lambda>(r, s).
                      if r \<noteq> 0 then Inl Exit_Failure
                      else let (r, s) = sys_call e Sigaction s
                           in if r \<noteq> 0 then Inl Exit_Failure else Inr (opts, s)))))"

definition main_run :: "env \<Rightarrow> options \<Rightarrow> nat \<Rightarrow> nat \<Rightarrow> sys \<Rightarrow> sys result" where
  "main_run e opts n k s =
     and_then (usb_helpers_check_devices n e s) (\<lambda>s.
       and_then
         (case opt_probe opts of
            None \<Rightarrow> Inr (0, s)
          | Some p \<Rightarrow> if GPIO_PROBE_PATH_LEN < length p then Inl Exit_Failure
                      else usb_monitor_start_probe e p s)
         (\<lambda>(r, s). if r \<noteq> 0 then Inl Exit_Failure else usb_monitor_start_event_loop e n k s))"

text \<open>\<open>main\<close> with the first \<open>k\<close> turns of the event loop; \<open>argv\<close> is without the name of the program.\<close>

definition usb_monitor_main :: "env \<Rightarrow> string list \<Rightarrow> nat \<Rightarrow> nat \<Rightarrow> sys result" where
  "usb_monitor_main e argv n k =
     and_then (main_setup e argv zero_sys) (\<lambda>(opts, s). main_run e opts n k s)"

subsection \<open>Slots for clients\<close>

lemma ffs_from_spec:
  assumes "\<exists>j. i \<le> j \<and> j < i + n \<and> bit w j"
  shows "i < ffs_from n i w \<and> ffs_from n i w \<le> i + n \<and> bit w (ffs_from n i w - 1) \<and>
         (\<forall>j. i \<le> j \<and> j < ffs_from n i w - 1 \<longrightarrow> \<not> bit w j)"
  using assms
proof (induction n arbitrary: i)
  case (Suc n)
  show ?case
  proof (cases "bit w i")
    case False
    with Suc.prems obtain j where "Suc i \<le> j \<and> j < Suc i + n \<and> bit w j"
      by (metis Suc_le_eq add_Suc_shift le_eq_less_or_eq)
    then have IH: "Suc i < ffs_from n (Suc i) w" "ffs_from n (Suc i) w \<le> Suc i + n"
      "bit w (ffs_from n (Suc i) w - 1)" "\<forall>j. Suc i \<le> j \<and> j < ffs_from n (Suc i) w - 1 \<longrightarrow> \<not> bit w j"
      using Suc.IH [of "Suc i"] by blast+
    have "\<not> bit w j" if "i \<le> j" "j < ffs_from n (Suc i) w - 1" for j
      using IH(4) that False by (metis Suc_leI le_neq_implies_less)
    with IH False show ?thesis by auto
  qed auto
qed auto

lemma ffs_spec:
  assumes "w \<noteq> 0"
  shows "0 < ffs w \<and> ffs w \<le> 8 \<and> bit w (ffs w - 1) \<and> (\<forall>j < ffs w - 1. \<not> bit w j)"
proof -
  obtain j where "bit w j" using assms bit_eq_iff [of w 0] by auto
  moreover have "j < 8" using bit_imp_le_length [OF \<open>bit w j\<close>] by simp
  ultimately show ?thesis using ffs_from_spec [of 0 8 w] by (auto simp: ffs_def)
qed

text \<open>A slot is free when its bit is set; a slot in use has a client with its index.\<close>

definition slots_ok :: "sys \<Rightarrow> bool" where
  "slots_ok s \<longleftrightarrow>
     (\<forall>i. bit (clients_map s) i \<longrightarrow> i < MAX_HTTP_CLIENTS) \<and>
     (\<forall>i < MAX_HTTP_CLIENTS. \<not> bit (clients_map s) i \<longrightarrow> (\<exists>c. clients s i = Some c \<and> idx c = of_nat i))"

lemma flip_bit: "i < 8 \<Longrightarrow> bit (xor w (push_bit i (1 :: u8))) j \<longleftrightarrow> (if j = i then \<not> bit w j else bit w j)"
  by (auto simp: bit_simps dest: bit_imp_le_length)

lemma update_frame [simp]:
  "clients_map (snd (backend_event_loop_update e c s)) = clients_map s"
  "clients (snd (backend_event_loop_update e c s)) = clients s"
  by (simp_all add: backend_event_loop_update_def sys_call_eq)

lemma accept_slots:
  assumes ok: "slots_ok s" and free: "clients_map s \<noteq> 0"
    and malloc: "clients s (ffs (clients_map s) - 1) = None \<Longrightarrow> answer e ((Accept, answer e (trace s) Accept) # trace s) Malloc \<noteq> 0"
  defines "i \<equiv> ffs (clients_map s) - 1"
  shows "i < MAX_HTTP_CLIENTS \<and> bit (clients_map s) i \<and> (\<forall>j<i. \<not> bit (clients_map s) j)"
    and "bit (clients_map (usb_monitor_accept_cb e s)) j \<longleftrightarrow> bit (clients_map s) j \<and> j \<noteq> i"
    and "clients (usb_monitor_accept_cb e s) = (clients s)(i := Some
           \<lparr>recv_buf = [], body_offset = None, parser = http_parser_init HTTP_REQUEST, client_fd = answer e (trace s) Accept,
            recv_progress = 0, req_done = False, idx = of_nat i\<rparr>)"
    and "slots_ok (usb_monitor_accept_cb e s)"
proof -
  show i: "i < MAX_HTTP_CLIENTS \<and> bit (clients_map s) i \<and> (\<forall>j<i. \<not> bit (clients_map s) j)"
    using ffs_spec [OF free] ok by (auto simp: i_def slots_ok_def)
  have tr: "trace (sys_do e Accept s) = (Accept, answer e (trace s) Accept) # trace s"
    by (simp add: sys_do_def sys_call_def Let_def)
  have run: "clients_map (usb_monitor_accept_cb e s) = xor (clients_map s) (push_bit i 1)"
    "clients (usb_monitor_accept_cb e s) = (clients s)(i := Some
           \<lparr>recv_buf = [], body_offset = None, parser = http_parser_init HTTP_REQUEST, client_fd = answer e (trace s) Accept,
            recv_progress = 0, req_done = False, idx = of_nat i\<rparr>)"
    using malloc free
    by (auto simp: usb_monitor_accept_cb_def usb_monitor_configure_client_def sys_call_eq Let_def tr i_def)
  show "clients (usb_monitor_accept_cb e s) = (clients s)(i := Some
           \<lparr>recv_buf = [], body_offset = None, parser = http_parser_init HTTP_REQUEST, client_fd = answer e (trace s) Accept,
            recv_progress = 0, req_done = False, idx = of_nat i\<rparr>)" by (rule run(2))
  have map: "bit (clients_map (usb_monitor_accept_cb e s)) j \<longleftrightarrow> bit (clients_map s) j \<and> j \<noteq> i" for j
    using i flip_bit [of i "clients_map s" j] by (auto simp: run(1))
  then show "bit (clients_map (usb_monitor_accept_cb e s)) j \<longleftrightarrow> bit (clients_map s) j \<and> j \<noteq> i" .
  show "slots_ok (usb_monitor_accept_cb e s)"
    using ok i by (auto simp: slots_ok_def map run(2))
qed

lemma close_slots:
  assumes ok: "slots_ok s" and used: "i < MAX_HTTP_CLIENTS" "\<not> bit (clients_map s) i"
  obtains s' where "usb_monitor_client_close e i s = Inr s'" and "slots_ok s'"
    and "\<And>j. bit (clients_map s') j \<longleftrightarrow> bit (clients_map s) j \<or> j = i"
    and "clients s' = clients s"
proof -
  obtain c where c: "clients s i = Some c" "idx c = of_nat i" using ok used by (auto simp: slots_ok_def)
  define s' where "s' = (sys_do e (Close_Fd (client_fd c)) s)\<lparr>clients_map := xor (clients_map s) (push_bit i 1)\<rparr>"
  have "unat (of_nat i :: u8) = i" using used(1) by (simp add: unat_of_nat take_bit_nat_eq_self)
  then have run: "usb_monitor_client_close e i s = Inr s'"
    using c by (simp add: usb_monitor_client_close_def with_client_def s'_def)
  have map: "bit (clients_map s') j \<longleftrightarrow> bit (clients_map s) j \<or> j = i" for j
    using flip_bit [of i "clients_map s" j] used by (auto simp: s'_def)
  have "slots_ok s'" using ok used by (auto simp: slots_ok_def map) (simp_all add: s'_def)
  moreover have "clients s' = clients s" by (simp add: s'_def)
  ultimately show thesis using that [OF run] map by blast
qed


end
