(* ===== verification/Monitor_Runs.thy ===== *)
theory Monitor_Runs
  imports Usb_Monitor
begin

text \<open>
  Runs of the monitor with a fixed set of ports: the events that its loop handles, the states
  they reach, and the invariant of these states. The locale \<open>resting_handler\<close> extends the
  contract of the handlers by a condition on the ports that every call keeps; it is
  interpreted on the calls through the pointers of the ports.
\<close>

section \<open>A handler whose ports never rest switched off\<close>

text \<open>
  The state of the ports: the links of the timeout list are intact and hold ports of the port
  list only, and each port is ready, not probed, has intact paths and satisfies \<open>fine\<close>, which
  relates the port to whether it waits.
\<close>

definition ports_sound ::
  "(usb_port \<Rightarrow> bool) \<Rightarrow> (usb_port \<Rightarrow> bool \<Rightarrow> bool) \<Rightarrow> sys \<Rightarrow> pid list \<Rightarrow> bool" where
  "ports_sound ready fine s xs \<longleftrightarrow>
     tq s xs \<and> set xs \<subseteq> set (port_list s) \<and> distinct (port_list s) \<and>
     (\<forall>p\<in>set (port_list s). ready (heap s p) \<and> msg_mode (heap s p) \<noteq> PROBE \<and>
        paths_intact (heap s p) \<and> fine (heap s p) (p \<in> set xs))"

text \<open>What an event may change besides the ports: the calls made so far and the shared data.\<close>

definition same_frame :: "sys \<Rightarrow> sys \<Rightarrow> bool" where
  "same_frame s s' \<longleftrightarrow>
     port_list s' = port_list s \<and> clients_map s' = clients_map s \<and> clients s' = clients s"

lemma same_frame_refl [simp]: "same_frame s s"
  by (simp add: same_frame_def)

lemma same_frame_trans: "same_frame s s' \<Longrightarrow> same_frame s' s'' \<Longrightarrow> same_frame s s''"
  by (simp add: same_frame_def)

lemma only_port_frame': "only_port p s s' \<Longrightarrow> same_frame s s'"
  by (simp add: only_port_def same_frame_def)

locale resting_handler = port_handler +
  fixes fine :: "usb_port \<Rightarrow> bool \<Rightarrow> bool"
  assumes update_fine: "ready (heap s p) \<Longrightarrow> tq s xs \<Longrightarrow> fine (heap s p) (p \<in> set xs) \<Longrightarrow>
      upd e p cmd s = Inr (r, s') \<Longrightarrow> tq s' ys \<Longrightarrow> fine (heap s' p) (p \<in> set ys)"
    and timeout_fine: "ready (heap s p) \<Longrightarrow> msg_mode (heap s p) \<noteq> PROBE \<Longrightarrow> tq s xs \<Longrightarrow> p \<notin> set xs \<Longrightarrow>
      fine (heap s p) True \<Longrightarrow> tmo e p s = Inr s' \<Longrightarrow> tq s' ys \<Longrightarrow> fine (heap s' p) (p \<in> set ys)"
    and disabled_fine: "fine pt True \<Longrightarrow> \<not> enabled pt \<Longrightarrow> fine pt False"
begin

lemma local_sound:
  assumes "ports_sound ready fine s xs" and "p \<in> set (port_list s)" and "only_port p s s'"
    and "tq s' ys" and "local_tq p xs ys" and "fine (heap s' p) (p \<in> set ys)"
  shows "ports_sound ready fine s' ys"
proof -
  have other: "heap s' q = heap s q" "q \<in> set ys \<longleftrightarrow> q \<in> set xs" if "q \<noteq> p" for q
    using that assms(3,5) tq_distinct assms(1)
    by (auto simp: only_port_def local_tq_def ports_sound_def in_set_remove1)
  have "paths_intact (heap s' p)" "msg_mode (heap s' p) \<noteq> PROBE" "port_list s' = port_list s"
    using assms(1-3) by (auto simp: ports_sound_def only_port_def paths_intact_def)
  moreover have "set ys \<subseteq> set (port_list s)"
    using assms(1,2,5) set_remove1_subset [of p xs] by (auto simp: ports_sound_def local_tq_def)
  moreover have "ready (heap s' q)" if "q \<in> set (port_list s)" for q
    using ready_stable [OF assms(3)] assms(1) that by (simp add: ports_sound_def)
  moreover have "msg_mode (heap s' q) \<noteq> PROBE \<and> paths_intact (heap s' q) \<and> fine (heap s' q) (q \<in> set ys)"
    if "q \<in> set (port_list s)" for q
    using calculation(1,2) assms(1,6) other [of q] that by (cases "q = p") (auto simp: ports_sound_def)
  ultimately show ?thesis using assms(1,4) by (simp add: ports_sound_def)
qed

lemma update_sound:
  assumes "ports_sound ready fine s xs" and "p \<in> set (port_list s)"
  shows "succeeds (upd e p cmd s) (\<lambda>(r, s'). same_frame s s' \<and> (\<exists>ys. ports_sound ready fine s' ys))"
proof -
  have p: "ready (heap s p)" "tq s xs" "fine (heap s p) (p \<in> set xs)"
    using assms by (auto simp: ports_sound_def)
  obtain r s' ys where u: "upd e p cmd s = Inr (r, s')" "only_port p s s'" "tq s' ys" "local_tq p xs ys"
    using update_local [OF p(1,2), of e cmd] by (auto elim!: succeeds_pairE simp: port_local_def)
  have "fine (heap s' p) (p \<in> set ys)" by (rule update_fine [OF p u(1,3)])
  then show ?thesis
    using u local_sound [OF assms u(2-4)] by (auto intro: only_port_frame')
qed

text \<open>One port of the walk, and the walk.\<close>

lemma fire_one_sound:
  assumes s: "ports_sound ready fine s xs" and p: "p \<in> set xs"
    and s1: "usb_monitor_lists_del_timeout p s = Inr s1"
  shows "succeeds (if enabled (heap s1 p) \<or> msg_mode (heap s1 p) = PROBE then tmo e p s1 else Inr s1)
           (\<lambda>s'. same_frame s s' \<and> (\<exists>ys. ports_sound ready fine s' ys \<and> local_tq p xs ys))"
proof -
  have tq: "tq s xs" and pl: "p \<in> set (port_list s)" using s p by (auto simp: ports_sound_def)
  have f: "ready (heap s p)" "msg_mode (heap s p) \<noteq> PROBE" "fine (heap s p) True"
    using s pl p by (auto simp: ports_sound_def)
  obtain q where q: "s1 = s\<lparr>timeout_q := q\<rparr>" "lq_list q (remove1 p xs)"
    using del_timeout_member [OF tq p] s1 by auto
  have one: "only_port p s s1" "heap s1 = heap s" "tq s1 (remove1 p xs)" "p \<notin> set (remove1 p xs)"
    using q tq_distinct [OF tq] by (simp_all add: tq_def)
  show ?thesis
  proof (cases "enabled (heap s1 p)")
    case False
    then have "fine (heap s1 p) (p \<in> set (remove1 p xs))" using disabled_fine f(3) one by simp
    from local_sound [OF s pl one(1,3) _ this] show ?thesis
      using False f one by (auto simp: local_tq_def intro!: only_port_frame' [of p])
  next
    case True
    have r: "ready (heap s1 p)" "msg_mode (heap s1 p) \<noteq> PROBE" "fine (heap s1 p) True" using f one by simp_all
    obtain s2 ys where s2: "tmo e p s1 = Inr s2" "only_port p s1 s2" "tq s2 ys" "local_tq p (remove1 p xs) ys"
      using timeout_local [OF r(1,2) one(3,4), of e] by (auto simp: succeeds_iff port_local_def)
    have loc: "local_tq p xs ys"
      using s2(4) one(4) by (auto simp: local_tq_def remove1_idem)
    have o: "only_port p s s2" using only_port_trans [OF one(1) s2(2)] .
    have "fine (heap s2 p) (p \<in> set ys)" by (rule timeout_fine [OF r(1,2) one(3,4) r(3) s2(1,3)])
    from local_sound [OF s pl o s2(3) loc this] show ?thesis
      using True s2(1) loc o by (auto intro: only_port_frame')
  qed
qed

lemma fire_sound:
  assumes "ports_sound ready fine s xs" and "distinct ps" and "set ps \<subseteq> set xs"
  shows "succeeds (fire_timeouts tmo e cur ps s) (\<lambda>s'. same_frame s s' \<and> (\<exists>ys. ports_sound ready fine s' ys))"
  using assms
proof (induction ps arbitrary: s xs)
  case (Cons p ps)
  show ?case
  proof (cases "timeout_expire (heap s p) \<le> cur")
    case False
    then show ?thesis using Cons.IH [OF Cons.prems(1)] Cons.prems(2,3) by simp
  next
    case True
    have p: "p \<in> set xs" "tq s xs" using Cons.prems by (auto simp: ports_sound_def)
    obtain s1 where s1: "usb_monitor_lists_del_timeout p s = Inr s1"
      using del_timeout_member [OF p(2,1)] by metis
    obtain s2 ys where s2: "(if enabled (heap s1 p) \<or> msg_mode (heap s1 p) = PROBE then tmo e p s1 else Inr s1) = Inr s2"
        "same_frame s s2" "ports_sound ready fine s2 ys" "local_tq p xs ys"
      using fire_one_sound [OF Cons.prems(1) p(1) s1, of e] by (auto simp: succeeds_iff)
    have "set ps \<subseteq> set ys"
      using s2(4) Cons.prems(2,3) tq_distinct [OF p(2)] by (auto simp: local_tq_def)
    from Cons.IH [OF s2(3) _ this] have "succeeds (fire_timeouts tmo e cur ps s2)
        (\<lambda>s'. same_frame s2 s' \<and> (\<exists>ys. ports_sound ready fine s' ys))"
      using Cons.prems(2) by simp
    then show ?thesis
      using True s2(2) by (simp only: fire_timeouts.simps if_True s1 s2(1) and_then_simps)
        (auto elim!: succeeds_mono intro: same_frame_trans)
  qed
qed auto

end

text \<open>
  A GPIO port that is enabled but switched off waits for its timeout, and is being restarted.
\<close>

definition off_waits :: "usb_port \<Rightarrow> bool \<Rightarrow> bool" where
  "off_waits pt waiting \<longleftrightarrow>
     (port_type pt = PORT_TYPE_GPIO \<and> enabled pt \<and> \<not> pwr_state pt \<longrightarrow> waiting \<and> msg_mode pt = RESET)"

lemma start_timeout_power [simp]:
  "port_type (heap (usb_helpers_start_timeout e p t s) q) = port_type (heap s q)"
  "enabled (heap (usb_helpers_start_timeout e p t s) q) = enabled (heap s q)"
  "pwr_state (heap (usb_helpers_start_timeout e p t s) q) = pwr_state (heap s q)"
  "msg_mode (heap (usb_helpers_start_timeout e p t s) q) = msg_mode (heap s q)"
  by simp_all

lemma send_ping_power:
  "enabled (heap (usb_helpers_send_ping e p s) q) = enabled (heap s q)"
  "pwr_state (heap (usb_helpers_send_ping e p s) q) = pwr_state (heap s q)"
  "msg_mode (heap (usb_helpers_send_ping e p s) q) = msg_mode (heap s q)"
  by (simp_all add: usb_helpers_send_ping_def usb_helpers_configure_handle_def usb_open_eq Let_def
      send_ping_transfer_def ping_submit_failed_def sys_call_eq split: option.split)

lemma update_same_type:
  assumes "port_ready (heap s p)" "tq s xs" "port_update e p cmd s = Inr (r, s')"
  shows "port_type (heap s' p) = port_type (heap s p)"
  using ports.update_local [OF assms(1,2), of e cmd] assms(3) by (simp add: port_local_def only_port_def)

lemma timeout_same_type:
  assumes "port_ready (heap s p)" "msg_mode (heap s p) \<noteq> PROBE" "tq s xs" "p \<notin> set xs"
    "port_timeout e p s = Inr s'"
  shows "port_type (heap s' p) = port_type (heap s p)"
  using ports.timeout_local [OF assms(1-4), of e] assms(5) by (simp add: port_local_def only_port_def)

lemma gpio_update_off_waits:
  assumes "tq s xs" and "off_waits (heap s p) (p \<in> set xs) \<or> msg_mode (heap s p) = RESET \<and> cmd = CMD_RESTART"
    and "is_gpio s p" and "gpio_update_port e p cmd s = Inr (r, s')" and "tq s' ys"
  shows "off_waits (heap s' p) (p \<in> set ys)"
  using gpio_update_waiting [OF assms(1), of p cmd e] assms(2-4) tq_unique [OF assms(5)]
  by (auto simp: off_waits_def gpio_on_or_waiting_def)

interpretation resting: resting_handler port_update port_timeout port_ready off_waits
proof
  show "off_waits (heap s' p) (p \<in> set ys)"
    if "port_ready (heap s p)" "tq s xs" "off_waits (heap s p) (p \<in> set xs)"
      "port_update e p cmd s = Inr (r, s')" "tq s' ys" for s p xs e cmd r s' ys
  proof (cases "is_gpio s p")
    case True
    with that show ?thesis by (intro gpio_update_off_waits) (auto simp: port_update_def)
  next
    case False
    then show ?thesis using update_same_type [OF that(1,2,4)] by (simp add: off_waits_def)
  qed
  show "off_waits (heap s' p) (p \<in> set ys)"
    if "port_ready (heap s p)" "msg_mode (heap s p) \<noteq> PROBE" "tq s xs" "p \<notin> set xs"
      "off_waits (heap s p) True" "port_timeout e p s = Inr s'" "tq s' ys" for s p xs e s' ys
  proof (cases "is_gpio s p")
    case True
    show ?thesis
    proof (cases "msg_mode (heap s p) = PING")
      case ping: True
      then have "s' = usb_helpers_send_ping e p s" using that(6) True by (simp add: port_timeout_def gpio_handle_timeout_def)
      then show ?thesis using that(5) ping True by (auto simp: off_waits_def send_ping_power)
    next
      case False
      note run = that(2,6)
      obtain r where "gpio_update_port e p CMD_RESTART s = Inr (r, s')"
        using run True False
        by (auto simp: port_timeout_def gpio_handle_timeout_def and_then_eq_Inr split: port_msg.splits)
      then show ?thesis
        using gpio_update_off_waits [OF that(3) _ True _ that(7)] that(5) False True by (auto simp: off_waits_def)
    qed
  next
    case False
    then show ?thesis using timeout_same_type [OF that(1-4,6)] by (simp add: off_waits_def)
  qed
  show "off_waits pt False" if "off_waits pt True" "\<not> enabled pt" for pt
    using that by (simp add: off_waits_def)
qed

section \<open>Events and reachable states\<close>

text \<open>
  What the loop of the monitor does while the set of ports stays as it is: the walk over the
  timeouts, a restart of all ports (by the timer or by the signal), an event of libusb, the
  commands of a POST, a new and a closed client.
\<close>

datatype monitor_event =
    Timeouts_Due
  | Restart_Ports bool
  | Usb_Event usb_event
  | Post_Ports "json list"
  | Client_In
  | Client_Out nat

definition handle_event :: "env \<Rightarrow> monitor_event \<Rightarrow> sys \<Rightarrow> sys result" where
  "handle_event e ev s =
     (case ev of
        Timeouts_Due \<Rightarrow> usb_monitor_check_timeouts e (Suc (length (port_list s))) s
      | Restart_Ports forced \<Rightarrow> usb_helpers_reset_all_ports e forced s
      | Usb_Event u \<Rightarrow> usb_event_cb 0 e u s
      | Post_Ports js \<Rightarrow> and_then (update_ports_loop e js 0 s) (\<lambda>(_, s). Inr s)
      | Client_In \<Rightarrow> Inr (usb_monitor_accept_cb e s)
      | Client_Out i \<Rightarrow> usb_monitor_client_close e i s)"

text \<open>
  What is assumed of an event. A device is no YKUSH board, which would add ports, and lies at
  most seven hubs deep, the limit of USB. The list of timeouts has to be kept from double
  insertion: no device arrives on a port that waits already and could take it, a transfer
  that would start the timeout ends for a port that does not wait, and the pin of a GPIO port
  can be written when a ping has failed. The elements of a POST are objects.
\<close>

fun transfer_ok :: "env \<Rightarrow> transfer \<Rightarrow> sys \<Rightarrow> bool" where
  "transfer_ok e (Ping_Transfer p h) s \<longleftrightarrow>
     p \<in> set (port_list s) \<and>
     (msg_mode (heap s p) = PING \<longrightarrow> \<not> usb_monitor_lists_is_timeout_active s p) \<and>
     (is_gpio s p \<longrightarrow> pin_writable e (gpio_file (heap s p)))"
| "transfer_ok e (Ykush_Transfer p h b c) s \<longleftrightarrow>
     p \<in> set (port_list s) \<and> port_type (heap s p) = PORT_TYPE_YKUSH \<and>
     (c = Ykush_Reset_Cb \<longrightarrow> \<not> usb_monitor_lists_is_timeout_active s p)"
| "transfer_ok e (Generic_Transfer p h r n) s \<longleftrightarrow>
     p \<in> set (port_list s) \<and> port_type (heap s p) = PORT_TYPE_UNKNOWN \<and>
     \<not> usb_monitor_lists_is_timeout_active s p"

definition event_ok :: "env \<Rightarrow> monitor_event \<Rightarrow> sys \<Rightarrow> bool" where
  "event_ok e ev s \<longleftrightarrow>
     (case ev of
        Usb_Event (Device_Arrived d) \<Rightarrow>
          \<not> is_ykush e d \<and> length (port_numbers e d) \<le> 7 \<and>
          (\<forall>p\<in>set (port_list s). device_path e d \<in> set (port_paths (path (heap s p))) \<longrightarrow>
             can_take_device (heap s p) d \<longrightarrow> \<not> usb_monitor_lists_is_timeout_active s p)
      | Usb_Event (Device_Left d) \<Rightarrow> \<not> is_ykush e d \<and> length (port_numbers e d) \<le> 7
      | Usb_Event (Transfer_Done tr completed) \<Rightarrow> transfer_ok e tr s
      | Post_Ports js \<Rightarrow> (\<forall>j\<in>set js. succeeds (json_members j) (\<lambda>_. True))
      | Client_Out i \<Rightarrow> i < MAX_HTTP_CLIENTS \<and> \<not> bit (clients_map s) i
      | _ \<Rightarrow> True)"

inductive reachable :: "env \<Rightarrow> sys \<Rightarrow> sys \<Rightarrow> bool" for e s0 where
  start: "reachable e s0 s0"
| event: "reachable e s0 s \<Longrightarrow> event_ok e ev s \<Longrightarrow> handle_event e ev s = Inr s' \<Longrightarrow> reachable e s0 s'"

definition monitor_sound :: "sys \<Rightarrow> bool" where
  "monitor_sound s \<longleftrightarrow> slots_ok s \<and> (\<exists>xs. ports_sound port_ready off_waits s xs)"

text \<open>Every kind of event keeps the state sound, one lemma for each.\<close>

abbreviation sound :: "sys \<Rightarrow> pid list \<Rightarrow> bool" where
  "sound \<equiv> ports_sound port_ready off_waits"

abbreviation stays_sound :: "sys \<Rightarrow> sys \<Rightarrow> bool" where
  "stays_sound s s' \<equiv> same_frame s s' \<and> (\<exists>ys. sound s' ys)"

lemma sound_clock [simp]: "sound (s\<lparr>trace := tr\<rparr>) xs = sound s xs"
  by (simp add: ports_sound_def)

lemma sound_sys_do [simp]: "sound (sys_do e c s) xs = sound s xs"
  by (simp add: ports_sound_def)

lemma same_frame_sys_do [simp]: "same_frame s (sys_do e c s') = same_frame s s'"
  by (simp add: same_frame_def)

lemma sound_length: "sound s xs \<Longrightarrow> length xs \<le> length (port_list s)"
  by (metis card_mono distinct_card finite_set ports_sound_def tq_distinct)

lemma timeouts_sound:
  assumes "sound s xs"
  shows "succeeds (usb_monitor_check_timeouts e (Suc (length (port_list s))) s) (stays_sound s)"
proof -
  let ?s = "s\<lparr>trace := (Clock_Gettime, 0) # trace s\<rparr>"
  have "tq s xs" "length xs < Suc (length (port_list s))" "distinct xs"
    "\<forall>p\<in>set xs. port_ready (heap s p) \<and> msg_mode (heap s p) \<noteq> PROBE"
    using assms sound_length [OF assms] tq_distinct by (auto simp: ports_sound_def)
  moreover have "succeeds (fire_timeouts port_timeout e (clock e (trace s)) xs ?s) (stays_sound ?s)"
    by (rule resting.fire_sound [of _ xs]) (use assms calculation(3) in simp_all)
  ultimately show ?thesis by (simp add: check_timeouts_fold same_frame_def)
qed

lemma restart_sound:
  assumes "sound s xs" and "set ps \<subseteq> set (port_list s)"
  shows "succeeds (restart_each e ps s) (stays_sound s)"
  using assms
proof (induction ps arbitrary: s xs)
  case (Cons p ps)
  obtain r s1 ys where s1: "port_update e p CMD_RESTART s = Inr (r, s1)" "same_frame s s1" "sound s1 ys"
    using resting.update_sound [OF Cons.prems(1), of p e CMD_RESTART] Cons.prems(2) by (auto elim!: succeeds_pairE)
  have "set ps \<subseteq> set (port_list s1)" using Cons.prems(2) s1(2) by (simp add: same_frame_def)
  from Cons.IH [OF s1(3) this] show ?case
    using s1(1,2) by (auto elim!: succeeds_mono intro: same_frame_trans)
qed auto

lemma restart_all_sound:
  assumes "sound s xs"
  shows "succeeds (usb_helpers_reset_all_ports e forced s) (stays_sound s)"
proof -
  have "tq s xs" "distinct (port_list s)" "\<forall>p\<in>set (port_list s). port_ready (heap s p)"
    using assms by (auto simp: ports_sound_def)
  from reset_loop_restarts [OF this] restart_sound [OF assms] show ?thesis
    by (simp add: usb_helpers_reset_all_ports_def)
qed

lemma one_port_sound:
  assumes "sound s xs" "p \<in> set (port_list s)" "only_port p s s'" "tq s' ys" "local_tq p xs ys"
    "off_waits (heap s' p) (p \<in> set ys)"
  shows "stays_sound s s'"
  using resting.local_sound [OF assms] only_port_frame' [OF assms(3)] by blast

subsection \<open>Devices\<close>

lemma find_in_list: "List.find P xs = Some x \<Longrightarrow> x \<in> set xs \<and> P x"
  by (induction xs) (auto split: if_splits)

lemma start_sound:
  assumes "sound s xs" "p \<in> set (port_list s)" "p \<notin> set xs" "only_port p s s1" "tq s1 xs"
    and "\<not> (port_type (heap s1 p) = PORT_TYPE_GPIO \<and> enabled (heap s1 p) \<and> \<not> pwr_state (heap s1 p)) \<or> msg_mode (heap s1 p) = RESET"
  shows "sound (usb_helpers_start_timeout e p t s1) (p # xs)"
proof (rule resting.local_sound [OF assms(1,2)])
  show "tq (usb_helpers_start_timeout e p t s1) (p # xs)" using assms(3,5) by (rule start_timeout_tq [rotated])
  show "off_waits (heap (usb_helpers_start_timeout e p t s1) p) (p \<in> set (p # xs))"
    using assms(6) by (auto simp: off_waits_def)
qed (use assms(3,4) in \<open>simp_all add: local_tq_def remove1_idem\<close>)

lemma arrived_sound:
  assumes s: "sound s xs" and ok: "event_ok e (Usb_Event (Device_Arrived d)) s"
  shows "succeeds (usb_device_added e d s) (stays_sound s)"
proof -
  have intact: "\<forall>p\<in>set (port_list s). paths_intact (heap s p)" using s by (simp add: ports_sound_def)
  have "length (port_numbers e d) \<le> 7" using ok by (simp add: event_ok_def)
  note find = find_device_port [OF intact this]
  let ?found = "List.find (\<lambda>p. device_path e d \<in> set (port_paths (path (heap s p)))) (port_list s)"
  show ?thesis
  proof (cases ?found)
    case None
    then show ?thesis using find s by (auto simp: usb_device_added_def case_prod_beta)
  next
    case (Some p)
    have p: "p \<in> set (port_list s)" "device_path e d \<in> set (port_paths (path (heap s p)))"
      using find_in_list [OF Some] by auto
    have m: "msg_mode (heap s p) \<noteq> PROBE" using s p(1) by (simp add: ports_sound_def)
    show ?thesis
    proof (cases "can_take_device (heap s p) d")
      case False
      then show ?thesis using find Some s m
        by (auto simp: usb_device_added_def case_prod_beta can_take_device_def)
    next
      case True
      define s1 where "s1 = sys_do e (Usb_Ref (Some d)) (port_upd p (\<lambda>pt. pt\<lparr>vid := id_vendor e d, pid := id_product e d,
                                            status := PORT_DEV_CONNECTED, dev := Some d\<rparr>) s)"
      define s2 where "s2 = usb_helpers_start_timeout e p ADDED_TIMEOUT_SEC (port_upd p (\<lambda>pt. pt\<lparr>msg_mode := PING\<rparr>) s1)"
      have tq: "tq s xs" using s by (simp add: ports_sound_def)
      have px: "p \<notin> set xs" using ok True p tq by (auto simp: event_ok_def)
      have off: "off_waits (heap s p) False" using s p(1) px by (auto simp: ports_sound_def)
      have "sound s2 (p # xs)" unfolding s2_def
        by (rule start_sound [OF s p(1) px]) (use tq off in \<open>auto simp: s1_def off_waits_def\<close>)
      moreover have "same_frame s s2" by (simp add: s2_def s1_def same_frame_def)
      moreover have "succeeds (port_update e p CMD_RESTART s2) (\<lambda>(r, s'). stays_sound s2 s')"
        using resting.update_sound [OF calculation(1), of p e CMD_RESTART] p(1) calculation(2) by (simp add: same_frame_def)
      moreover have "usb_device_added e d s =
          (if usb_helpers_check_bad_id s2 p then and_then (port_update e p CMD_RESTART s2) (\<lambda>(_, s). Inr s) else Inr s2)"
        using find Some True m
        by (simp add: usb_device_added_def case_prod_beta can_take_device_def s2_def s1_def Let_def)
      ultimately show ?thesis by (auto elim!: succeeds_pairE intro: same_frame_trans)
    qed
  qed
qed

lemma removed_sound:
  assumes s: "sound s xs" and len: "length (port_numbers e d) \<le> 7"
  shows "succeeds (usb_device_removed e d s) (stays_sound s)"
proof -
  have intact: "\<forall>p\<in>set (port_list s). paths_intact (heap s p)" using s by (simp add: ports_sound_def)
  note find = find_device_port [OF intact len]
  let ?found = "List.find (\<lambda>p. device_path e d \<in> set (port_paths (path (heap s p)))) (port_list s)"
  show ?thesis
  proof (cases ?found)
    case None
    then show ?thesis using find s by (auto simp: usb_device_removed_def case_prod_beta)
  next
    case (Some p)
    have p: "p \<in> set (port_list s)" using find_in_list [OF Some] by simp
    have tq: "tq s xs" "off_waits (heap s p) (p \<in> set xs)" "msg_mode (heap s p) \<noteq> PROBE"
      using s p by (auto simp: ports_sound_def)
    define ys where "ys = (if msg_mode (heap s p) = RESET \<or> msg_mode (heap s p) = PROBE then xs else remove1 p xs)"
    obtain s' where s': "usb_helpers_reset_port e p s = Inr s'" "only_port p s s'" "tq s' ys"
        "heap s' p = (heap s p)\<lparr>vid := 0, pid := 0, dev := None, dev_handle := None,
           status := PORT_NO_DEV_CONNECTED, num_retrans := 0\<rparr>"
      using reset_port_result [OF tq(1), of e p] by (auto simp: ys_def)
    have "local_tq p xs ys" by (simp add: ys_def local_tq_def)
    moreover have "off_waits (heap s' p) (p \<in> set ys)"
      using tq by (auto simp: s'(4) off_waits_def ys_def)
    ultimately have "stays_sound s s'" by (rule one_port_sound [OF s p s'(2,3)])
    then show ?thesis
      using find Some s'(1) by (simp add: usb_device_removed_def case_prod_beta)
  qed
qed

subsection \<open>Transfers\<close>

text \<open>A restart that reports failure has left the timeouts alone, unless it could not write a pin.\<close>

lemma failed_update_keeps:
  assumes "tq s xs" "p \<notin> set xs" "port_update e p CMD_RESTART s = Inr (r, s')" "r \<noteq> 0"
    and "is_gpio s p \<Longrightarrow> pin_writable e (gpio_file (heap s p))"
  shows "tq s' xs"
proof (cases "port_type (heap s p)")
  case PORT_TYPE_GPIO
  then have u: "gpio_update_port e p CMD_RESTART s = Inr (r, s')" "pin_writable e (gpio_file (heap s p))"
    using assms(3,5) by (simp_all add: port_update_def)
  have "r = 0"
  proof (cases "enabled (heap s p)")
    case True
    then show ?thesis
      using gpio_restart_off [OF assms(1) True _ u(2)] gpio_restart_on [OF assms(1) True _ u(2)] u(1)
      by (metis Inr_inject prod.inject)
  next
    case False
    then show ?thesis using u(1) by (simp add: gpio_update_port_def)
  qed
  then show ?thesis using assms(4) by simp
next
  case PORT_TYPE_UNKNOWN
  then have "generic_update_port e p CMD_RESTART s = Inr (r, s')" using assms(3) by (simp add: port_update_def)
  then have "r = 0"
    by (auto simp: generic_update_port_def and_then_eq_Inr sys_call_eq Let_def split: if_splits option.splits)
  then show ?thesis using assms(4) by simp
next
  case PORT_TYPE_YKUSH
  then have "ykush_update_port e p CMD_RESTART s = Inr (r, s')" using assms(3) by (simp add: port_update_def)
  then have "s' = s"
    using assms(4) by (auto simp: ykush_update_port_def and_then_eq_Inr Let_def split: if_splits option.splits)
  then show ?thesis using assms(1) by simp
next
  case PORT_TYPE_LANNER
  then have "(r, s') = lanner_update_port p CMD_RESTART s" using assms(3) by (simp add: port_update_def)
  then have "s' = s"
    using assms(4) by (auto simp: lanner_update_port_def Let_def split: if_splits)
  then show ?thesis using assms(1) by simp
qed

lemma sound_member:
  "sound s xs \<Longrightarrow> p \<in> set (port_list s) \<Longrightarrow>
   tq s xs \<and> port_ready (heap s p) \<and> msg_mode (heap s p) \<noteq> PROBE \<and> off_waits (heap s p) (p \<in> set xs)"
  by (simp add: ports_sound_def)

lemma upd_sound:
  assumes "sound s xs" "p \<in> set (port_list s)" "only_port p s (port_upd p f s)"
    and "off_waits (f (heap s p)) (p \<in> set xs)"
  shows "sound (port_upd p f s) xs" "same_frame s (port_upd p f s)"
  using resting.local_sound [OF assms(1-3), of xs] assms(4) sound_member [OF assms(1,2)]
    only_port_frame' [OF assms(3)] by simp_all

lemma ping_sound:
  assumes s: "sound s xs" and ok: "transfer_ok e (Ping_Transfer p h) s"
  shows "succeeds (usb_helpers_ping_cb e p completed s) (stays_sound s)"
proof (cases "enabled (heap s p) \<and> msg_mode (heap s p) = PING")
  case False
  then show ?thesis using s by (auto simp: usb_helpers_ping_cb_def)
next
  case True
  have p: "p \<in> set (port_list s)" and gpio: "is_gpio s p \<Longrightarrow> pin_writable e (gpio_file (heap s p))"
    using ok by simp_all
  note m = sound_member [OF s p]
  have px: "p \<notin> set xs" using ok True m tq_active [of s xs p] by simp
  have on: "off_waits (heap s p) False" using m px by simp
  have st: "stays_sound s (usb_helpers_start_timeout e p t s1)"
    if "only_port p s s1" "tq s1 xs" "port_type (heap s1 p) = PORT_TYPE_GPIO \<longrightarrow> enabled (heap s1 p) \<longrightarrow> pwr_state (heap s1 p)" for t s1
    using start_sound [OF s p px that(1,2)] that(3) only_port_frame' [OF that(1)] by (auto simp: same_frame_def)
  define s1 where "s1 = port_upd p (\<lambda>pt. pt\<lparr>num_retrans := 0\<rparr>) s"
  have s1: "only_port p s s1" "sound s1 xs" "same_frame s s1" "p \<in> set (port_list s1)"
    using upd_sound [OF s p, of "\<lambda>pt. pt\<lparr>num_retrans := 0\<rparr>"] m p by (simp_all add: s1_def off_waits_def)
  have g1: "is_gpio s1 p \<Longrightarrow> pin_writable e (gpio_file (heap s1 p))"
    using gpio by (simp add: s1_def gpio_file_def cong: option.case_cong)
  have failed: "succeeds (port_update e p CMD_RESTART s1) (\<lambda>(r, s'). stays_sound s
      (if r \<noteq> 0 then usb_helpers_start_timeout e p DEFAULT_TIMEOUT_SEC
                       (port_upd p (\<lambda>pt. pt\<lparr>num_retrans := USB_RETRANS_LIMIT\<rparr>) s') else s'))"
  proof -
    obtain r s2 ys where u: "port_update e p CMD_RESTART s1 = Inr (r, s2)" "same_frame s1 s2" "sound s2 ys"
      using resting.update_sound [OF s1(2,4), of e CMD_RESTART] by (auto elim!: succeeds_pairE)
    have frame: "same_frame s s2" using s1(3) u(2) by (rule same_frame_trans)
    have p2: "p \<in> set (port_list s2)" using p frame by (simp add: same_frame_def)
    have "stays_sound s (usb_helpers_start_timeout e p DEFAULT_TIMEOUT_SEC
            (port_upd p (\<lambda>pt. pt\<lparr>num_retrans := USB_RETRANS_LIMIT\<rparr>) s2))" if "r \<noteq> 0"
    proof -
      have "tq s2 xs" using failed_update_keeps [OF _ px u(1) that g1] s1(2) by (simp add: ports_sound_def)
      then have ys: "ys = xs" using u(3) tq_unique by (auto simp: ports_sound_def)
      note m2 = sound_member [OF u(3) p2]
      have "sound (usb_helpers_start_timeout e p DEFAULT_TIMEOUT_SEC
            (port_upd p (\<lambda>pt. pt\<lparr>num_retrans := USB_RETRANS_LIMIT\<rparr>) s2)) (p # ys)"
        by (rule start_sound [OF u(3) p2]) (use m2 px ys in \<open>auto simp: off_waits_def\<close>)
      then show ?thesis using frame by (auto simp: same_frame_def)
    qed
    then show ?thesis using u frame by auto
  qed
  have up: "port_type (heap s p) = PORT_TYPE_GPIO \<longrightarrow> pwr_state (heap s p)"
    using on True by (auto simp: off_waits_def)
  show ?thesis
  proof (cases completed)
    case compl: True
    define s3 where "s3 = port_upd p (\<lambda>pt. pt\<lparr>num_retrans := 0\<rparr>)
      (let s = port_upd p (\<lambda>pt. pt\<lparr>ping_cnt := ping_cnt pt + 1\<rparr>) s
       in if ping_cnt (heap s p) = PING_OUTPUT then port_upd p (\<lambda>pt. pt\<lparr>ping_cnt := 0\<rparr>) s else s)"
    have "usb_helpers_ping_cb e p completed s = Inr (usb_helpers_start_timeout e p DEFAULT_TIMEOUT_SEC s3)"
      using True compl by (simp add: usb_helpers_ping_cb_def Let_def s3_def)
    moreover have "stays_sound s (usb_helpers_start_timeout e p DEFAULT_TIMEOUT_SEC s3)"
      by (rule st) (use m up in \<open>simp_all add: s3_def Let_def\<close>)
    ultimately show ?thesis by simp
  next
    case fail: False
    show ?thesis
    proof (cases "num_retrans (heap s p) = USB_RETRANS_LIMIT")
      case lim: True
      have "msg_mode (heap s1 p) \<noteq> RESET" using True by (simp add: s1_def)
      then have "usb_helpers_ping_cb e p completed s = and_then (port_update e p CMD_RESTART s1) (\<lambda>(r, s). Inr
          (if r \<noteq> 0 then usb_helpers_start_timeout e p DEFAULT_TIMEOUT_SEC
                       (port_upd p (\<lambda>pt. pt\<lparr>num_retrans := USB_RETRANS_LIMIT\<rparr>) s) else s))"
        using True fail lim by (simp add: usb_helpers_ping_cb_def Let_def s1_def if_distrib cong: if_cong)
      then show ?thesis using failed by (auto elim!: succeeds_mono)
    next
      case False
      have "stays_sound s (usb_helpers_start_timeout e p DEFAULT_TIMEOUT_SEC
              (port_upd p (\<lambda>pt. pt\<lparr>num_retrans := num_retrans pt + 1\<rparr>) s))"
        by (rule st) (use m up in simp_all)
      then show ?thesis using True fail False by (simp add: usb_helpers_ping_cb_def)
    qed
  qed
qed

text \<open>The callbacks of the hubs: a port that is no GPIO port may be changed in any way that is local.\<close>

lemma hub_port_sound:
  assumes "sound s xs" "p \<in> set (port_list s)" "port_local p s xs s'" "port_type (heap s' p) \<noteq> PORT_TYPE_GPIO"
  shows "stays_sound s s'"
  using one_port_sound [OF assms(1,2)] assms(3,4) by (auto simp: port_local_def off_waits_def)

lemma hub_callbacks_local:
  assumes "tq s xs"
  shows "port_local p s xs (ykush_enable_cb p completed s)"
    and "port_local p s xs (ykush_disable_cb p completed s)"
    and "p \<notin> set xs \<Longrightarrow> port_local p s xs (ykush_reset_cb e p completed s)"
    and "p \<notin> set xs \<Longrightarrow> port_local p s xs (generic_update_cb e p completed s)"
  using assms
  by (auto simp: ykush_enable_cb_def ykush_disable_cb_def ykush_reset_cb_def generic_update_cb_def Let_def
      intro: port_local_same' start_timeout_local')

lemma hub_callbacks_type:
  "port_type (heap (ykush_enable_cb p completed s) q) = port_type (heap s q)"
  "port_type (heap (ykush_disable_cb p completed s) q) = port_type (heap s q)"
  "port_type (heap (ykush_reset_cb e p completed s) q) = port_type (heap s q)"
  "port_type (heap (generic_update_cb e p completed s) q) = port_type (heap s q)"
  by (simp_all add: ykush_enable_cb_def ykush_disable_cb_def ykush_reset_cb_def generic_update_cb_def Let_def)

lemma transfer_sound:
  assumes s: "sound s xs" and ok: "transfer_ok e tr s"
  shows "succeeds (transfer_done e tr completed s) (stays_sound s)"
proof (cases tr)
  case (Ping_Transfer p h)
  then show ?thesis using ping_sound [OF s, of e p h completed] ok by (simp add: transfer_done_def)
next
  case (Ykush_Transfer p h b c)
  have p: "p \<in> set (port_list s)" "port_type (heap s p) \<noteq> PORT_TYPE_GPIO" "tq s xs"
    and w: "c = Ykush_Reset_Cb \<Longrightarrow> p \<notin> set xs"
    using ok s tq_active [of s xs p] unfolding Ykush_Transfer by (auto simp: ports_sound_def)
  note loc = hub_callbacks_local [OF p(3), of p]
  show ?thesis
    using hub_port_sound [OF s p(1) loc(1)] hub_port_sound [OF s p(1) loc(2)]
      hub_port_sound [OF s p(1) loc(3) [OF w]] p(2)
    by (cases c) (simp_all add: Ykush_Transfer transfer_done_def hub_callbacks_type)
next
  case (Generic_Transfer p h r n)
  have p: "p \<in> set (port_list s)" "port_type (heap s p) \<noteq> PORT_TYPE_GPIO" "tq s xs" "p \<notin> set xs"
    using ok s tq_active [of s xs p] unfolding Generic_Transfer by (auto simp: ports_sound_def)
  show ?thesis
    using hub_port_sound [OF s p(1) hub_callbacks_local(4) [OF p(3,4)]] p(2)
    by (simp add: Generic_Transfer transfer_done_def hub_callbacks_type)
qed

subsection \<open>Commands\<close>

lemma char_path_length: "usb_helpers_convert_char_to_path txt = Some q \<Longrightarrow> length q \<le> 8"
  by (auto simp: convert_char_to_path_tokens split: if_splits)

lemma update_one_sound:
  assumes s: "sound s xs"
  shows "succeeds (update_one e p cmd f s) (\<lambda>(r, s'). stays_sound s s')"
proof (cases "p = None \<or> CMD_DISABLE < cmd \<or> usb_helpers_convert_char_to_path (the p) = None")
  case True
  then show ?thesis using s by (auto simp: update_one_def split: option.split)
next
  case False
  then obtain t q where q: "p = Some t" "\<not> CMD_DISABLE < cmd" "usb_helpers_convert_char_to_path t = Some q" by auto
  have "\<forall>p\<in>set (port_list s). paths_intact (heap s p)" using s by (simp add: ports_sound_def)
  moreover have "length q < 256" using char_path_length [OF q(3)] by simp
  ultimately have find: "usb_monitor_lists_find_port_path s q (of_nat (length q)) =
      Inr (List.find (\<lambda>p. q \<in> set (port_paths (path (heap s p)))) (port_list s))"
    by (simp add: usb_monitor_lists_find_port_path_def find_port_loop_intact)
  show ?thesis
  proof (cases "List.find (\<lambda>p. q \<in> set (port_paths (path (heap s p)))) (port_list s)")
    case None
    then show ?thesis using q find s by (auto simp: update_one_def)
  next
    case (Some i)
    have "succeeds (port_update e i cmd s) (\<lambda>(r, s'). stays_sound s s')"
      using resting.update_sound [OF s] find_in_list [OF Some] by simp
    then show ?thesis using q find Some s by (auto simp: update_one_def elim!: succeeds_pairE)
  qed
qed

lemma update_loop_sound:
  assumes "sound s xs" and "\<forall>j\<in>set js. succeeds (json_members j) (\<lambda>_. True)"
  shows "succeeds (update_ports_loop e js f s) (\<lambda>(r, s'). stays_sound s s')"
  using assms
proof (induction js arbitrary: f s xs)
  case (Cons j js)
  obtain ms where ms: "json_members j = Inr ms" using Cons.prems(2) by (auto simp: succeeds_iff)
  obtain p c where pc: "update_entry e ms (None, 0) = (p, c)" by force
  obtain f1 go s1 ys where u: "update_one e p c f s = Inr ((f1, go), s1)" "same_frame s s1" "sound s1 ys"
    using update_one_sound [OF Cons.prems(1), of e p c f] by (auto elim!: succeeds_pairE)
  have "succeeds (update_ports_loop e js f1 s1) (\<lambda>(r, s'). stays_sound s1 s')"
    using Cons.IH [OF u(3)] Cons.prems(2) by simp
  then have "succeeds (update_ports_loop e js f1 s1) (\<lambda>(r, s'). stays_sound s s')"
    using u(2) by (auto elim!: succeeds_mono intro: same_frame_trans)
  then show ?case using ms pc u by auto
qed auto

subsection \<open>Every event\<close>

lemma accept_any:
  assumes "slots_ok s"
  shows "slots_ok (usb_monitor_accept_cb e s) \<and> heap (usb_monitor_accept_cb e s) = heap s \<and>
         timeout_q (usb_monitor_accept_cb e s) = timeout_q s \<and> port_list (usb_monitor_accept_cb e s) = port_list s"
proof -
  have f: "heap (usb_monitor_accept_cb e s) = heap s" "timeout_q (usb_monitor_accept_cb e s) = timeout_q s"
    "port_list (usb_monitor_accept_cb e s) = port_list s"
    by (simp_all add: usb_monitor_accept_cb_def usb_monitor_configure_client_def backend_event_loop_update_def
        sys_call_eq Let_def)
  have tr: "trace (sys_do e Accept s) = (Accept, answer e (trace s) Accept) # trace s"
    by (simp add: sys_do_def sys_call_def Let_def)
  consider "clients_map s = 0"
    | "clients_map s \<noteq> 0" "clients s (ffs (clients_map s) - 1) = None"
      "answer e ((Accept, answer e (trace s) Accept) # trace s) Malloc = 0"
    | "clients_map s \<noteq> 0" "clients s (ffs (clients_map s) - 1) = None \<Longrightarrow>
        answer e ((Accept, answer e (trace s) Accept) # trace s) Malloc \<noteq> 0" by metis
  then have "slots_ok (usb_monitor_accept_cb e s)"
  proof cases
    case 3
    then show ?thesis by (rule accept_slots(4) [OF assms])
  qed (use assms in \<open>simp_all add: usb_monitor_accept_cb_def sys_call_eq Let_def slots_ok_def tr\<close>)
  with f show ?thesis by simp
qed

lemma close_ports:
  assumes "usb_monitor_client_close e i s = Inr s'"
  shows "heap s' = heap s \<and> timeout_q s' = timeout_q s \<and> port_list s' = port_list s"
  using assms by (auto simp: usb_monitor_client_close_def with_client_def split: option.splits)

lemma sound_cong:
  "heap s' = heap s \<Longrightarrow> timeout_q s' = timeout_q s \<Longrightarrow> port_list s' = port_list s \<Longrightarrow> sound s' xs = sound s xs"
  by (simp add: ports_sound_def tq_def)

lemma slots_cong: "same_frame s s' \<Longrightarrow> slots_ok s' = slots_ok s"
  by (simp add: same_frame_def slots_ok_def)

lemma stays_monitor_sound:
  "slots_ok s \<Longrightarrow> succeeds r (stays_sound s) \<Longrightarrow> succeeds r (\<lambda>s'. monitor_sound s' \<and> port_list s' = port_list s)"
  by (auto elim!: succeeds_mono simp: monitor_sound_def slots_cong) (simp add: same_frame_def)

lemma event_sound:
  assumes s: "monitor_sound s" and ok: "event_ok e ev s"
  shows "succeeds (handle_event e ev s) (\<lambda>s'. monitor_sound s' \<and> port_list s' = port_list s)"
proof -
  obtain xs where sl: "slots_ok s" and so: "sound s xs" using s by (auto simp: monitor_sound_def)
  note stays = stays_monitor_sound [OF sl]
  show ?thesis
  proof (cases ev)
    case Timeouts_Due
    then show ?thesis using stays [OF timeouts_sound [OF so]] by (simp add: handle_event_def)
  next
    case (Restart_Ports forced)
    then show ?thesis using stays [OF restart_all_sound [OF so]] by (simp add: handle_event_def)
  next
    case (Usb_Event u)
    show ?thesis
    proof (cases u)
      case (Device_Arrived d)
      then show ?thesis
        using stays [OF arrived_sound [OF so, of e d]] ok
        by (simp add: handle_event_def Usb_Event usb_event_cb_def usb_monitor_cb_def event_ok_def)
    next
      case (Device_Left d)
      then show ?thesis
        using stays [OF removed_sound [OF so, of e d]] ok
        by (simp add: handle_event_def Usb_Event usb_event_cb_def usb_monitor_cb_def event_ok_def)
    next
      case (Transfer_Done tr completed)
      then show ?thesis
        using stays [OF transfer_sound [OF so, of e tr completed]] ok
        by (simp add: handle_event_def Usb_Event usb_event_cb_def event_ok_def)
    qed
  next
    case (Post_Ports js)
    have "succeeds (update_ports_loop e js 0 s) (\<lambda>(r, s'). stays_sound s s')"
      by (rule update_loop_sound [OF so]) (use ok Post_Ports in \<open>simp add: event_ok_def\<close>)
    then have "succeeds (and_then (update_ports_loop e js 0 s) (\<lambda>(_, s). Inr s)) (stays_sound s)"
      by (auto elim!: succeeds_mono)
    from stays [OF this] show ?thesis by (simp add: handle_event_def Post_Ports)
  next
    case Client_In
    have "sound (usb_monitor_accept_cb e s) xs" using accept_any [OF sl, of e] so sound_cong by blast
    then show ?thesis using Client_In accept_any [OF sl, of e] by (auto simp: handle_event_def monitor_sound_def)
  next
    case (Client_Out i)
    then have i: "i < MAX_HTTP_CLIENTS" "\<not> bit (clients_map s) i" using ok by (simp_all add: event_ok_def)
    obtain s' where s': "usb_monitor_client_close e i s = Inr s'" "slots_ok s'"
      using close_slots [OF sl i] by metis
    then have "sound s' xs" using close_ports [OF s'(1)] so sound_cong by blast
    then show ?thesis using s' close_ports [OF s'(1)] by (auto simp: handle_event_def Client_Out monitor_sound_def)
  qed
qed

lemma reachable_sound:
  assumes "reachable e s0 s" and "monitor_sound s0"
  shows "monitor_sound s \<and> port_list s = port_list s0"
  using assms
proof (induction rule: reachable.induct)
  case (event s ev s')
  then show ?case using event_sound [of s e ev] by simp
qed simp

lemma sound_off_waits:
  assumes "monitor_sound s"
  shows "\<exists>xs. tq s xs \<and> (\<forall>p\<in>set (port_list s). is_gpio s p \<and> enabled (heap s p) \<and> \<not> pwr_state (heap s p) \<longrightarrow>
           p \<in> set xs \<and> msg_mode (heap s p) = RESET)"
  using assms by (auto simp: monitor_sound_def ports_sound_def off_waits_def)

section \<open>A port that is disabled and enabled while it restarts\<close>

text \<open>
  \<open>gpio_update_port\<close> leaves a waiting port on the timeout list when it is disabled or enabled.
  The device that then appears on it starts the timeout of the port at the head of the list.
\<close>

lemma disabled_while_restarting:
  assumes gpio: "is_gpio s p" and tq: "tq s xs" and on: "enabled (heap s p)" "pwr_state (heap s p)"
    and pin: "pin_writable e (gpio_file (heap s p))"
    and intact: "\<forall>p\<in>set (port_list s). paths_intact (heap s p)" and len: "length (port_numbers e d) \<le> 7"
    and found: "List.find (\<lambda>p. device_path e d \<in> set (port_paths (path (heap s p)))) (port_list s) = Some p"
    and new: "dev (heap s p) \<noteq> Some d"
    and bad: "\<not> list_ex (\<lambda>(v, i). id_vendor e d = v \<and> id_product e d = i)
                 (take (unat (num_bad_device_ids s)) (bad_device_ids s))"
  shows "\<exists>s1 s2 s3 s4. port_update e p CMD_RESTART s = Inr (0, s1) \<and> takes_command (heap s1 p) CMD_DISABLE \<and>
           port_update e p CMD_DISABLE s1 = Inr (0, s2) \<and> takes_command (heap s2 p) CMD_ENABLE \<and>
           port_update e p CMD_ENABLE s2 = Inr (0, s3) \<and> usb_device_added e d s3 = Inr s4 \<and>
           le_next (timeout_q s4) p = Some p \<and>
           (\<forall>n. clock e (trace s4) < timeout_expire (heap s4 p) \<longrightarrow> usb_monitor_check_timeouts e n s4 = Inl No_Fuel)"
proof -
  obtain s1 ex where s1: "gpio_update_port e p CMD_RESTART s = Inr (0, s1)" "tq s1 (p # remove1 p xs)"
      "heap s1 = (heap s)(p := (heap s p)\<lparr>msg_mode := RESET, pwr_state := False, timeout_expire := ex\<rparr>)"
    by (rule gpio_restart_off [OF tq on pin])
  have o1: "only_port p s s1"
    using gpio.update_local [OF _ tq, of e p CMD_RESTART] s1(1) by (simp add: port_local_def)
  have pin1: "pin_writable e (gpio_file (heap s1 p))"
    using pin by (simp add: s1(3) gpio_file_def cong: option.case_cong)
  obtain t2 where t2: "gpio_update_port e p CMD_DISABLE s1 = Inr (0, port_upd p
      (\<lambda>pt. pt\<lparr>enabled := False, pwr_state := False, msg_mode := IDLE\<rparr>) (s1\<lparr>trace := t2\<rparr>))"
    by (rule gpio_disable_run [OF pin1])
  define s2 where "s2 = port_upd p (\<lambda>pt. pt\<lparr>enabled := False, pwr_state := False, msg_mode := IDLE\<rparr>) (s1\<lparr>trace := t2\<rparr>)"
  have pin2: "pin_writable e (gpio_file (heap s2 p))"
    using pin by (simp add: s2_def s1(3) gpio_file_def cong: option.case_cong)
  obtain t3 where t3: "gpio_update_port e p CMD_ENABLE s2 = Inr (0, port_upd p
      (\<lambda>pt. pt\<lparr>enabled := True, pwr_state := True\<rparr>) (s2\<lparr>trace := t3\<rparr>))"
    by (rule gpio_enable_run [OF pin2])
  define s3 where "s3 = port_upd p (\<lambda>pt. pt\<lparr>enabled := True, pwr_state := True\<rparr>) (s2\<lparr>trace := t3\<rparr>)"
  have h3: "heap s3 p = (heap s p)\<lparr>msg_mode := IDLE, pwr_state := True, timeout_expire := ex, enabled := True\<rparr>"
    "\<And>q. q \<noteq> p \<Longrightarrow> heap s3 q = heap s q" "tq s3 (p # remove1 p xs)"
    using s1(2) by (simp_all add: s3_def s2_def s1(3))
  have f3: "port_list s3 = port_list s" "num_bad_device_ids s3 = num_bad_device_ids s" "bad_device_ids s3 = bad_device_ids s"
    using o1 by (simp_all add: s3_def s2_def only_port_def)
  have paths: "path (heap s3 q) = path (heap s q)" "path_len (heap s3 q) = path_len (heap s q)" for q
    using h3(1,2) by (cases "q = p"; simp)+
  have i3: "\<forall>p\<in>set (port_list s3). paths_intact (heap s3 p)"
    using intact by (simp add: f3 paths_intact_def paths)
  have c3: "can_take_device (heap s3 p) d" using new by (simp add: h3(1) can_take_device_def)
  obtain s4 where s4: "usb_device_added e d s3 = Inr s4" "lh_first (timeout_q s4) = Some p" "le_next (timeout_q s4) p = Some p"
    using device_added_run [OF i3 len _ c3] found bad start_timeout_twice [of _ p "remove1 p xs"] h3(3)
    by (simp add: f3 paths)
  have type: "is_gpio s1 p" "is_gpio s2 p" using gpio by (simp_all add: s2_def s1(3))
  have "port_update e p CMD_RESTART s = Inr (0, s1)" "port_update e p CMD_DISABLE s1 = Inr (0, s2)"
    "port_update e p CMD_ENABLE s2 = Inr (0, s3)"
    using s1(1) t2 t3 gpio type by (simp_all add: port_update_def s2_def s3_def)
  moreover have "takes_command (heap s1 p) CMD_DISABLE" "takes_command (heap s2 p) CMD_ENABLE"
    using on(1) by (simp_all add: takes_command_def s1(3) s2_def)
  ultimately show ?thesis using s4 check_self_loop [OF s4(2,3)] by blast
qed

end
