(* ===== verification/Monitor_Setup.thy ===== *)
theory Monitor_Setup
  imports Monitor_Runs
begin

text \<open>
  The configuration and the set-up of \<open>main\<close> only ever add fresh ports: the lemmas go through
  the parsing functions in the order of theory \<open>Configuration\<close>. Together with theory
  \<open>Monitor_Runs\<close> they show that the monitor starts in a sound state.
\<close>

section \<open>What the set-up establishes\<close>

text \<open>
  A port as the configuration makes it, and the state of the ports after any part of the
  set-up: nothing waits, no port is in the list twice, and every port in it is such a port.
\<close>

definition fresh_port :: "usb_port \<Rightarrow> bool" where
  "fresh_port pt \<longleftrightarrow>
     (port_type pt = PORT_TYPE_GPIO \<or> port_type pt = PORT_TYPE_LANNER) \<and> msg_mode pt = IDLE \<and>
     enabled pt \<and> pwr_state pt \<and> dev pt = None \<and> length (path pt) = 2 \<and> length (path_len pt) = 2 \<and>
     (\<forall>copy. Some copy \<in> set (path pt) \<longrightarrow> 0 \<notin> set copy)"

definition setup_ok :: "sys \<Rightarrow> bool" where
  "setup_ok s \<longleftrightarrow>
     tq s [] \<and> distinct (port_list s) \<and> clients_map s = 0x1F \<and>
     (\<forall>p\<in>set (port_list s). p < next_pid s \<and> fresh_port (heap s p))"

definition setup_run :: "('a \<times> sys) result \<Rightarrow> bool" where
  "setup_run r \<longleftrightarrow> (\<forall>x s'. r = Inr (x, s') \<longrightarrow> setup_ok s')"

lemma setup_run_simps [simp]: "setup_run (Inl f)" "setup_run (Inr (x, s)) = setup_ok s"
  by (simp_all add: setup_run_def)

lemma setup_pair: "setup_run (Inr y) = setup_ok (snd y)"
  by (cases y) simp

lemma setup_bind: "setup_run r \<Longrightarrow> (\<And>x s. setup_ok s \<Longrightarrow> setup_run (f (x, s))) \<Longrightarrow> setup_run (and_then r f)"
  by (cases r) (auto simp: setup_run_def)

lemma setup_value: "(\<And>x. r = Inr x \<Longrightarrow> setup_run (f x)) \<Longrightarrow> setup_run (and_then r f)"
  by (cases r) auto

lemma setup_if: "setup_run r \<Longrightarrow> setup_run r' \<Longrightarrow> setup_run (if b then r else r')"
  by simp

text \<open>A state update that keeps the ports keeps the condition.\<close>

lemma setup_cong:
  "heap s' = heap s \<Longrightarrow> port_list s' = port_list s \<Longrightarrow> timeout_q s' = timeout_q s \<Longrightarrow> next_pid s' = next_pid s \<Longrightarrow>
   clients_map s' = clients_map s \<Longrightarrow> setup_ok s' = setup_ok s"
  by (simp add: setup_ok_def tq_def)

lemma setup_frame [simp]:
  "setup_ok (sys_do e c s) = setup_ok s" "setup_ok (shared_upd l f s) = setup_ok s"
  "setup_ok (s\<lparr>trace := tr\<rparr>) = setup_ok s" "setup_ok (s\<lparr>next_shared := n\<rparr>) = setup_ok s"
  "setup_ok (s\<lparr>mcu_info := m\<rparr>) = setup_ok s" "setup_ok (s\<lparr>bad_device_ids := b\<rparr>) = setup_ok s"
  "setup_ok (s\<lparr>num_bad_device_ids := k\<rparr>) = setup_ok s" "setup_ok (s\<lparr>disable_auto_restart := d\<rparr>) = setup_ok s"
  "setup_ok (s\<lparr>timer_q := q\<rparr>) = setup_ok s" "setup_ok (s\<lparr>timers := tm\<rparr>) = setup_ok s"
  "setup_ok (s\<lparr>next_tid := t\<rparr>) = setup_ok s"
  by (rule setup_cong; simp add: shared_upd_def)+

subsection \<open>Ports\<close>

lemma strndup_zero: "0 \<notin> set (strndup q n)"
  by (auto simp: strndup_def dest: set_takeWhileD)

lemma setup_outside:
  assumes "setup_ok s" and "p \<notin> set (port_list s)"
  shows "setup_ok (port_upd p f s)"
  using assms by (auto simp: setup_ok_def)

text \<open>The next port is made and put into the list, or it is not put into the list.\<close>

lemma setup_new_port:
  assumes s: "setup_ok s" and p: "p = next_pid s"
    and pt: "port_type pt = PORT_TYPE_GPIO \<or> port_type pt = PORT_TYPE_LANNER" "msg_mode pt = IDLE" "dev pt = None"
      "path pt = [None, None]" "path_len pt = [0, 0]"
  shows "setup_ok (snd (usb_helpers_configure_port e p q len num None (port_upd p (\<lambda>_. pt) (s\<lparr>next_pid := Suc p\<rparr>))))"
proof -
  have np: "p \<notin> set (port_list s)" using s p by (auto simp: setup_ok_def)
  then have "setup_ok (s\<lparr>next_pid := Suc p\<rparr>)" using s p by (auto simp: setup_ok_def tq_def less_Suc_eq)
  then have s1: "setup_ok (port_upd p (\<lambda>_. pt) (s\<lparr>next_pid := Suc p\<rparr>))"
    by (rule setup_outside) (use np in simp)
  show ?thesis
    using s1 np pt strndup_zero [of q "unat len"]
    by (auto simp: usb_helpers_configure_port_def strndup_call_def sys_call_eq Let_def
        usb_monitor_lists_add_port_def setup_ok_def fresh_port_def tq_def p)
qed

lemma setup_add_path:
  assumes s: "setup_ok s" and p: "p \<in> set (port_list s)"
  shows "setup_ok (snd (usb_helpers_port_add_path e p q len s))"
proof -
  have len2: "length (path (heap s p)) = 2" "length (path_len (heap s p)) = 2" using s p by (auto simp: setup_ok_def fresh_port_def)
  have set_path: "set (xs[i := c]) \<subseteq> insert c (set xs)" for xs :: "'a list" and i c by (rule set_update_subset_insert)
  have fresh: "fresh_port (heap s p \<lparr>path := (path (heap s p))[i := c], path_len := ls\<rparr>)"
    if "\<And>copy. c = Some copy \<Longrightarrow> 0 \<notin> set copy" "length ls = 2" for i c ls
    using s p that len2 set_path [of "path (heap s p)" i c] by (auto simp: setup_ok_def fresh_port_def)
  show ?thesis
    using s p fresh [of None "path_len (heap s p)"] fresh [of "Some (strndup q (unat len))"] strndup_zero len2
    by (auto simp: usb_helpers_port_add_path_def strndup_call_def sys_call_eq Let_def setup_ok_def)
qed

lemma setup_create_gpio:
  "gpio_handler_create_port e num on off file s =
     (if answer e (trace s) Calloc = 0 then (None, sys_do e Calloc s)
      else (Some (next_pid s), port_upd (next_pid s)
              (\<lambda>_. zero_port\<lparr>port_type := PORT_TYPE_GPIO, gpio_path := file, gpio_num := num,
                             on_val := on, off_val := off\<rparr>)
              ((sys_do e Calloc s)\<lparr>next_pid := Suc (next_pid s)\<rparr>)))"
  by (simp add: gpio_handler_create_port_def sys_call_eq Let_def)

lemma setup_gpio_new:
  assumes "setup_ok s"
  shows "setup_ok (snd (usb_helpers_configure_port e (next_pid s) q len num None (port_upd (next_pid s)
           (\<lambda>_. zero_port\<lparr>port_type := PORT_TYPE_GPIO, gpio_path := file, gpio_num := gn, on_val := on, off_val := off\<rparr>)
           ((sys_do e Calloc s)\<lparr>next_pid := Suc (next_pid s)\<rparr>))))"
  by (rule setup_new_port) (use assms in \<open>simp_all add: zero_port_def\<close>)

lemma setup_gpio_path:
  assumes "setup_ok s"
  shows "setup_run (gpio_handler_add_port_gpio_path e q len on off file s)"
  unfolding gpio_handler_add_port_gpio_path_def
proof (rule setup_bind)
  show "setup_run (strdup_call e file s)"
    using assms by (simp add: strdup_call_def sys_call_eq Let_def split: option.split)
  show "setup_run (case (copy, s) of (copy, s) \<Rightarrow> case copy of None \<Rightarrow> Inr (1, s)
       | Some copy \<Rightarrow> let (p, s) = gpio_handler_create_port e 0 on off (Some copy) s
           in case p of None \<Rightarrow> Inr (1, s)
              | Some p \<Rightarrow> let (r, s) = usb_helpers_configure_port e p q len 0 None s in Inr (if r \<noteq> 0 then 1 else 0, s))"
    if "setup_ok s" for copy s
    using that setup_gpio_new [OF that] by (simp add: setup_create_gpio Let_def case_prod_beta split: option.split)
qed

lemma setup_gpio_num:
  assumes "setup_ok s"
  shows "setup_ok (snd (gpio_handler_add_port_gpio_num e num q len s))"
proof (cases "gpio_handler_get_port s (ucast num)")
  case None
  then show ?thesis
    using assms setup_gpio_new [OF assms]
    by (simp add: gpio_handler_add_port_gpio_num_def setup_create_gpio Let_def case_prod_beta)
next
  case (Some p)
  then have "p \<in> set (port_list s)" by (auto simp: gpio_handler_get_port_def dest!: find_in_list)
  from setup_add_path [OF assms this] show ?thesis
    using Some by (simp add: gpio_handler_add_port_gpio_num_def Let_def case_prod_beta)
qed

lemma setup_gpio_add_port:
  "setup_ok s \<Longrightarrow> setup_run (gpio_handler_add_port e txt num on off file s)"
  by (simp add: gpio_handler_add_port_def Let_def setup_gpio_path setup_gpio_num setup_pair split: option.split)

lemma setup_strdup: "setup_ok s \<Longrightarrow> setup_run (strdup_call e f s)"
  by (simp add: strdup_call_def sys_call_eq Let_def split: option.split)

lemma setup_gpio_paths: "setup_ok s \<Longrightarrow> setup_run (gpio_add_paths e v js s)"
proof (induction js arbitrary: s)
  case (Cons j js)
  have "setup_run (and_then (gpio_handler_add_port e t n on off f s) (\<lambda>(r, s).
      if r \<noteq> 0 then Inr (1, sys_do e Free_Mem s) else gpio_add_paths e v js (sys_do e Free_Mem s)))"
    if "setup_ok s" for t n on off f s
    by (rule setup_bind [OF setup_gpio_add_port [OF that]]) (simp add: Cons.IH)
  then show ?case
    unfolding gpio_add_paths.simps
    by (intro setup_bind [OF setup_strdup [OF Cons.prems]]) (simp split: option.split)
qed simp

lemma setup_gpio_entries: "setup_ok s \<Longrightarrow> setup_run (gpio_parse_entries e js v s)"
proof (induction js arbitrary: s v)
  case (Cons j js)
  have "setup_run (and_then (gpio_add_paths e v ps s) (\<lambda>(r, s).
      if r \<noteq> 0 then Inr (1, s) else gpio_parse_entries e js v s))" for v ps
    by (rule setup_bind [OF setup_gpio_paths [OF Cons.prems]]) (simp add: Cons.IH)
  then show ?case
    using Cons.prems unfolding gpio_parse_entries.simps Let_def
    by (auto intro!: setup_value split: option.split)
qed simp

lemma setup_gpio_json: "setup_ok s \<Longrightarrow> setup_run (gpio_handler_parse_json e j s)"
  by (simp add: gpio_handler_parse_json_def setup_value setup_gpio_entries)

subsection \<open>Lanner ports\<close>

lemma setup_cleanup [simp]: "setup_ok (lanner_handler_cleanup_shared e l a b s) = setup_ok s"
  by (simp add: lanner_handler_cleanup_shared_def Let_def)

lemma setup_lanner_port:
  assumes "setup_ok s"
  shows "setup_run (lanner_handler_add_port e t b l s)"
proof -
  have "setup_ok (snd (usb_helpers_configure_port e (next_pid s) q len num None (port_upd (next_pid s)
           (\<lambda>_. zero_port\<lparr>port_type := PORT_TYPE_LANNER, shared_info := l, bitmask := m\<rparr>)
           ((sys_do e Calloc s)\<lparr>next_pid := Suc (next_pid s)\<rparr>))))" for q len num m
    by (rule setup_new_port) (use assms in \<open>simp_all add: zero_port_def\<close>)
  then show ?thesis
    using assms by (simp add: lanner_handler_add_port_def sys_call_eq Let_def case_prod_beta split: option.split)
qed

lemma setup_lanner_paths: "setup_ok s \<Longrightarrow> setup_run (lanner_add_paths e b l js s)"
proof (induction js arbitrary: s)
  case (Cons j js)
  have "setup_run (and_then (lanner_handler_add_port e t b l s) (\<lambda>(r, s).
      if r \<noteq> 0 then Inr (lanner_fail e l (sys_do e Free_Mem s)) else lanner_add_paths e b l js (sys_do e Free_Mem s)))"
    if "setup_ok s" for t s
    by (rule setup_bind [OF setup_lanner_port [OF that]]) (simp add: Cons.IH lanner_fail_def)
  then show ?case
    unfolding lanner_add_paths.simps
    by (intro setup_bind [OF setup_strdup [OF Cons.prems]]) (simp add: lanner_fail_def split: option.split)
qed simp

lemma setup_lanner_entries: "setup_ok s \<Longrightarrow> setup_run (lanner_parse_entries e l js v s)"
proof (induction js arbitrary: s v)
  case (Cons j js)
  have "setup_run (and_then (lanner_add_paths e b l ps s) (\<lambda>(r, s).
      if r \<noteq> 0 then Inr (1, s) else lanner_parse_entries e l js v s))" for v ps b
    by (rule setup_bind [OF setup_lanner_paths [OF Cons.prems]]) (simp add: Cons.IH)
  then show ?case
    using Cons.prems unfolding lanner_parse_entries.simps Let_def
    by (auto intro!: setup_value simp: lanner_fail_def split: option.split)
qed simp

lemma setup_insert_timeout: "backend_insert_timeout t s = Inr s' \<Longrightarrow> setup_ok s' = setup_ok s"
  by (auto simp: backend_insert_timeout_def Let_def and_then_eq_Inr split: if_splits option.splits)

lemma setup_add_timeout: "setup_ok s \<Longrightarrow> setup_run (backend_event_loop_add_timeout e c f i b s)"
  by (auto simp: backend_event_loop_add_timeout_def sys_call_eq Let_def intro!: setup_value
      dest!: setup_insert_timeout)

lemma setup_epoll_handle: "backend_create_epoll_handle e s = Inr s' \<Longrightarrow> setup_ok s' = setup_ok s"
  by (auto simp: backend_create_epoll_handle_def sys_call_eq Let_def split: if_splits)

lemma setup_lanner_json:
  assumes "setup_ok s"
  shows "setup_run (lanner_handler_parse_json e j org lk s)"
proof -
  have timer: "setup_run (and_then (backend_event_loop_add_timeout e 0 Lanner_Private_Cb 0 False s)
       (\<lambda>(t, s). case t of
          None \<Rightarrow> Inr (1, lanner_handler_cleanup_shared e l False True s)
        | Some t \<Rightarrow> lanner_parse_entries e l js v (shared_upd l (\<lambda>sh. sh\<lparr>mcu_timeout_handle := t\<rparr>) s)))"
    if "setup_ok s" for s l js v
    by (rule setup_bind [OF setup_add_timeout [OF that]]) (simp add: setup_lanner_entries split: option.split)
  have body: "setup_run (and_then (strdup_call e (Some t) s) (\<lambda>(copy, s). case copy of None \<Rightarrow> Inr (1, s) | Some c \<Rightarrow> f c s))"
    if "\<And>c s. setup_ok s \<Longrightarrow> setup_run (f c s)" for t f
    by (rule setup_bind [OF setup_strdup [OF assms]]) (simp add: that split: option.split)
  show ?thesis
    using assms unfolding lanner_handler_parse_json_def
    by (auto intro!: setup_value body timer dest!: setup_epoll_handle
        simp: sys_call_eq Let_def split: option.split)
qed

subsection \<open>The configuration and the start\<close>

lemma setup_handlers: "setup_ok s \<Longrightarrow> setup_run (parse_handlers_loop e js v s)"
proof (induction js arbitrary: s v)
  case (Cons j js)
  have rest: "setup_run (and_then r (\<lambda>(r, s). if r \<noteq> 0 then Inr (1, s) else parse_handlers_loop e js v s))"
    if "setup_run r" for r v
    by (rule setup_bind [OF that]) (simp add: Cons.IH)
  show ?case
    using Cons.prems unfolding parse_handlers_loop.simps Let_def
    by (intro setup_value) (simp add: rest setup_gpio_json setup_lanner_json split: option.split)
qed simp

lemma setup_bad_loop: "setup_ok s \<Longrightarrow> setup_run (parse_bad_loop e i js s)"
  by (induction js arbitrary: s i) (auto intro!: setup_value split: option.split)

lemma setup_config_loop: "setup_ok s \<Longrightarrow> setup_run (parse_config_loop e ms s)"
proof (induction ms arbitrary: s)
  case (Cons m ms)
  obtain key j where m: "m = (key, j)" by force
  have nxt: "setup_run (and_then r (\<lambda>(r, s). if r \<noteq> 0 then Inr (r, s) else parse_config_loop e ms s))"
    if "setup_run r" for r
    by (rule setup_bind [OF that]) (simp add: Cons.IH)
  have "setup_run (usb_monitor_parse_handlers e j s)"
    using Cons.prems by (auto simp: usb_monitor_parse_handlers_def intro!: setup_value setup_handlers)
  moreover have "setup_run (and_then (parse_bad_loop e 0 js s) (\<lambda>(r, s). if r \<noteq> 0 then Inr (1 :: u8, s)
      else Inr (0, s\<lparr>num_bad_device_ids := of_nat (length js)\<rparr>)))" if "setup_ok s" for js s
    by (rule setup_bind [OF setup_bad_loop [OF that]]) simp
  then have "setup_run (usb_monitor_parse_bad_vid_pids e j s)"
    using Cons.prems unfolding usb_monitor_parse_bad_vid_pids_def sys_call_eq Let_def
    by (intro setup_value) simp
  ultimately show ?case using Cons by (simp add: m nxt)
qed simp

lemma setup_parse_config: "setup_ok s \<Longrightarrow> setup_run (usb_monitor_parse_config e f s)"
  unfolding usb_monitor_parse_config_def sys_call_eq Let_def
  by (auto intro!: setup_value setup_config_loop split: option.split)

text \<open>The set-up of the loop and of the sockets leaves an empty list of ports and free clients.\<close>

lemma update_same [simp]:
  "heap (snd (backend_event_loop_update e c s)) = heap s" "port_list (snd (backend_event_loop_update e c s)) = port_list s"
  "timeout_q (snd (backend_event_loop_update e c s)) = timeout_q s" "next_pid (snd (backend_event_loop_update e c s)) = next_pid s"
  by (simp_all add: backend_event_loop_update_def sys_call_eq)

lemma setup_update [simp]: "setup_ok (snd (backend_event_loop_update e c s)) = setup_ok s"
  by (rule setup_cong) simp_all

lemma setup_pollfds [simp]: "setup_ok (add_pollfds e fds s) = setup_ok s"
  by (induction fds arbitrary: s) simp_all

lemma setup_unix_socket [simp]: "setup_ok (snd (usb_monitor_configure_unix_socket e s)) = setup_ok s"
  by (simp add: usb_monitor_configure_unix_socket_def socket_utility_create_unix_socket_def sys_call_eq Let_def)

lemma setup_clients [simp]: "setup_ok (s\<lparr>clients := c\<rparr>) = setup_ok s"
  by (rule setup_cong) simp_all

lemma setup_loop_create [simp]: "setup_ok (snd (backend_event_loop_create e s)) = setup_ok s"
  by (simp add: backend_event_loop_create_def sys_call_eq Let_def)

lemma setup_configure:
  assumes "timeout_q s = lq_init"
  shows "setup_run (usb_monitor_configure e sock s)"
proof -
  define s1 where "s1 = s\<lparr>hub_list := [], port_list := [], timeout_q := (timeout_q s)\<lparr>lh_first := None\<rparr>, clients_map := 0x1F\<rparr>"
  define s2 where "s2 = snd (backend_event_loop_create e s1)\<lparr>clients := \<lambda>_. None\<rparr>"
  have "timeout_q s1 = lq_init" using assms by (simp add: s1_def lq_init_def)
  then have "setup_ok s1" by (simp add: setup_ok_def tq_def) (simp add: s1_def)
  then have s2: "setup_ok s2" by (simp add: s2_def)
  have sockets: "setup_run (and_then (if sock then and_then (backend_create_epoll_handle e s2) (\<lambda>s.
       Inr (usb_monitor_configure_unix_socket e s)) else Inr (0, s2)) f)"
    if "\<And>r s. setup_ok s \<Longrightarrow> setup_run (f (r, s))" for f :: "int \<times> sys \<Rightarrow> (u8 \<times> sys) result"
  proof (rule setup_bind)
    show "setup_run (if sock then and_then (backend_create_epoll_handle e s2) (\<lambda>s.
       Inr (usb_monitor_configure_unix_socket e s)) else Inr (0, s2))"
      using s2 by (auto intro!: setup_value simp: setup_pair dest!: setup_epoll_handle)
  qed (rule that)
  have fds: "setup_run (and_then (backend_create_epoll_handle e s) (\<lambda>s. Inr (0 :: u8, g s)))"
    if "setup_ok s" "\<And>s. setup_ok s \<Longrightarrow> setup_ok (g s)" for s g
    by (rule setup_value) (use that in \<open>auto dest!: setup_epoll_handle\<close>)
  show ?thesis
    unfolding usb_monitor_configure_def Let_def s1_def [symmetric] case_prod_beta s2_def [symmetric]
    by (rule setup_if, simp add: s2, rule sockets) (auto intro!: fds split: option.split)
qed

lemma configured_ok:
  "usb_monitor_configure e sock s = Inr (r, s') \<Longrightarrow> timeout_q s = lq_init \<Longrightarrow> setup_ok s'"
  using setup_configure [of s e sock] by (simp add: setup_run_def)

lemma parsed_ok: "usb_monitor_parse_config e f s = Inr (r, s') \<Longrightarrow> setup_ok s \<Longrightarrow> setup_ok s'"
  using setup_parse_config [of s e f] by (simp add: setup_run_def)

lemma option_loop_timeouts: "option_loop e os v s = Inr x \<Longrightarrow> timeout_q (snd x) = timeout_q s"
  by (induction os arbitrary: v s) (auto simp: sys_call_eq split: if_splits)

lemma setup_main:
  assumes "main_setup e argv zero_sys = Inr (opts, s)"
  shows "setup_ok s"
proof -
  have "timeout_q zero_sys = lq_init" by (simp add: zero_sys_def)
  then show ?thesis
    using assms unfolding main_setup_def Let_def sys_call_eq case_prod_beta fst_conv snd_conv
    by (auto simp: and_then_eq_Inr split: if_splits option.splits dest!: option_loop_timeouts configured_ok elim: parsed_ok)
qed

text \<open>A stored length that is not the length of its copy is that of a path with a zero component.\<close>

definition lengths_match :: "usb_port \<Rightarrow> bool" where
  "lengths_match pt \<longleftrightarrow>
     list_all (\<lambda>(c, l). case c of None \<Rightarrow> True | Some copy \<Rightarrow> unat l = length copy) (zip (path pt) (path_len pt))"

lemma setup_sound:
  assumes "setup_ok s" and "\<forall>p\<in>set (port_list s). lengths_match (heap s p)"
  shows "monitor_sound s"
proof -
  have "paths_intact (heap s p)" if "p \<in> set (port_list s)" for p
    using assms that set_zip_leftD [of _ _ "path (heap s p)"]
    by (fastforce simp: setup_ok_def fresh_port_def lengths_match_def paths_intact_def list_all_iff)
  then have "sound s []"
    using assms(1) by (auto simp: setup_ok_def fresh_port_def ports_sound_def port_ready_def off_waits_def)
  moreover have "slots_ok s"
    using assms(1) by (auto simp: slots_ok_def setup_ok_def bit_numeral_rec less_Suc_eq numeral_eq_Suc bit_Suc
        dest: bit_imp_le_length split: nat.splits)
  ultimately show ?thesis by (auto simp: monitor_sound_def)
qed

section \<open>The timers of the loop\<close>

text \<open>A new timer has its place behind those that expire no later.\<close>

lemma add_timeout_tmq:
  assumes tmq: "tmq s xs" and clk: "clk \<noteq> 0" and alloc: "answer e (trace s) Calloc \<noteq> 0"
  obtains s' where "backend_event_loop_add_timeout e clk f iv b s = Inr (Some (next_tid s), s')"
    and "tmq s' (filter (\<lambda>i. expires s i \<le> clk) xs @ next_tid s # filter (\<lambda>i. clk < expires s i) xs)"
    and "timers s' = (timers s)(next_tid s := \<lparr>timeout_clock = clk, cb = f, intvl = iv, auto_free = b\<rparr>)"
    and "next_tid s' = Suc (next_tid s)" and "heap s' = heap s" and "timeout_q s' = timeout_q s"
    and "port_list s' = port_list s" and "disable_auto_restart s' = disable_auto_restart s"
proof -
  let ?t = "next_tid s"
  let ?s = "(sys_do e Calloc s)\<lparr>next_tid := Suc ?t, timer_q := timer_q s,
         timers := (timers s)(?t := \<lparr>timeout_clock = clk, cb = f, intvl = iv, auto_free = b\<rparr>)\<rparr>"
  have t: "?t \<notin> set xs" "?t < next_tid ?s" using tmq by (auto simp: tmq_def)
  have old: "expires ?s i = expires s i" if "i \<in> set xs" for i using that t by auto
  have tmqs: "tmq ?s xs"
    using tmq t old unfolding tmq_def by (auto simp: less_Suc_eq subset_iff cong: map_cong)
  have new: "expires ?s ?t = clk" by simp
  obtain q where q: "backend_insert_timeout ?t ?s = Inr (?s\<lparr>timer_q := q\<rparr>)"
      "tmq (?s\<lparr>timer_q := q\<rparr>) (timers_upto ?s clk xs @ ?t # timers_after ?s clk xs)"
    using insert_timeout_tmq [OF tmqs t] unfolding new by blast
  have srt: "sorted (map (expires ?s) xs)" using tmqs by (simp add: tmq_def)
  have "timers_upto ?s clk xs = filter (\<lambda>i. expires s i \<le> clk) xs"
    "timers_after ?s clk xs = filter (\<lambda>i. clk < expires s i) xs"
    using timers_upto_filter [OF srt, of clk] timers_after_filter [OF srt, of clk] old by (simp_all cong: filter_cong)
  with q(2) have tm: "tmq (?s\<lparr>timer_q := q\<rparr>) (filter (\<lambda>i. expires s i \<le> clk) xs @ ?t # filter (\<lambda>i. clk < expires s i) xs)"
    by simp
  have "lq_list (timer_q s) xs" using tmq by (simp add: tmq_def)
  from unused_links [OF this t(1)] have "backend_event_loop_add_timeout e clk f iv b s = Inr (Some ?t, ?s\<lparr>timer_q := q\<rparr>)"
    using clk alloc q(1) by (simp add: backend_event_loop_add_timeout_def sys_call_eq Let_def)
  with tm show thesis by (intro that [of "?s\<lparr>timer_q := q\<rparr>"]) simp_all
qed

lemma start_timers:
  assumes "tmq s []" and "\<forall>tr. answer e tr Calloc \<noteq> 0"
    and "unat (clock e (trace s) div 1000) + 120000 < 2 ^ 64"
  defines "cur \<equiv> clock e (trace s) div 1000" and "t \<equiv> next_tid s"
  shows "\<exists>s1. usb_monitor_start_event_loop e n k s =
             backend_event_loop_run e (run_timer_cb e n) (run_handle e n) (usb_monitor_itr_cb e n) n k s1 \<and>
           tmq s1 (if disable_auto_restart s then [t, t + 1] else [t, t + 1, t + 2]) \<and>
           timers s1 t = \<lparr>timeout_clock = cur + 1000, cb = One_Sec_Cb, intvl = 1000, auto_free = True\<rparr> \<and>
           timers s1 (t + 1) = \<lparr>timeout_clock = cur + 25000, cb = Check_Devices_Cb, intvl = 25000, auto_free = True\<rparr> \<and>
           (\<not> disable_auto_restart s \<longrightarrow>
             timers s1 (t + 2) = \<lparr>timeout_clock = cur + 120000, cb = Check_Reset_Cb, intvl = 120000, auto_free = True\<rparr>) \<and>
           heap s1 = heap s \<and> timeout_q s1 = timeout_q s \<and> port_list s1 = port_list s"
proof -
  have un: "unat (cur + of_nat d) = unat cur + d" if "d \<le> 120000" for d
    using that assms(3) unfolding cur_def by (simp add: unat_word_ariths unat_of_nat take_bit_nat_eq_self)
  have less: "cur + 1000 < cur + 25000" "cur + 1000 < cur + 120000" "cur + 25000 < cur + 120000"
    using un [of 1000] un [of 25000] un [of 120000] by (simp_all add: word_less_nat_alt)
  note order = less [THEN less_imp_le] less [THEN less_not_sym]
  have pos: "cur + 1000 \<noteq> 0" "cur + 25000 \<noteq> 0" "cur + 120000 \<noteq> 0"
    using un [of 1000] un [of 25000] un [of 120000] by (auto simp: unat_eq_0 [symmetric])
  let ?s0 = "snd (clock_ms e s)"
  have s0: "clock_ms e s = (cur, ?s0)" "tmq ?s0 []" "next_tid ?s0 = t" "disable_auto_restart ?s0 = disable_auto_restart s"
      "heap ?s0 = heap s" "timeout_q ?s0 = timeout_q s" "port_list ?s0 = port_list s" "timers ?s0 = timers s"
    using assms(1) by (simp_all add: clock_ms_def clock_gettime_def cur_def t_def tmq_def)
  have alloc: "answer e tr Calloc \<noteq> 0" for tr using assms(2) by blast
  obtain s1 where s1: "backend_event_loop_add_timeout e (cur + 1000) One_Sec_Cb 1000 True ?s0 = Inr (Some t, s1)"
      "tmq s1 [t]" "timers s1 = (timers s)(t := \<lparr>timeout_clock = cur + 1000, cb = One_Sec_Cb, intvl = 1000, auto_free = True\<rparr>)"
      "next_tid s1 = t + 1" and f1: "heap s1 = heap s" "timeout_q s1 = timeout_q s" "port_list s1 = port_list s"
      "disable_auto_restart s1 = disable_auto_restart s"
    by (rule add_timeout_tmq [OF s0(2) pos(1) alloc, of One_Sec_Cb 1000 True]) (simp add: s0(2-))
  obtain s2 where s2: "backend_event_loop_add_timeout e (cur + 25000) Check_Devices_Cb 25000 True s1 = Inr (Some (t + 1), s2)"
      "tmq s2 [t, t + 1]"
      "timers s2 = (timers s1)(t + 1 := \<lparr>timeout_clock = cur + 25000, cb = Check_Devices_Cb, intvl = 25000, auto_free = True\<rparr>)"
      "next_tid s2 = t + 2" and f2: "heap s2 = heap s" "timeout_q s2 = timeout_q s" "port_list s2 = port_list s"
      "disable_auto_restart s2 = disable_auto_restart s"
    by (rule add_timeout_tmq [OF s1(2) pos(2) alloc, of Check_Devices_Cb 25000 True])
      (simp add: s1 f1 order)
  obtain s3 where s3: "backend_event_loop_add_timeout e (cur + 120000) Check_Reset_Cb 120000 True s2 = Inr (Some (t + 2), s3)"
      "tmq s3 [t, t + 1, t + 2]"
      "timers s3 = (timers s2)(t + 2 := \<lparr>timeout_clock = cur + 120000, cb = Check_Reset_Cb, intvl = 120000, auto_free = True\<rparr>)"
    and f3: "heap s3 = heap s" "timeout_q s3 = timeout_q s" "port_list s3 = port_list s"
    by (rule add_timeout_tmq [OF s2(2) pos(3) alloc, of Check_Reset_Cb 120000 True])
      (simp add: s1 s2 f2 order)
  define s' where "s' = (if disable_auto_restart s then s2 else s3)"
  have "usb_monitor_start_event_loop e n k s =
      backend_event_loop_run e (run_timer_cb e n) (run_handle e n) (usb_monitor_itr_cb e n) n k s'"
    unfolding usb_monitor_start_event_loop_def by (subst s0(1)) (simp add: s1(1) s2(1) s3(1) f2(4) s'_def)
  moreover have "tmq s' (if disable_auto_restart s then [t, t + 1] else [t, t + 1, t + 2])"
    using s2(2) s3(2) by (simp add: s'_def)
  ultimately show ?thesis
    by (intro exI [of _ s']) (simp add: s'_def s1(3) s2(3) s3(3) f2 f3)
qed

end
