(* ===== verification/Calm.thy ===== *)
theory Calm
  imports Monitor_Callbacks
begin

section \<open>What the operations on ports leave alone\<close>

text \<open>
  The handlers of ports never touch the timers of the event loop, the hubs, or the list of
  ports, and they never run out of fuel, whatever state they are called in. The relation
  \<open>calm\<close> says the first, \<open>calm_run\<close> both for an operation. It composes along the
  sequencing of operations, so that the proofs follow the shape of the definitions.
\<close>

definition calm :: "sys \<Rightarrow> sys \<Rightarrow> bool" where
  "calm s s' \<longleftrightarrow>
     timers s' = timers s \<and> timer_q s' = timer_q s \<and> next_tid s' = next_tid s \<and>
     hub_list s' = hub_list s \<and> hubs s' = hubs s \<and> next_hid s' = next_hid s \<and>
     port_list s' = port_list s \<and> mcu_info s' = mcu_info s \<and>
     (\<forall>l. mcu_timeout_handle (shared s' l) = mcu_timeout_handle (shared s l)) \<and>
     (\<exists>tr. trace s' = tr @ trace s)"

definition calm_state :: "sys \<Rightarrow> sys result \<Rightarrow> bool" where
  "calm_state s r \<longleftrightarrow> r \<noteq> Inl No_Fuel \<and> (\<forall>s'. r = Inr s' \<longrightarrow> calm s s')"

definition calm_run :: "sys \<Rightarrow> ('a \<times> sys) result \<Rightarrow> bool" where
  "calm_run s r \<longleftrightarrow> r \<noteq> Inl No_Fuel \<and> (\<forall>x s'. r = Inr (x, s') \<longrightarrow> calm s s')"

lemma calm_refl [simp]: "calm s s"
  by (simp add: calm_def)

lemma calm_trans: "calm s s' \<Longrightarrow> calm s' s'' \<Longrightarrow> calm s s''"
  by (auto simp: calm_def)

lemma calm_upds [simp]:
  "calm s (port_upd p f s') = calm s s'" "calm s (s'\<lparr>timeout_q := q\<rparr>) = calm s s'"
  "calm s (s'\<lparr>itr_cb := b\<rparr>) = calm s s'" "calm s (s'\<lparr>next_handle := h\<rparr>) = calm s s'"
  by (auto simp: calm_def port_upd_def)

lemma calm_shared: "(\<And>sh. mcu_timeout_handle (f sh) = mcu_timeout_handle sh) \<Longrightarrow>
  calm s (shared_upd l f s') = calm s s'"
  by (auto simp: calm_def shared_upd_def)

lemma calm_sys_do: "calm s s' \<Longrightarrow> calm s (sys_do e c s')"
  by (auto simp: calm_def sys_do_def sys_call_def Let_def)

lemma calm_start_timeout: "calm s s' \<Longrightarrow> calm s (usb_helpers_start_timeout e p t s')"
  by (auto simp: calm_def usb_helpers_start_timeout_def usb_monitor_lists_add_timeout_def
      clock_gettime_def port_upd_def Let_def)

subsection \<open>Composition\<close>

lemma calm_state_Inr: "calm s s' \<Longrightarrow> calm_state s (Inr s')"
  by (simp add: calm_state_def)

lemma calm_run_Inr: "calm s s' \<Longrightarrow> calm_run s (Inr (x, s'))"
  by (simp add: calm_run_def)

lemma calm_Inl: "f \<noteq> No_Fuel \<Longrightarrow> calm_state s (Inl f)" "f \<noteq> No_Fuel \<Longrightarrow> calm_run s (Inl f)"
  by (simp_all add: calm_state_def calm_run_def)

text \<open>\<open>from s s' P\<close>: the operation that starts at \<open>s'\<close>, reached calmly from \<open>s\<close>.\<close>

lemma calm_state_from: "calm s s' \<Longrightarrow> calm_state s' r \<Longrightarrow> calm_state s r"
  by (auto simp: calm_state_def intro: calm_trans)

lemma calm_run_from: "calm s s' \<Longrightarrow> calm_run s' r \<Longrightarrow> calm_run s r"
  by (auto simp: calm_run_def intro: calm_trans)

lemma calm_bind_state:
  "calm_state s r \<Longrightarrow> (\<And>s'. calm s s' \<Longrightarrow> calm_state s (f s')) \<Longrightarrow> calm_state s (and_then r f)"
  by (cases r) (auto simp: calm_state_def)

lemma calm_bind_state_run:
  "calm_state s r \<Longrightarrow> (\<And>s'. calm s s' \<Longrightarrow> calm_run s (f s')) \<Longrightarrow> calm_run s (and_then r f)"
  by (cases r) (auto simp: calm_state_def calm_run_def)

lemma calm_bind_run:
  "calm_run s r \<Longrightarrow> (\<And>x s'. calm s s' \<Longrightarrow> calm_run s (f (x, s'))) \<Longrightarrow> calm_run s (and_then r f)"
  by (cases r) (auto simp: calm_run_def)

lemma calm_bind_run_state:
  "calm_run s r \<Longrightarrow> (\<And>x s'. calm s s' \<Longrightarrow> calm_state s (f (x, s'))) \<Longrightarrow> calm_state s (and_then r f)"
  by (cases r) (auto simp: calm_run_def calm_state_def)

lemma calm_bind_pure:
  "r \<noteq> Inl No_Fuel \<Longrightarrow> (\<And>x. calm_run s (f x)) \<Longrightarrow> calm_run s (and_then r f)"
  "r \<noteq> Inl No_Fuel \<Longrightarrow> (\<And>x. calm_state s (g x)) \<Longrightarrow> calm_state s (and_then r g)"
  by (cases r; auto simp: calm_run_def calm_state_def)+

lemma calm_if:
  "(c \<Longrightarrow> calm_state s r) \<Longrightarrow> (\<not> c \<Longrightarrow> calm_state s r') \<Longrightarrow> calm_state s (if c then r else r')"
  "(c \<Longrightarrow> calm_run s q) \<Longrightarrow> (\<not> c \<Longrightarrow> calm_run s q') \<Longrightarrow> calm_run s (if c then q else q')"
  "(c \<Longrightarrow> calm s t) \<Longrightarrow> (\<not> c \<Longrightarrow> calm s t') \<Longrightarrow> calm s (if c then t else t')"
  by simp_all

subsection \<open>The helpers\<close>

lemma list_remove_fuel: "list_remove x q \<noteq> Inl No_Fuel"
  by (auto simp: list_remove_def Let_def split: option.splits)

lemma calm_del_timeout: "calm s s' \<Longrightarrow> calm_state s (usb_monitor_lists_del_timeout p s')"
  using list_remove_fuel [of p "timeout_q s'"]
  by (auto simp: usb_monitor_lists_del_timeout_def lq_unlink_def calm_state_def and_then_eq_Inr and_then_eq_Inl)

lemma calm_guarded_del: "calm s s' \<Longrightarrow> calm_state s (guarded_del_timeout p s')"
  by (simp add: guarded_del_timeout_def calm_del_timeout calm_state_Inr)

lemma calm_reset_port: "calm s s' \<Longrightarrow> calm_state s (usb_helpers_reset_port e p s')"
  unfolding usb_helpers_reset_port_def Let_def
  by (intro calm_bind_state calm_if calm_state_Inr calm_del_timeout)
    (auto simp: calm_sys_do split: option.split)

lemma calm_send_ping: "calm s s' \<Longrightarrow> calm s (usb_helpers_send_ping e p s')"
proof -
  have failed: "calm s (ping_submit_failed e p s')" if "calm s s'" for s'
    using that unfolding ping_submit_failed_def Let_def
    by (intro calm_start_timeout) (auto simp: calm_sys_do split: option.split)
  have tr: "calm s (send_ping_transfer e p s')" if "calm s s'" for s'
    using that unfolding send_ping_transfer_def sys_call_eq Let_def
    by (auto intro!: calm_start_timeout failed calm_sys_do)
  show "calm s s' \<Longrightarrow> calm s (usb_helpers_send_ping e p s')"
    unfolding usb_helpers_send_ping_def usb_helpers_configure_handle_def usb_open_eq Let_def
    by (auto intro!: tr calm_start_timeout calm_sys_do)
qed

subsection \<open>GPIO\<close>

lemma calm_write_value:
  assumes "calm s s'" "gpio_write_value e p v s' = (n, s'')"
  shows "calm s s''"
  using assms by (auto simp: gpio_write_value_def sys_call_eq Let_def calm_sys_do split: if_splits)

lemma calm_gpio_update: "calm s s' \<Longrightarrow> calm_run s (gpio_update_port e p cmd s')"
  unfolding gpio_update_port_def Let_def
  by (intro calm_if calm_bind_state_run calm_run_Inr calm_guarded_del)
    (auto split: prod.split intro!: calm_if calm_run_Inr calm_start_timeout dest: calm_write_value)



lemma calm_port_upd: "calm s s' \<Longrightarrow> calm s (port_upd p f s')"
  by simp

lemma calm_bind_run_split:
  "calm_run s r \<Longrightarrow> (\<And>x s'. calm s s' \<Longrightarrow> calm_run s (f x s')) \<Longrightarrow> calm_run s (and_then r (\<lambda>(x, s'). f x s'))"
  "calm_run s r \<Longrightarrow> (\<And>x s'. calm s s' \<Longrightarrow> calm_state s (g x s')) \<Longrightarrow> calm_state s (and_then r (\<lambda>(x, s'). g x s'))"
  using calm_bind_run [of s r "\<lambda>(x, s'). f x s'"] calm_bind_run_state [of s r "\<lambda>(x, s'). g x s'"] by simp_all

lemmas calm_rules = calm_if calm_bind_run_split calm_bind_state calm_bind_state_run
  calm_state_Inr calm_run_Inr calm_start_timeout calm_port_upd calm_sys_do calm_gpio_update

lemma calm_probe_enable_loop: "calm s s' \<Longrightarrow> calm_run s (gpio_probe_enable_port_loop e ps s')"
proof (induction ps arbitrary: s')
  case (Cons p ps)
  show ?case unfolding gpio_probe_enable_port_loop.simps Let_def
    by (rule calm_rules Cons.IH Cons.prems | assumption)+
qed (simp add: calm_run_Inr)


lemma calm_probe_enable: "calm s s' \<Longrightarrow> calm_run s (gpio_probe_enable_port e s')"
  by (simp add: gpio_probe_enable_port_def calm_probe_enable_loop)

lemma calm_down_done_loop: "calm s s' \<Longrightarrow> calm_state s (gpio_on_probe_down_done_loop e ps s')"
proof (induction ps arbitrary: s')
  case Nil
  then show ?case unfolding gpio_on_probe_down_done_loop.simps
    by - (rule calm_rules calm_probe_enable | assumption)+
next
  case (Cons p ps)
  show ?case unfolding gpio_on_probe_down_done_loop.simps
    by (rule calm_rules Cons.IH Cons.prems | assumption)+
qed

lemma calm_probe_up: "calm s s' \<Longrightarrow> calm_state s (gpio_handle_probe_up_timeout e p s')"
  unfolding gpio_handle_probe_up_timeout_def Let_def by (rule calm_rules | assumption)+

lemma calm_restart_all_loop: "calm s s' \<Longrightarrow> calm_state s (gpio_handler_restart_all_ports_loop e ps s')"
proof (induction ps arbitrary: s')
  case (Cons p ps)
  show ?case unfolding gpio_handler_restart_all_ports_loop.simps
    by (rule calm_rules Cons.IH Cons.prems | assumption)+
qed (simp add: calm_state_Inr)

lemma convert_path_fuel: "usb_helpers_convert_path_char sg q len \<noteq> Inl No_Fuel"
proof -
  have "path_char_loop sg q n i out len \<noteq> Inl No_Fuel" for n i out len
    by (induction n arbitrary: i out len)
      (auto simp: and_then_eq_Inl cstr_read_def snprintf_at_def Let_def split: if_splits)
  then show ?thesis
    by (auto simp: usb_helpers_convert_path_char_def and_then_eq_Inl cstr_read_def snprintf_at_def Let_def
        split: if_splits)
qed

lemma json_alloc_eq: "json_alloc e s = (answer e (trace s) Json_Alloc \<noteq> 0, sys_do e Json_Alloc s)"
  by (simp add: json_alloc_def sys_call_eq)

lemmas run_eqs = json_alloc_eq sys_call_eq Let_def prod.case

lemma calm_mapping_paths: "calm s s' \<Longrightarrow> calm_run s (mapping_paths e ps s')"
proof (induction ps arbitrary: s')
  case (Cons a ps)
  obtain c len where a: "a = (c, len)" by (cases a)
  show ?case
  proof (cases c)
    case None
    then show ?thesis using Cons.prems by (simp add: a calm_run_Inr)
  next
    case (Some copy)
    show ?thesis unfolding a Some mapping_paths.simps run_eqs
      by (rule calm_bind_pure(1) [OF convert_path_fuel] calm_rules Cons.IH Cons.prems | assumption)+
  qed
qed (simp add: calm_run_Inr)

lemma calm_option:
  "(x = None \<Longrightarrow> calm_run s a) \<Longrightarrow> (\<And>y. x = Some y \<Longrightarrow> calm_run s (b y)) \<Longrightarrow> calm_run s (case x of None \<Rightarrow> a | Some y \<Rightarrow> b y)"
  "(x = None \<Longrightarrow> calm_state s c) \<Longrightarrow> (\<And>y. x = Some y \<Longrightarrow> calm_state s (d y)) \<Longrightarrow> calm_state s (case x of None \<Rightarrow> c | Some y \<Rightarrow> d y)"
  by (cases x; simp)+

lemma mapping_val_eq:
  "mapping_val e key v dflt s =
     (if v = dflt then Some []
      else if answer e (trace s) Json_Alloc \<noteq> 0 then Some [(key, JInt (int (unat v)))] else None,
      if v = dflt then s else sys_do e Json_Alloc s)"
  by (simp add: mapping_val_def run_eqs)

lemma null_fuel: "Null_Deref \<noteq> No_Fuel"
  by simp

lemma calm_mapping_port: "calm s s' \<Longrightarrow> calm_run s (mapping_port e p s')"
  unfolding mapping_port_def mapping_val_eq run_eqs
  by (rule calm_rules calm_option calm_Inl calm_mapping_paths null_fuel | assumption)+

lemma calm_mapping_ports: "calm s s' \<Longrightarrow> calm_run s (mapping_ports e ps s')"
proof (induction ps arbitrary: s')
  case (Cons p ps)
  show ?case unfolding mapping_ports.simps
    by (rule calm_rules calm_option calm_mapping_port Cons.IH Cons.prems | assumption)+
qed (simp add: calm_run_Inr)

lemma calm_create_mapping: "calm s s' \<Longrightarrow> calm_run s (gpio_create_mapping_json e s')"
  unfolding gpio_create_mapping_json_def run_eqs
  by (rule calm_rules calm_mapping_ports | assumption)+

lemma calm_write_retry: "calm s s' \<Longrightarrow> calm s (gpio_write_config_retry e p s')"
  unfolding gpio_write_config_retry_def by (rule calm_rules | assumption)+

lemma calm_write_config: "calm s s' \<Longrightarrow> calm_state s (gpio_write_config e p s')"
  unfolding gpio_write_config_def gpio_handler_handle_probe_done_def gpio_handler_restart_all_ports_def run_eqs
  by (rule calm_rules calm_option calm_Inl null_fuel calm_create_mapping calm_write_retry calm_restart_all_loop | assumption)+

lemma calm_probe_next: "calm s s' \<Longrightarrow> calm_state s (gpio_probe_next e p s')"
  unfolding gpio_probe_next_def by (rule calm_rules calm_probe_enable calm_write_config | assumption)+

lemma calm_down_2: "calm s s' \<Longrightarrow> calm_state s (gpio_handle_probe_down_2 e p s')"
  unfolding gpio_handle_probe_down_2_def by (rule calm_rules calm_probe_next | assumption)+

lemma calm_probe_timeout: "calm s s' \<Longrightarrow> calm_state s (gpio_on_probe_timeout e p s')"
  unfolding gpio_on_probe_timeout_def gpio_on_probe_down_done_def
  by (cases "probe_state (heap s' p)"; simp only: probe_state.case)
    (rule calm_rules calm_down_done_loop calm_probe_up calm_down_2 calm_write_config | assumption)+

lemma calm_gpio_timeout: "calm s s' \<Longrightarrow> calm_state s (gpio_handle_timeout e p s')"
  unfolding gpio_handle_timeout_def
  by (cases "msg_mode (heap s' p)"; simp only: port_msg.case)
    (rule calm_rules calm_send_ping calm_probe_timeout | assumption)+

lemma calm_swap: "calm s s' \<Longrightarrow> calm s (gpio_handler_swap_port_info m p s')"
  unfolding gpio_handler_swap_port_info_def Let_def by (rule calm_rules | assumption)+

lemma calm_probe_connect: "calm s s' \<Longrightarrow> calm_state s (gpio_handler_handle_probe_connect e p s')"
  unfolding gpio_handler_handle_probe_connect_def Let_def case_prod_beta
  by (rule calm_rules calm_option calm_Inl null_fuel calm_del_timeout calm_probe_next calm_swap | assumption)+


subsection \<open>YKUSH, generic and Lanner ports\<close>

lemma calm_ykush_transfer: "calm s s' \<Longrightarrow> calm_run s (ykush_perform_transfer e p h c f s')"
  unfolding ykush_perform_transfer_def run_eqs
  by (rule calm_rules calm_option calm_Inl null_fuel | assumption)+

lemma calm_ykush_update: "calm s s' \<Longrightarrow> calm_run s (ykush_update_port e p cmd s')"
  unfolding ykush_update_port_def Let_def
  by (rule calm_rules calm_option calm_guarded_del calm_ykush_transfer | assumption)+

lemma calm_ykush_timeout: "calm s s' \<Longrightarrow> calm_state s (ykush_handle_timeout e p s')"
  unfolding ykush_handle_timeout_def by (rule calm_rules calm_send_ping calm_ykush_update | assumption)+

lemma calm_ping_submit_failed: "calm s s' \<Longrightarrow> calm s (ping_submit_failed e p s')"
  unfolding ping_submit_failed_def Let_def
  by (intro calm_start_timeout) (auto simp: calm_sys_do split: option.split)

lemma calm_generic_update: "calm s s' \<Longrightarrow> calm_run s (generic_update_port e p cmd s')"
  unfolding generic_update_port_def run_eqs
  by (rule calm_rules calm_option calm_guarded_del calm_Inl null_fuel calm_ping_submit_failed | assumption)+

lemma calm_generic_timeout: "calm s s' \<Longrightarrow> calm_state s (generic_timeout_port e p s')"
  unfolding generic_timeout_port_def by (rule calm_rules calm_send_ping calm_generic_update | assumption)+

lemma calm_lanner_update: "calm s s' \<Longrightarrow> calm s (snd (lanner_update_port p cmd s'))"
  unfolding lanner_update_port_def usb_monitor_start_itr_cb_def Let_def
  by (simp add: calm_shared)

lemma calm_lanner_timeout: "calm s s' \<Longrightarrow> calm s (lanner_handle_timeout e p s')"
  unfolding lanner_handle_timeout_def by (rule calm_rules calm_send_ping | assumption)+

subsection \<open>Calls through the pointers\<close>

lemma calm_run_pair: "calm s (snd x) \<Longrightarrow> calm_run s (Inr x)"
  by (cases x) (simp add: calm_run_Inr)

lemma calm_port_update: "calm s s' \<Longrightarrow> calm_run s (port_update e p cmd s')"
  unfolding port_update_def
  by (cases "port_type (heap s' p)"; simp only: port_type.case)
    (rule calm_gpio_update calm_ykush_update calm_generic_update calm_lanner_update calm_run_pair | assumption)+

lemma calm_port_timeout: "calm s s' \<Longrightarrow> calm_state s (port_timeout e p s')"
  unfolding port_timeout_def
  by (cases "port_type (heap s' p)"; simp only: port_type.case)
    (rule calm_gpio_timeout calm_ykush_timeout calm_generic_timeout calm_lanner_timeout calm_state_Inr | assumption)+

lemma calm_ping_cb: "calm s s' \<Longrightarrow> calm_state s (usb_helpers_ping_cb e p c s')"
  unfolding usb_helpers_ping_cb_def Let_def
  by (rule calm_rules calm_port_update | assumption)+

lemma calm_reset_all_loop: "calm s s' \<Longrightarrow> calm_state s (reset_all_ports_loop e forced ps s')"
proof (induction ps arbitrary: s')
  case (Cons p ps)
  show ?case unfolding reset_all_ports_loop.simps
    by (rule calm_rules calm_port_update Cons.IH Cons.prems | assumption)+
qed (simp add: calm_state_Inr)

lemma calm_transfer_done: "calm s s' \<Longrightarrow> calm_state s (transfer_done e tr c s')"
proof -
  assume s: "calm s s'"
  have cbs: "calm s (ykush_enable_cb p c s')" "calm s (ykush_disable_cb p c s')"
    "calm s (ykush_reset_cb e p c s')" "calm s (generic_update_cb e p c s')" for p
    unfolding ykush_enable_cb_def ykush_disable_cb_def ykush_reset_cb_def generic_update_cb_def Let_def
    using s by (simp_all add: calm_start_timeout)
  show ?thesis
    using s cbs by (auto simp: transfer_done_def calm_ping_cb calm_state_Inr split: transfer.split ykush_cb.split)
qed

subsection \<open>Devices and timeouts\<close>

lemma find_port_fuel: "usb_monitor_lists_find_port_path s q len \<noteq> Inl No_Fuel"
proof -
  have m: "match_paths ps q len \<noteq> Inl No_Fuel" for ps
    by (induction ps q len rule: match_paths.induct) (auto simp: and_then_eq_Inl memcmp_eq_def Let_def split: if_splits)
  have "find_port_path_loop hp ps q len \<noteq> Inl No_Fuel" for hp ps
    using m by (induction ps) (auto simp: and_then_eq_Inl split: if_splits)
  then show ?thesis by (simp add: usb_monitor_lists_find_port_path_def)
qed

lemma calm_device_added: "calm s s' \<Longrightarrow> calm_state s (usb_device_added e d s')"
  unfolding usb_device_added_def usb_helpers_fill_port_array_def run_eqs
  by (rule calm_bind_pure(2) [OF find_port_fuel] calm_rules calm_option calm_probe_connect calm_port_update | assumption)+

lemma calm_device_removed: "calm s s' \<Longrightarrow> calm_state s (usb_device_removed e d s')"
  unfolding usb_device_removed_def usb_helpers_fill_port_array_def run_eqs
  by (rule calm_bind_pure(2) [OF find_port_fuel] calm_rules calm_option calm_reset_port | assumption)+

text \<open>The walk over the timeouts may run out of fuel; when it returns, it was calm.\<close>

lemma calm_check_loop:
  "check_timeouts_loop port_timeout e cur n p s = Inr s' \<Longrightarrow> calm s s'"
proof (induction n arbitrary: p s)
  case (0 p s)
  then show ?case by (cases p) auto
next
  case (Suc n p s)
  show ?case
  proof (cases p)
    case (Some q)
    show ?thesis
    proof (cases "timeout_expire (heap s q) \<le> cur")
      case True
      then have "and_then (usb_monitor_lists_del_timeout q s) (\<lambda>s1.
          and_then (if enabled (heap s1 q) \<or> msg_mode (heap s1 q) = PROBE then port_timeout e q s1 else Inr s1)
            (check_timeouts_loop port_timeout e cur n (le_next (timeout_q s) q))) = Inr s'"
        using Suc.prems Some by (simp add: Let_def)
      then obtain s1 s2 where "usb_monitor_lists_del_timeout q s = Inr s1"
        "(if enabled (heap s1 q) \<or> msg_mode (heap s1 q) = PROBE then port_timeout e q s1 else Inr s1) = Inr s2"
        "check_timeouts_loop port_timeout e cur n (le_next (timeout_q s) q) s2 = Inr s'"
        unfolding and_then_eq_Inr by blast
      moreover from this have "calm s s1" "calm s1 s2"
        using calm_del_timeout [of s s q] calm_port_timeout [of s1 s1 e q]
        by (auto simp: calm_state_def split: if_splits)
      ultimately show ?thesis using Suc.IH by (metis calm_trans)
    next
      case False
      then show ?thesis using Suc Some by (auto simp: Let_def)
    qed
  qed (use Suc in auto)
qed

lemma calm_check_timeouts: "usb_monitor_check_timeouts e n s = Inr s' \<Longrightarrow> calm s s'"
  unfolding usb_monitor_check_timeouts_def clock_gettime_eq Let_def prod.case
  by (drule calm_check_loop) (auto simp: calm_def)


section \<open>Hubs\<close>

text \<open>What the set-up and the removal of hub \<open>h\<close> leave alone; the list of ports may change.\<close>

definition hcalm :: "hid \<Rightarrow> sys \<Rightarrow> sys \<Rightarrow> bool" where
  "hcalm h s s' \<longleftrightarrow>
     timers s' = timers s \<and> timer_q s' = timer_q s \<and> next_tid s' = next_tid s \<and>
     hub_list s' = hub_list s \<and> next_hid s' = next_hid s \<and> (\<forall>h'. h' \<noteq> h \<longrightarrow> hubs s' h' = hubs s h') \<and>
     hub_dev (hubs s' h) = hub_dev (hubs s h) \<and> mcu_info s' = mcu_info s \<and>
     (\<forall>l. mcu_timeout_handle (shared s' l) = mcu_timeout_handle (shared s l)) \<and>
     (\<exists>tr. trace s' = tr @ trace s)"

lemma hcalm_refl [simp]: "hcalm h s s"
  by (simp add: hcalm_def)

lemma hcalm_trans: "hcalm h s s' \<Longrightarrow> hcalm h s' s'' \<Longrightarrow> hcalm h s s''"
  by (auto simp: hcalm_def)

lemma calm_hcalm: "calm s s' \<Longrightarrow> hcalm h s s'"
  by (auto simp: calm_def hcalm_def)

lemma hcalm_after: "hcalm h s s' \<Longrightarrow> calm s' s'' \<Longrightarrow> hcalm h s s''"
  using calm_hcalm hcalm_trans by blast

lemma hcalm_upds [simp]:
  "hcalm h s (port_upd p f s') = hcalm h s s'" "hcalm h s (s'\<lparr>next_handle := x\<rparr>) = hcalm h s s'"
  "hcalm h s (s'\<lparr>port_list := ps\<rparr>) = hcalm h s s'"
  by (auto simp: hcalm_def port_upd_def)

lemma hcalm_sys_do: "hcalm h s s' \<Longrightarrow> hcalm h s (sys_do e c s')"
  by (auto simp: hcalm_def sys_do_def sys_call_def Let_def)

lemma hcalm_hub_upd:
  "(\<And>hb. hub_dev (f hb) = hub_dev hb) \<Longrightarrow> hcalm h s (hub_upd h f s') = hcalm h s s'"
  by (auto simp: hcalm_def hub_upd_def)

lemma hcalm_configure_port:
  assumes "hcalm h s s'" "usb_helpers_configure_port e p q len num par s' = (r, s'')"
  shows "hcalm h s s''"
  using assms
  by (auto simp: usb_helpers_configure_port_def strndup_call_def run_eqs usb_monitor_lists_add_port_def hcalm_sys_do
      split: if_splits)

lemma hcalm_configure_ports:
  "hcalm h s s' \<Longrightarrow> ykush_configure_ports e g q n i s' = (r, s'') \<Longrightarrow> hcalm h s s''"
proof (induction n arbitrary: q i s')
  case (Suc n)
  then show ?case
    by (auto simp: Let_def split: prod.splits if_splits dest!: hcalm_configure_port [of h s, rotated])
qed simp

lemma hcalm_get_num_ports:
  assumes "hcalm h s s'" "usb_helpers_get_num_ports e d v s' = (r, s'')"
  shows "hcalm h s s''"
  using assms by (auto simp: usb_helpers_get_num_ports_def usb_open_eq run_eqs hcalm_sys_do split: if_splits)

lemma hcalm_claim:
  assumes "hcalm h s s'" "ykush_claim e ch s' = (r, s'')"
  shows "hcalm h s s''"
  using assms by (auto simp: ykush_claim_def run_eqs hcalm_sys_do split: if_splits)

lemma hcalm_configure_hub:
  assumes s: "hcalm h s s'" and run: "ykush_configure_hub e h s' = (r, s'')"
  shows "hcalm h s s''"
proof -
  obtain n s1 where n: "usb_helpers_get_num_ports e (hub_dev (hubs s' h)) 0x200 s' = (n, s1)" by fastforce
  have s1: "hcalm h s s1" using hcalm_get_num_ports [OF s n] .
  obtain ret ch s2 where o: "usb_open e (comm_dev (hubs s1 h)) s1 = ((ret, ch), s2)" by (metis prod.collapse)
  have s2: "hcalm h s s2" using s1 o by (auto simp: usb_open_eq Let_def hcalm_sys_do split: if_splits)
  show ?thesis
  proof (cases ch)
    case None
    then show ?thesis using run n o s1 s2 by (auto simp: ykush_configure_hub_def Let_def split: if_splits)
  next
    case (Some c)
    define s3 where "s3 = hub_upd h (\<lambda>hb. hb\<lparr>comm_handle := Some c\<rparr>) s2"
    obtain ok s4 where k: "ykush_claim e c s3 = (ok, s4)" by fastforce
    have s4: "hcalm h s s4" using s2 hcalm_claim [OF _ k] by (simp add: s3_def hcalm_hub_upd)
    define s5 where "s5 = hub_upd h (\<lambda>hb. hb\<lparr>num_ports := MAX_YKUSH_PORTS\<rparr>) s4"
    have s5: "hcalm h s s5" using s4 by (simp add: s5_def hcalm_hub_upd)
    obtain rv s6 where p: "ykush_configure_ports e h
        (bus_number e (the (comm_dev (hubs s5 h))) # port_numbers e (the (comm_dev (hubs s5 h)))) 3 0 s5 = (rv, s6)"
      by fastforce
    have "hcalm h s s6" using hcalm_configure_ports [OF s5 p] .
    then show ?thesis
      using run n o Some k p s1 s4
      by (auto simp: ykush_configure_hub_def Let_def s3_def [symmetric] s5_def [symmetric] split: if_splits)
  qed
qed

lemma hcalm_release_port: "hcalm h s s' \<Longrightarrow> hcalm h s (usb_helpers_release_port e p s')"
proof -
  have "hcalm h s s' \<Longrightarrow> hcalm h s (fold (\<lambda>copy s. if copy = None then s else sys_do e Free_Mem s) cs s')" for cs s'
    by (induction cs arbitrary: s') (simp_all add: hcalm_sys_do)
  then show "hcalm h s s' \<Longrightarrow> hcalm h s (usb_helpers_release_port e p s')"
    by (simp add: usb_helpers_release_port_def)
qed

lemma del_port_hcalm:
  assumes "hcalm h s s'"
  shows "usb_monitor_lists_del_port e p s' \<noteq> Inl No_Fuel \<and>
         (\<forall>s''. usb_monitor_lists_del_port e p s' = Inr s'' \<longrightarrow> hcalm h s s'')"
proof (cases "p \<in> set (port_list s')")
  case True
  define s1 where "s1 = port_upd p (\<lambda>pt. pt\<lparr>msg_mode := IDLE\<rparr>) (s'\<lparr>port_list := remove1 p (port_list s')\<rparr>)"
  have "usb_monitor_lists_del_port e p s' = usb_helpers_reset_port e p s1"
    using True by (simp add: usb_monitor_lists_del_port_def s1_def)
  moreover have "hcalm h s s1" using assms by (simp add: s1_def)
  moreover have "calm_state s1 (usb_helpers_reset_port e p s1)" by (simp add: calm_reset_port)
  ultimately show ?thesis by (auto simp: calm_state_def intro: hcalm_after)
qed (use assms in \<open>simp add: usb_monitor_lists_del_port_def\<close>)

lemma release_ports_hcalm:
  "hcalm h s s' \<Longrightarrow> ykush_release_ports e ps s' \<noteq> Inl No_Fuel \<and>
     (\<forall>s''. ykush_release_ports e ps s' = Inr s'' \<longrightarrow> hcalm h s s'')"
proof (induction ps arbitrary: s')
  case (Cons p ps)
  have "hcalm h s (usb_helpers_release_port e p s')" using Cons.prems by (rule hcalm_release_port)
  from del_port_hcalm [OF this, of e p] show ?case
    using Cons.IH by (cases "usb_monitor_lists_del_port e p (usb_helpers_release_port e p s')") auto
qed simp

lemma release_memory_hcalm:
  assumes "hcalm h s s'" and "h \<notin> set (hub_list s')"
  shows "ykush_release_memory e h s' \<noteq> Inl No_Fuel"
    and "ykush_release_memory e h s' = Inr s'' \<Longrightarrow> hcalm h s s''"
proof -
  define s1 where "s1 = sys_do e (Usb_Unref (comm_dev (hubs s' h))) (sys_do e (Usb_Unref (hub_dev (hubs s' h)))
      (case comm_handle (hubs s' h) of None \<Rightarrow> s'
       | Some ch \<Rightarrow> sys_do e (Usb_Close ch) (sys_do e (Usb_Release_Interface (Some ch)) s')))"
  have s1: "hcalm h s s1" using assms(1) by (auto simp: s1_def hcalm_sys_do split: option.split)
  have run: "ykush_release_memory e h s' =
      and_then (ykush_release_ports e (take (unat (num_ports (hubs s' h))) (hub_ports (hubs s' h))) s1)
        (\<lambda>s. Inr (sys_do e Free_Mem (usb_monitor_lists_del_hub h s)))"
    by (simp add: ykush_release_memory_def s1_def Let_def split: option.split)
  note rel = release_ports_hcalm [OF s1, of e "take (unat (num_ports (hubs s' h))) (hub_ports (hubs s' h))"]
  show "ykush_release_memory e h s' \<noteq> Inl No_Fuel"
    using rel by (simp add: run and_then_eq_Inl)
  show "hcalm h s s''" if eq: "ykush_release_memory e h s' = Inr s''"
  proof -
    obtain s2 where s2: "hcalm h s s2" "s'' = sys_do e Free_Mem (usb_monitor_lists_del_hub h s2)"
      using rel eq by (auto simp: run and_then_eq_Inr)
    have "h \<notin> set (hub_list s2)" using s2(1) assms by (simp add: hcalm_def)
    then show ?thesis using s2 by (simp add: usb_monitor_lists_del_hub_def hcalm_sys_do)
  qed
qed


subsection \<open>The walk over the devices is bounded\<close>

text \<open>The devices that are known to be hubs, and the state a hub is added in.\<close>

definition known_hubs :: "sys \<Rightarrow> dev option set" where
  "known_hubs s = (\<lambda>h. hub_dev (hubs s h)) ` set (hub_list s)"

definition hubs_wf :: "sys \<Rightarrow> bool" where
  "hubs_wf s \<longleftrightarrow> (\<forall>h\<in>set (hub_list s). h < next_hid s)"

lemma find_hub_known: "usb_monitor_lists_find_hub s d = None \<longleftrightarrow> d \<notin> known_hubs s"
  by (auto simp: usb_monitor_lists_find_hub_def known_hubs_def find_None_iff)

lemma calm_known: "calm s s' \<Longrightarrow> known_hubs s' = known_hubs s" "calm s s' \<Longrightarrow> hubs_wf s \<Longrightarrow> hubs_wf s'"
  by (auto simp: calm_def known_hubs_def hubs_wf_def)

text \<open>The parents of the YKUSH devices that a walk can meet.\<close>

definition ykush_parents :: "env \<Rightarrow> dev option set \<Rightarrow> bool" where
  "ykush_parents e P \<longleftrightarrow>
     finite P \<and> (\<forall>tr ds d. device_list e tr = Some ds \<longrightarrow> d \<in> set ds \<longrightarrow> is_ykush e d \<longrightarrow> parent_dev e d \<in> P)"

definition walk_ok :: "env \<Rightarrow> dev option set \<Rightarrow> sys \<Rightarrow> sys result \<Rightarrow> bool" where
  "walk_ok e P s r \<longleftrightarrow> r \<noteq> Inl No_Fuel \<and> (\<forall>s'. r = Inr s' \<longrightarrow> hubs_wf s' \<and> known_hubs s \<subseteq> known_hubs s')"

lemma each_device_ok:
  assumes "\<And>d s. d \<in> set ds \<Longrightarrow> hubs_wf s \<Longrightarrow> K \<subseteq> known_hubs s \<Longrightarrow> walk_ok e P s (added d s)"
    and "hubs_wf s" and "K \<subseteq> known_hubs s"
  shows "walk_ok e P s (each_device added ds s)"
  using assms
proof (induction ds arbitrary: s)
  case (Cons d ds)
  have d: "walk_ok e P s (added d s)" by (rule Cons.prems) (use Cons.prems in auto)
  show ?case
  proof (cases "added d s")
    case (Inl f)
    then show ?thesis using d by (simp add: walk_ok_def)
  next
    case (Inr s1)
    then have s1: "hubs_wf s1" "known_hubs s \<subseteq> known_hubs s1" using d by (auto simp: walk_ok_def)
    have "walk_ok e P s1 (each_device added ds s1)"
      by (rule Cons.IH) (use Cons.prems s1 in auto)
    then show ?thesis using Inr s1 by (auto simp: walk_ok_def)
  qed
qed (simp add: walk_ok_def)

text \<open>The fresh hub up to its configuration.\<close>

lemma alloc_hub_ok:
  assumes "hubs_wf s" and "ykush_alloc_hub e d s = (Some h, s')"
  shows "h \<notin> set (hub_list s')" and "hub_list s' = hub_list s" and "h < next_hid s'"
    and "known_hubs s' = known_hubs s" and "hubs_wf s'" and "hub_dev (hubs s' h) = parent_dev e d"
proof -
  have h: "h = next_hid s" and s': "hub_list s' = hub_list s" "next_hid s' = Suc (next_hid s)"
    "\<forall>g. g \<noteq> h \<longrightarrow> hubs s' g = hubs s g" "hub_dev (hubs s' h) = parent_dev e d"
    using assms(2) by (auto simp: ykush_alloc_hub_def run_eqs hub_upd_def split: if_splits)
  then show "h \<notin> set (hub_list s')" "hub_list s' = hub_list s" "h < next_hid s'"
    "known_hubs s' = known_hubs s" "hubs_wf s'" "hub_dev (hubs s' h) = parent_dev e d"
    using assms(1) by (auto simp: hubs_wf_def known_hubs_def intro!: image_cong)
qed

lemma alloc_hub_none: "ykush_alloc_hub e d s = (None, s') \<Longrightarrow> hub_list s' = hub_list s \<and> hubs s' = hubs s \<and> next_hid s' = next_hid s"
  by (auto simp: ykush_alloc_hub_def run_eqs split: if_splits)

lemma hcalm_known:
  assumes "hcalm h s s'" and "h \<notin> set (hub_list s)" and "hubs_wf s"
  shows "known_hubs s' = known_hubs s" and "hubs_wf s'" and "h \<notin> set (hub_list s')"
    and "hub_dev (hubs s' h) = hub_dev (hubs s h)" and "next_hid s' = next_hid s"
  using assms by (auto simp: hcalm_def known_hubs_def hubs_wf_def intro!: image_cong)

lemma ykush_add_ok:
  assumes wf: "hubs_wf s" and P: "finite P" "parent_dev e d \<in> P"
    and walk: "\<And>s1. hubs_wf s1 \<Longrightarrow> card (P - known_hubs s1) < card (P - known_hubs s) \<Longrightarrow>
                walk_ok e P s1 (check_devices_with added e s1)"
  shows "walk_ok e P s (ykush_add_device_with added e d s)"
proof (cases "parent_dev e d \<in> known_hubs s")
  case True
  then show ?thesis using wf find_hub_known [of s "parent_dev e d"] by (simp add: ykush_add_device_with_def walk_ok_def)
next
  case False
  obtain ho s1 where a: "ykush_alloc_hub e d s = (ho, s1)" by fastforce
  show ?thesis
  proof (cases ho)
    case None
    then show ?thesis
      using False a alloc_hub_none [of e d s s1] wf
      by (auto simp: ykush_add_device_with_def find_hub_known walk_ok_def known_hubs_def hubs_wf_def)
  next
    case (Some h)
    note al = alloc_hub_ok [OF wf a [unfolded Some]]
    obtain n s2 where c: "ykush_configure_hub e h s1 = (n, s2)" by fastforce
    have h2: "hcalm h s1 s2" using hcalm_configure_hub [OF hcalm_refl c] .
    note k2 = hcalm_known [OF h2 al(1,5)]
    have run: "ykush_add_device_with added e d s =
        (if n = 0 then ykush_release_memory e h s2 else check_devices_with added e (usb_monitor_lists_insert_hub h s2))"
      using False a Some c find_hub_known [of s "parent_dev e d"]
      by (simp add: ykush_add_device_with_def add_hub_with_def)
    show ?thesis
    proof (cases "n = 0")
      case True
      have "hubs_wf s3 \<and> known_hubs s \<subseteq> known_hubs s3" if "ykush_release_memory e h s2 = Inr s3" for s3
        using hcalm_known [OF release_memory_hcalm(2) [OF h2 k2(3) that] al(1,5)] al(4) by simp
      then show ?thesis using True run release_memory_hcalm(1) [OF h2 k2(3)] by (simp add: walk_ok_def)
    next
      case n: False
      define s3 where "s3 = usb_monitor_lists_insert_hub h s2"
      have k3: "known_hubs s3 = insert (parent_dev e d) (known_hubs s)"
        using k2 al by (simp add: s3_def usb_monitor_lists_insert_hub_def known_hubs_def)
      have wf3: "hubs_wf s3"
        using k2 al by (simp add: s3_def usb_monitor_lists_insert_hub_def hubs_wf_def)
      have "P - known_hubs s3 \<subset> P - known_hubs s" using k3 P(2) False by auto
      then have "card (P - known_hubs s3) < card (P - known_hubs s)" using P(1) by (intro psubset_card_mono) auto
      from walk [OF wf3 this] show ?thesis
        using k3 run n by (auto simp: walk_ok_def s3_def [symmetric])
    qed
  qed
qed

lemma check_walk_ok:
  assumes P: "ykush_parents e P" and wf: "hubs_wf s1" and card: "card (P - known_hubs s1) < n"
    and added: "\<And>d s. hubs_wf s \<Longrightarrow> card (P - known_hubs s) < n \<Longrightarrow>
      (is_ykush e d \<longrightarrow> parent_dev e d \<in> P) \<Longrightarrow> walk_ok e P s (added d s)"
  shows "walk_ok e P s1 (check_devices_with added e s1)"
proof (cases "device_list e (trace s1)")
  case None
  then show ?thesis using wf by (simp add: check_devices_with_def walk_ok_def known_hubs_def hubs_wf_def)
next
  case (Some ds)
  have fin: "finite P" using P by (simp add: ykush_parents_def)
  let ?s = "sys_do e Usb_Get_Device_List s1"
  have k: "known_hubs ?s = known_hubs s1" "hubs_wf ?s" using wf by (simp_all add: known_hubs_def hubs_wf_def)
  have "walk_ok e P ?s (each_device added ds ?s)"
  proof (rule each_device_ok [where K = "known_hubs s1"])
    fix d s2 assume d: "d \<in> set ds" and s2: "hubs_wf s2" "known_hubs s1 \<subseteq> known_hubs s2"
    have "card (P - known_hubs s2) \<le> card (P - known_hubs s1)" using s2(2) fin by (intro card_mono) auto
    then show "walk_ok e P s2 (added d s2)"
      using added [OF s2(1)] card P Some d by (simp add: ykush_parents_def)
  qed (use k in auto)
  then show ?thesis using Some k by (simp add: check_devices_with_def walk_ok_def)
qed

lemma arrived_ok:
  assumes P: "ykush_parents e P"
  shows "hubs_wf s \<Longrightarrow> card (P - known_hubs s) < n \<Longrightarrow> (is_ykush e d \<longrightarrow> parent_dev e d \<in> P) \<Longrightarrow>
         walk_ok e P s (usb_monitor_arrived n e d s)"
proof (induction n arbitrary: d s)
  case (Suc n)
  have fin: "finite P" using P by (simp add: ykush_parents_def)
  have walk: "walk_ok e P s1 (check_devices_with (usb_monitor_arrived n e) e s1)"
    if "hubs_wf s1" and "card (P - known_hubs s1) < n" for s1
    by (rule check_walk_ok [OF P that]) (rule Suc.IH)
  have "calm_state s (usb_device_added e d s)" by (simp add: calm_device_added)
  then consider f where "usb_device_added e d s = Inl f" "f \<noteq> No_Fuel"
    | s1 where "usb_device_added e d s = Inr s1" "calm s s1"
    by (cases "usb_device_added e d s") (auto simp: calm_state_def)
  then show ?case
  proof cases
    case 1
    then show ?thesis by (simp add: usb_monitor_arrived_with_def walk_ok_def)
  next
    case 2
    have k: "known_hubs s1 = known_hubs s" "hubs_wf s1" using calm_known [OF 2(2)] Suc.prems(1) by auto
    have "walk_ok e P s1 (ykush_add_device_with (usb_monitor_arrived n e) e d s1)" if "is_ykush e d"
      using Suc.prems that fin k walk by (intro ykush_add_ok) auto
    then show ?thesis using 2 k by (auto simp: usb_monitor_arrived_with_def walk_ok_def)
  qed
qed simp

lemma check_devices_ok:
  assumes "ykush_parents e P" and "hubs_wf s" and "card (P - known_hubs s) < n"
  shows "walk_ok e P s (usb_helpers_check_devices n e s)"
  unfolding usb_helpers_check_devices_def
  by (rule check_walk_ok [OF assms]) (rule arrived_ok [OF assms(1)])

end
