(* ===== verification/Timer_Callbacks.thy ===== *)
theory Timer_Callbacks
  imports Calm
begin

section \<open>The callbacks of the timers\<close>

text \<open>
  The contract \<open>timer_callbacks\<close> of the event loop, for the callbacks of the program. All of
  them but the one of the Lanner handler leave the timers alone (\<open>tcalm\<close>); that one may
  start its own one-shot timer again.
\<close>

definition tcalm :: "sys \<Rightarrow> sys \<Rightarrow> bool" where
  "tcalm s s' \<longleftrightarrow>
     timers s' = timers s \<and> timer_q s' = timer_q s \<and> next_tid s' = next_tid s \<and>
     mcu_info s' = mcu_info s \<and>
     (\<forall>l. mcu_timeout_handle (shared s' l) = mcu_timeout_handle (shared s l)) \<and>
     (\<exists>tr. trace s' = tr @ trace s)"

lemma tcalm_refl [simp]: "tcalm s s"
  by (simp add: tcalm_def)

lemma tcalm_trans: "tcalm s s' \<Longrightarrow> tcalm s' s'' \<Longrightarrow> tcalm s s''"
  by (auto simp: tcalm_def)

lemma hcalm_tcalm: "hcalm h s s' \<Longrightarrow> tcalm s s'"
  by (simp add: hcalm_def tcalm_def)

lemma calm_tcalm: "calm s s' \<Longrightarrow> tcalm s s'"
  by (simp add: calm_def tcalm_def)

lemma tcalm_sys_do [simp]: "tcalm s (sys_do e c s)"
  by (auto simp: tcalm_def sys_do_def sys_call_def Let_def)

lemma tcalm_upds [simp]:
  "tcalm s (s'\<lparr>hub_list := hs\<rparr>) = tcalm s s'" "tcalm s (s'\<lparr>next_hid := h\<rparr>) = tcalm s s'"
  "tcalm s (s'\<lparr>next_pid := p\<rparr>) = tcalm s s'" "tcalm s (s'\<lparr>heap := hp\<rparr>) = tcalm s s'"
  "tcalm s (s'\<lparr>hubs := hh\<rparr>) = tcalm s s'" "tcalm s (hub_upd g f s') = tcalm s s'"
  by (simp_all add: tcalm_def hub_upd_def)

lemma tcalm_sys_do_after: "tcalm s s' \<Longrightarrow> tcalm s (sys_do e c s')"
  by (rule tcalm_trans [OF _ tcalm_sys_do])

lemma tcalm_bind:
  "and_then r f = Inr s' \<Longrightarrow> (\<And>s1. r = Inr s1 \<Longrightarrow> tcalm s s1) \<Longrightarrow>
   (\<And>s1. f s1 = Inr s' \<Longrightarrow> tcalm s1 s') \<Longrightarrow> tcalm s s'"
  by (auto simp: and_then_eq_Inr intro: tcalm_trans)

lemma tcalm_alloc_hub: "ykush_alloc_hub e d s = (h, s') \<Longrightarrow> tcalm s s'"
  unfolding ykush_alloc_hub_def run_eqs by (auto simp: tcalm_sys_do_after split: if_splits)

lemma tcalm_release_memory:
  assumes "ykush_release_memory e h s = Inr s'"
  shows "tcalm s s'"
proof -
  define s1 where "s1 = sys_do e (Usb_Unref (comm_dev (hubs s h))) (sys_do e (Usb_Unref (hub_dev (hubs s h)))
      (case comm_handle (hubs s h) of None \<Rightarrow> s
       | Some ch \<Rightarrow> sys_do e (Usb_Close ch) (sys_do e (Usb_Release_Interface (Some ch)) s)))"
  have s1: "hcalm h s s1" by (auto simp: s1_def hcalm_sys_do split: option.split)
  have run: "ykush_release_memory e h s =
      and_then (ykush_release_ports e (take (unat (num_ports (hubs s h))) (hub_ports (hubs s h))) s1)
        (\<lambda>s. Inr (sys_do e Free_Mem (usb_monitor_lists_del_hub h s)))"
    by (simp add: ykush_release_memory_def s1_def Let_def split: option.split)
  obtain s2 where "hcalm h s s2" "s' = sys_do e Free_Mem (usb_monitor_lists_del_hub h s2)"
    using assms [unfolded run] release_ports_hcalm [OF s1, of e "take (unat (num_ports (hubs s h))) (hub_ports (hubs s h))"]
    by (auto simp: and_then_eq_Inr)
  then show ?thesis
    using hcalm_tcalm [of h s s2] by (simp add: usb_monitor_lists_del_hub_def tcalm_sys_do_after)
qed

lemma tcalm_each_device:
  assumes "\<And>d s s'. added d s = Inr s' \<Longrightarrow> tcalm s s'"
  shows "each_device added ds s = Inr s' \<Longrightarrow> tcalm s s'"
  using assms by (induction ds arbitrary: s) (auto intro: tcalm_bind)

lemma tcalm_check_devices:
  assumes "\<And>d s s'. added d s = Inr s' \<Longrightarrow> tcalm s s'"
  shows "check_devices_with added e s = Inr s' \<Longrightarrow> tcalm s s'"
  using tcalm_each_device [where added = added and s = "sys_do e Usb_Get_Device_List s" and s' = s'] assms
  by (auto simp: check_devices_with_def Let_def split: option.splits intro: tcalm_trans [OF tcalm_sys_do])

lemma tcalm_ykush_add:
  assumes added: "\<And>d s s'. added d s = Inr s' \<Longrightarrow> tcalm s s'"
    and run: "ykush_add_device_with added e d s = Inr s'"
  shows "tcalm s s'"
proof (cases "usb_monitor_lists_find_hub s (parent_dev e d)")
  case (Some h)
  then show ?thesis using run by (simp add: ykush_add_device_with_def)
next
  case None
  obtain ho s1 where a: "ykush_alloc_hub e d s = (ho, s1)" by fastforce
  have s1: "tcalm s s1" using a by (rule tcalm_alloc_hub)
  show ?thesis
  proof (cases ho)
    case None
    then show ?thesis using run a s1 \<open>usb_monitor_lists_find_hub s (parent_dev e d) = None\<close>
      by (simp add: ykush_add_device_with_def)
  next
    case (Some h)
    obtain n s2 where c: "ykush_configure_hub e h s1 = (n, s2)" by fastforce
    have s2: "tcalm s s2" using tcalm_trans [OF s1 hcalm_tcalm [OF hcalm_configure_hub [OF hcalm_refl c]]] .
    have "(if n = 0 then ykush_release_memory e h s2 else check_devices_with added e (usb_monitor_lists_insert_hub h s2)) = Inr s'"
      using run None a Some c by (simp add: ykush_add_device_with_def add_hub_with_def split: if_splits)
    moreover have "tcalm s2 s'" if "ykush_release_memory e h s2 = Inr s'"
      using that by (rule tcalm_release_memory)
    moreover have "tcalm s2 s'" if "check_devices_with added e (usb_monitor_lists_insert_hub h s2) = Inr s'"
    proof -
      have "tcalm (usb_monitor_lists_insert_hub h s2) s'"
        by (rule tcalm_check_devices [where added = added, OF _ that]) (rule added)
      then show ?thesis by (rule tcalm_trans [rotated]) (simp add: usb_monitor_lists_insert_hub_def)
    qed
    ultimately show ?thesis using s2 by (auto split: if_splits intro: tcalm_trans)
  qed
qed

lemma tcalm_device_added: "usb_device_added e d s = Inr s' \<Longrightarrow> tcalm s s'"
  using calm_device_added [of s s e d] by (simp add: calm_state_def calm_tcalm)

lemma tcalm_device_removed: "usb_device_removed e d s = Inr s' \<Longrightarrow> tcalm s s'"
  using calm_device_removed [of s s e d] by (simp add: calm_state_def calm_tcalm)

lemma tcalm_arrived: "usb_monitor_arrived n e d s = Inr s' \<Longrightarrow> tcalm s s'"
proof (induction n arbitrary: d s s')
  case (Suc n)
  obtain s1 where s1: "usb_device_added e d s = Inr s1"
    and rest: "(if is_ykush e d then ykush_add_device_with (usb_monitor_arrived n e) e d s1 else Inr s1) = Inr s'"
    using Suc.prems by (auto simp: usb_monitor_arrived_with_def and_then_eq_Inr)
  have "tcalm s1 s'"
  proof (cases "is_ykush e d")
    case True
    show ?thesis
      by (rule tcalm_ykush_add [where added = "usb_monitor_arrived n e"])
        (use Suc.IH rest True in auto)
  qed (use rest in simp)
  then show ?case using tcalm_device_added [OF s1] by (rule tcalm_trans [rotated])
qed simp

lemma tcalm_check_devices_fuel: "usb_helpers_check_devices n e s = Inr s' \<Longrightarrow> tcalm s s'"
  unfolding usb_helpers_check_devices_def
  by (rule tcalm_check_devices [where added = "usb_monitor_arrived n e"]) (auto intro: tcalm_arrived)

lemma tcalm_usb_cb:
  assumes "usb_monitor_cb n e arrived d s = Inr s'"
  shows "tcalm s s'"
proof -
  obtain s1 where s1: "(if arrived then usb_device_added e d s else usb_device_removed e d s) = Inr s1"
    and rest: "(if is_ykush e d then ykush_event_cb n e arrived d s1 else Inr s1) = Inr s'"
    using assms by (auto simp: usb_monitor_cb_def and_then_eq_Inr)
  have add: "tcalm s1 s'" if "ykush_add_device n e d s1 = Inr s'"
    by (rule tcalm_ykush_add [where added = "usb_monitor_arrived n e"])
      (use that in \<open>auto simp: ykush_add_device_def intro: tcalm_arrived\<close>)
  have del: "tcalm s1 s'" if "ykush_del_device e d s1 = Inr s'"
    using that tcalm_release_memory [of e _ s1 s'] by (auto simp: ykush_del_device_def split: option.splits)
  have "tcalm s s1" using s1 tcalm_device_added tcalm_device_removed by (auto split: if_splits)
  moreover have "tcalm s1 s'" using rest add del by (auto simp: ykush_event_cb_def split: if_splits)
  ultimately show ?thesis by (rule tcalm_trans)
qed

lemma tcalm_usb_events: "each_usb_event n e evs s = Inr s' \<Longrightarrow> tcalm s s'"
proof (induction evs arbitrary: s)
  case (Cons ev evs)
  obtain s1 where s1: "usb_event_cb n e ev s = Inr s1" "each_usb_event n e evs s1 = Inr s'"
    using Cons.prems by (auto simp: and_then_eq_Inr)
  have "tcalm s s1"
    using s1(1) calm_transfer_done [of s s e]
    by (auto simp: usb_event_cb_def calm_state_def split: usb_event.splits intro: tcalm_usb_cb calm_tcalm)
  then show ?case using Cons.IH [OF s1(2)] by (rule tcalm_trans)
qed simp

lemma tcalm_1sec:
  assumes "usb_monitor_1sec_timeout_cb n e s = Inr s'"
  shows "tcalm s s'"
proof -
  let ?s = "sys_do e Usb_Handle_Events (sys_do e Usb_Unlock_Events s)"
  obtain s1 where s1: "each_usb_event n e (usb_events e (trace (sys_do e Usb_Unlock_Events s))) ?s = Inr s1"
    and rest: "usb_monitor_check_timeouts e n (sys_do e Usb_Lock_Events s1) = Inr s'"
    using assms by (auto simp: usb_monitor_1sec_timeout_cb_def libusb_handle_events_def Let_def and_then_eq_Inr)
  have "tcalm s ?s" by (simp add: tcalm_sys_do_after)
  then have "tcalm s (sys_do e Usb_Lock_Events s1)"
    using tcalm_usb_events [OF s1] by (intro tcalm_sys_do_after) (rule tcalm_trans)
  then show ?thesis using calm_tcalm [OF calm_check_timeouts [OF rest]] by (rule tcalm_trans)
qed

lemma tcalm_reset_all: "usb_helpers_reset_all_ports e forced s = Inr s' \<Longrightarrow> tcalm s s'"
  using calm_reset_all_loop [of s s e forced "port_list s"]
  by (auto simp: usb_helpers_reset_all_ports_def calm_state_def intro: calm_tcalm)

text \<open>The three callbacks that do not start a timer.\<close>

lemma tcalm_run_timer:
  assumes "run_timer_cb e n f s = Inr s'" and "f \<noteq> Lanner_Private_Cb"
  shows "tcalm s s'"
  using assms tcalm_1sec tcalm_check_devices_fuel tcalm_reset_all
  by (cases f) (auto simp: run_timer_cb_def usb_monitor_check_devices_cb_def usb_monitor_check_reset_cb_def)

subsection \<open>The private timer of the Lanner handler\<close>

lemma tcalm_shared_upd [simp]:
  "(\<And>sh. mcu_timeout_handle (f sh) = mcu_timeout_handle sh) \<Longrightarrow> tcalm s (shared_upd l f s') = tcalm s s'"
  by (auto simp: tcalm_def shared_upd_def)

lemma tcalm_epoll: "tcalm s s' \<Longrightarrow> tcalm s (snd (backend_event_loop_update e c s'))"
  by (simp add: backend_event_loop_update_def sys_call_eq tcalm_sys_do_after)

lemma tcalm_write_cmd_buf: "lanner_handler_write_cmd_buf e l s = Inr s' \<Longrightarrow> tcalm s s'"
  by (auto simp: lanner_handler_write_cmd_buf_def run_eqs split: if_splits
      intro!: tcalm_epoll tcalm_sys_do_after)

lemma tcalm_store_write:
  assumes "lanner_handler_write_cmd_buf e l (store_cmd l txt s1) = Inr s'" and "tcalm s s1"
  shows "tcalm s s'"
proof -
  have "tcalm s (store_cmd l txt s1)" using assms(2) by (simp add: store_cmd_def)
  then show ?thesis using tcalm_write_cmd_buf [OF assms(1)] by (rule tcalm_trans)
qed

lemma tcalm_flush: "lanner_flush_mcu e l n s = Inr s' \<Longrightarrow> tcalm s s'"
proof (induction n arbitrary: s)
  case (Suc n)
  then show ?case
    by (auto simp: run_eqs split: if_splits intro: tcalm_trans [OF tcalm_sys_do])
qed simp

lemma tcalm_open_mcu: "lanner_handler_open_mcu e l s = (r, s') \<Longrightarrow> tcalm s s'"
  by (auto simp: lanner_handler_open_mcu_def run_eqs split: if_splits intro!: tcalm_sys_do_after)

text \<open>Either the timer is started, at the very end, or the timers are left alone.\<close>

definition private_or_calm :: "env \<Rightarrow> nat \<Rightarrow> sys \<Rightarrow> sys \<Rightarrow> bool" where
  "private_or_calm e l s s' \<longleftrightarrow>
     tcalm s s' \<or>
     (\<exists>s1. tcalm s s1 \<and> lanner_handler_start_private_timer e l LANNER_HANDLER_RESTART_MS s1 = Inr s')"

lemma acquire_mcu_cases:
  assumes "lanner_acquire_mcu e n l s = Inr (go, s')"
  shows "if go then tcalm s s' else private_or_calm e l s s'"
proof -
  define s1 where "s1 = sys_do e (Flock (lock_fd (shared s l)) True) s"
  obtain r s2 where o: "lanner_handler_open_mcu e l s1 = (r, s2)" by fastforce
  have s1: "tcalm s s1" by (simp add: s1_def)
  have s2: "tcalm s s2" using s1 tcalm_open_mcu [OF o] by (rule tcalm_trans)
  have s3: "tcalm s (sys_do e (Flock (lock_fd (shared s2 l)) False) s2)"
    using s2 by (rule tcalm_sys_do_after)
  show ?thesis
    using assms s1 s2 s3 o
    by (auto simp: lanner_acquire_mcu_def sys_call_eq s1_def [symmetric] Let_def and_then_eq_Inr private_or_calm_def
        backend_event_loop_update_def
        split: if_splits intro!: tcalm_sys_do_after tcalm_trans [OF s2] dest: tcalm_flush)
qed

lemma start_mcu_update_cases:
  assumes "lanner_handler_start_mcu_update e n s = Inr s'"
  obtains l where "mcu_info s = Some l" and "private_or_calm e l s s'"
proof -
  obtain l where l: "mcu_info s = Some l"
    using assms by (auto simp: lanner_handler_start_mcu_update_def with_mcu_info_def split: option.splits)
  obtain go s1 where go: "(if mcu_state (shared s l) = LANNER_MCU_PENDING then lanner_acquire_mcu e n l s
          else Inr (True, s)) = Inr (go, s1)"
    and rest: "(if \<not> go then Inr s1
           else case mcu_state (shared s1 l) of
             LANNER_MCU_GET_VERSION \<Rightarrow> lanner_handler_get_version e s1
           | LANNER_MCU_GET_DIGITAL_OUT \<Rightarrow> lanner_handler_get_digital_out e s1
           | LANNER_MCU_SET_DIGITAL_OUT \<Rightarrow> lanner_handler_set_digital_out e l s1
           | _ \<Rightarrow> Inr s1) = Inr s'"
    using assms l by (auto simp: lanner_handler_start_mcu_update_def with_mcu_info_def and_then_eq_Inr)
  have s1: "if go then tcalm s s1 else private_or_calm e l s s1"
    using go acquire_mcu_cases [of e n l s go s1] by (auto split: if_splits)
  have "private_or_calm e l s s'"
  proof (cases go)
    case True
    have "tcalm s s'"
      using rest s1 True
      by (auto simp: lanner_handler_get_version_def lanner_handler_get_digital_out_def
          lanner_handler_set_digital_out_def with_mcu_info_def Let_def
          split: mcu_state.splits option.splits elim!: tcalm_store_write)
    then show ?thesis by (simp add: private_or_calm_def)
  qed (use rest s1 in simp)
  with l show thesis by (rule that)
qed

text \<open>
  What the event loop needs: its clock does not run backwards, and the private timer is a
  one-shot timer that no other callback owns.
\<close>

definition clock_forward :: "env \<Rightarrow> u64 \<Rightarrow> (call \<times> int) list \<Rightarrow> bool" where
  "clock_forward e cur tr0 \<longleftrightarrow>
     (\<forall>tr. cur \<le> clock e (tr @ tr0) div 1000 \<and> unat (clock e (tr @ tr0) div 1000) + 5000 < 2 ^ 64)"

definition private_timer :: "sys \<Rightarrow> bool" where
  "private_timer s \<longleftrightarrow>
     (\<forall>l. mcu_info s = Some l \<longrightarrow>
        mcu_timeout_handle (shared s l) < next_tid s \<and>
        intvl (timers s (mcu_timeout_handle (shared s l))) = 0 \<and>
        (\<forall>t<next_tid s. cb (timers s t) = Lanner_Private_Cb \<longrightarrow> t = mcu_timeout_handle (shared s l)))"

definition timer_inv :: "env \<Rightarrow> u64 \<Rightarrow> sys \<Rightarrow> bool" where
  "timer_inv e cur s \<longleftrightarrow> clock_forward e cur (trace s) \<and> private_timer s"

lemma clock_forward_later: "clock_forward e cur tr0 \<Longrightarrow> clock_forward e cur (tr @ tr0)"
  unfolding clock_forward_def by (metis append.assoc)

lemma clock_forward_Cons: "clock_forward e cur tr0 \<Longrightarrow> clock_forward e cur (x # tr0)"
  using clock_forward_later [of e cur tr0 "[x]"] by simp

lemma tcalm_timer_inv: "tcalm s s' \<Longrightarrow> timer_inv e cur s \<Longrightarrow> timer_inv e cur s'"
  by (auto simp: tcalm_def timer_inv_def private_timer_def clock_forward_later)

lemma tcalm_kept: "tcalm s s' \<Longrightarrow> tmq s xs \<Longrightarrow> timers_kept cur s xs s' xs"
  by (simp add: tcalm_def timers_kept_same)

lemma start_private_keeps:
  assumes inv: "timer_inv e cur s" and l: "mcu_info s = Some l" and xs: "tmq s xs"
    and t: "mcu_timeout_handle (shared s l) \<notin> set xs"
    and run: "lanner_handler_start_private_timer e l LANNER_HANDLER_RESTART_MS s = Inr s'"
  shows "timer_inv e cur s' \<and> (\<exists>ys. timers_kept cur s xs s' ys)"
proof -
  let ?t = "mcu_timeout_handle (shared s l)"
  define c where "c = clock e (trace s) div 1000"
  define s1 where "s1 = s\<lparr>trace := (Clock_Gettime, 0) # trace s,
      timers := (timers s)(?t := (timers s ?t)\<lparr>timeout_clock := c + 5000\<rparr>)\<rparr>"
  have pt: "?t < next_tid s" "intvl (timers s ?t) = 0"
    and c: "cur \<le> c" "unat c + 5000 < 2 ^ 64"
    using inv l by (auto simp: timer_inv_def private_timer_def clock_forward_def c_def dest: spec [of _ "[]"])
  have s1: "tmq s1 xs" "?t < next_tid s1"
  proof -
    have "map (expires s1) xs = map (expires s) xs"
      using t by (intro map_cong) (auto simp: s1_def)
    moreover have "timer_q s1 = timer_q s" "next_tid s1 = next_tid s" by (simp_all add: s1_def)
    ultimately show "tmq s1 xs" using xs unfolding tmq_def by metis
    show "?t < next_tid s1" using pt by (simp add: s1_def)
  qed
  have run1: "backend_insert_timeout ?t s1 = Inr s'"
    using run by (simp add: lanner_handler_start_private_timer_def clock_ms_def clock_gettime_def Let_def s1_def c_def)
  obtain q where q: "backend_insert_timeout ?t s1 = Inr (s1\<lparr>timer_q := q\<rparr>)"
    "tmq (s1\<lparr>timer_q := q\<rparr>) (timers_upto s1 (expires s1 ?t) xs @ ?t # timers_after s1 (expires s1 ?t) xs)"
    (is "tmq _ ?ys")
    using insert_timeout_tmq [OF s1(1) t s1(2)] by auto
  have s': "s' = s1\<lparr>timer_q := q\<rparr>" using run1 q(1) by simp
  have ys: "set ?ys = insert ?t (set xs)"
    by (metis Un_insert_right list.simps(15) set_append upto_after)
  have "filter (\<lambda>i. i \<in> set xs) ?ys = xs"
    using filter_insert_timer [of "\<lambda>i. i \<in> set xs" ?t s1 "expires s1 ?t" xs] t by simp
  moreover have "unat (c + 5000) = unat c + 5000"
    using c(2) by (simp add: unat_word_ariths)
  then have "cur < c + 5000"
    using c(1) by (simp add: word_less_nat_alt word_le_nat_alt)
  then have "cur < expires s' ?t" by (simp add: s' s1_def)
  moreover have "timers s' i = timers s i" if "i \<in> set xs" for i
    using that t by (auto simp: s' s1_def)
  ultimately have "timers_kept cur s xs s' ?ys"
    using q(2) pt(2) ys by (auto simp: timers_kept_def s' s1_def simp del: upto_after)
  moreover have "timer_inv e cur s'"
    using inv by (auto simp: timer_inv_def private_timer_def s' s1_def clock_forward_Cons)
  ultimately show ?thesis by blast
qed

lemma timer_cb_keeps:
  assumes inv: "timer_inv e cur s" and xs: "tmq s xs" and t: "t < next_tid s" "t \<notin> set xs"
    and run: "run_timer_cb e n (cb (timers s t)) s = Inr s'"
  shows "timer_inv e cur s' \<and> (\<exists>ys. timers_kept cur s xs s' ys)"
proof (cases "cb (timers s t) = Lanner_Private_Cb")
  case True
  obtain l where l: "mcu_info s = Some l" and cases: "private_or_calm e l s s'"
    using run True by (auto simp: run_timer_cb_def lanner_handle_private_timeout_def elim: start_mcu_update_cases)
  have h: "t = mcu_timeout_handle (shared s l)"
    using inv l t True by (auto simp: timer_inv_def private_timer_def)
  from cases consider "tcalm s s'"
    | s1 where "tcalm s s1" "lanner_handler_start_private_timer e l LANNER_HANDLER_RESTART_MS s1 = Inr s'"
    by (auto simp: private_or_calm_def)
  then show ?thesis
  proof cases
    case 1
    then show ?thesis using tcalm_timer_inv tcalm_kept inv xs by blast
  next
    case 2
    have s1: "mcu_info s1 = Some l" "tmq s1 xs" "mcu_timeout_handle (shared s1 l) \<notin> set xs"
      using 2(1) l xs h t by (auto simp: tcalm_def tmq_def)
    have "timer_inv e cur s' \<and> (\<exists>ys. timers_kept cur s1 xs s' ys)"
      by (rule start_private_keeps [OF tcalm_timer_inv [OF 2(1) inv] s1 2(2)])
    moreover have "timers_kept cur s xs s' ys" if "timers_kept cur s1 xs s' ys" for ys
    proof -
      have "timers s1 = timers s" "next_tid s1 = next_tid s" using 2(1) by (simp_all add: tcalm_def)
      then show ?thesis using that unfolding timers_kept_def by metis
    qed
    ultimately show ?thesis by blast
  qed
next
  case False
  then show ?thesis using tcalm_run_timer [OF run] tcalm_timer_inv tcalm_kept inv xs by blast
qed

interpretation timers: timer_callbacks "run_timer_cb e n" "timer_inv e" for e n
proof
  show "timer_inv e cur s' \<and> (\<exists>ys. timers_kept cur s xs s' ys)"
    if "timer_inv e cur s" "tmq s xs" "t < next_tid s" "t \<notin> set xs"
      "run_timer_cb e n (cb (timers s t)) s = Inr s'" for cur s xs t s'
    using that by (rule timer_cb_keeps)
  show "timer_inv e cur (s\<lparr>timers := m, timer_q := q, trace := (c, r) # trace s\<rparr>)"
    if "timer_inv e cur s" "\<And>i. intvl (m i) = intvl (timers s i)" "\<And>i. cb (m i) = cb (timers s i)"
    for cur s m q c r
    using that by (simp add: timer_inv_def private_timer_def clock_forward_Cons)
  show "timer_inv e cur (s\<lparr>timers := m, timer_q := q\<rparr>)"
    if "timer_inv e cur s" "\<And>i. intvl (m i) = intvl (timers s i)" "\<And>i. cb (m i) = cb (timers s i)"
    for cur s m q
    using that by (simp add: timer_inv_def private_timer_def)
qed

end
