(* ===== verification/Recovery.thy ===== *)
theory Recovery
  imports Monitor_Callbacks
begin

text \<open>
  What happens over several events to a port whose device does not answer: the failed pings up
  to the restart, and the restart of a port of a hub, whose halves end in callbacks of
  transfers.
\<close>

section \<open>A device that does not answer\<close>

text \<open>Transfers can be allocated and are accepted.\<close>

definition usb_works :: "env \<Rightarrow> bool" where
  "usb_works e \<longleftrightarrow>
     (\<forall>tr. answer e tr Usb_Alloc_Transfer \<noteq> 0 \<and> (\<forall>t. answer e tr (Usb_Submit t) = 0))"

text \<open>
  One ping that fails: the timeout of the port is due, its handler sends the ping, and the
  callback of the transfer reports that it was not completed.
\<close>

definition failed_ping :: "env \<Rightarrow> pid \<Rightarrow> sys \<Rightarrow> sys result" where
  "failed_ping e p s =
     and_then (usb_monitor_lists_del_timeout p s) (\<lambda>s.
       and_then (port_timeout e p s) (usb_helpers_ping_cb e p False))"

fun failed_pings :: "env \<Rightarrow> pid \<Rightarrow> nat \<Rightarrow> sys \<Rightarrow> sys result" where
  "failed_pings e p 0 s = Inr s"
| "failed_pings e p (Suc k) s = and_then (failed_ping e p s) (failed_pings e p k)"

lemma send_ping_quiet:
  assumes "usb_works e" and "dev_handle (heap s p) = Some h"
  obtains t where "usb_helpers_send_ping e p s = s\<lparr>trace := t\<rparr>"
proof -
  have "\<exists>t. usb_helpers_send_ping e p s = s\<lparr>trace := t\<rparr>"
    using assms by (simp add: usb_helpers_send_ping_def send_ping_transfer_def sys_call_eq usb_works_def Let_def)
      (auto simp: sys_do_def sys_call_def Let_def)
  then show thesis using that by blast
qed

text \<open>A pinged port of one of the handlers, with its device open.\<close>

definition pinged :: "usb_port \<Rightarrow> bool" where
  "pinged pt \<longleftrightarrow> enabled pt \<and> msg_mode pt = PING \<and> dev_handle pt \<noteq> None"

lemma timeout_pings: "msg_mode (heap s p) = PING \<Longrightarrow>
    port_timeout e p s = Inr (usb_helpers_send_ping e p s)"
  by (cases "port_type (heap s p)")
    (simp_all add: port_timeout_def gpio_handle_timeout_def ykush_handle_timeout_def generic_timeout_port_def
      lanner_handle_timeout_def)

lemma failed_ping_run:
  assumes "usb_works e" and "tq s xs" "p \<in> set xs" and "pinged (heap s p)"
  obtains s1 where "failed_ping e p s = usb_helpers_ping_cb e p False s1" and "heap s1 = heap s"
    and "tq s1 (remove1 p xs)"
proof -
  obtain q where q: "usb_monitor_lists_del_timeout p s = Inr (s\<lparr>timeout_q := q\<rparr>)" "lq_list q (remove1 p xs)"
    by (rule del_timeout_member [OF assms(2,3)])
  let ?s = "s\<lparr>timeout_q := q\<rparr>"
  obtain h where h: "dev_handle (heap ?s p) = Some h" using assms(4) by (auto simp: pinged_def)
  obtain t where t: "usb_helpers_send_ping e p ?s = ?s\<lparr>trace := t\<rparr>" by (rule send_ping_quiet [OF assms(1) h])
  have "port_timeout e p ?s = Inr (?s\<lparr>trace := t\<rparr>)" using timeout_pings [of ?s p e] assms(4) t by (simp add: pinged_def)
  with q show thesis by (intro that [of "?s\<lparr>trace := t\<rparr>"]) (simp_all add: failed_ping_def tq_def)
qed

lemma failed_ping_counts:
  assumes works: "usb_works e" and tq: "tq s xs" "p \<in> set xs" and pg: "pinged (heap s p)"
    and n: "num_retrans (heap s p) \<noteq> USB_RETRANS_LIMIT"
  shows "\<exists>s' ex. failed_ping e p s = Inr s' \<and> tq s' (p # remove1 p xs) \<and>
           heap s' = (heap s)(p := (heap s p)\<lparr>num_retrans := num_retrans (heap s p) + 1, timeout_expire := ex\<rparr>)"
proof -
  obtain s1 where s1: "failed_ping e p s = usb_helpers_ping_cb e p False s1" "heap s1 = heap s" "tq s1 (remove1 p xs)"
    by (rule failed_ping_run [OF works tq pg])
  let ?s = "port_upd p (\<lambda>pt. pt\<lparr>num_retrans := num_retrans pt + 1\<rparr>) s1"
  have "failed_ping e p s = Inr (usb_helpers_start_timeout e p DEFAULT_TIMEOUT_SEC ?s)"
    using pg n by (simp add: s1(1,2) pinged_def usb_helpers_ping_cb_def)
  moreover have "tq (usb_helpers_start_timeout e p DEFAULT_TIMEOUT_SEC ?s) (p # remove1 p xs)"
    by (rule start_timeout_tq) (use s1(3) tq_distinct [OF tq(1)] in simp_all)
  ultimately show ?thesis by (auto simp: s1(2))
qed

lemma failed_pings_count:
  assumes "usb_works e" and "tq s (p # xs)" and "pinged (heap s p)"
    and "unat (num_retrans (heap s p)) + k \<le> unat USB_RETRANS_LIMIT"
  shows "\<exists>s' ex. failed_pings e p k s = Inr s' \<and> tq s' (p # xs) \<and>
           heap s' = (heap s)(p := (heap s p)\<lparr>num_retrans := num_retrans (heap s p) + of_nat k, timeout_expire := ex\<rparr>)"
  using assms(2-)
proof (induction k arbitrary: s)
  case 0
  show ?case using 0 by (intro exI [of _ s] exI [of _ "timeout_expire (heap s p)"]) simp
next
  case (Suc k)
  have lim: "unat (num_retrans (heap s p)) < unat USB_RETRANS_LIMIT" using Suc.prems(3) by simp
  then have n: "num_retrans (heap s p) \<noteq> USB_RETRANS_LIMIT" by auto
  obtain s1 ex where s1: "failed_ping e p s = Inr s1" "tq s1 (p # xs)"
      "heap s1 = (heap s)(p := (heap s p)\<lparr>num_retrans := num_retrans (heap s p) + 1, timeout_expire := ex\<rparr>)"
    using failed_ping_counts [OF assms(1) Suc.prems(1) _ Suc.prems(2) n] by auto
  have "unat (num_retrans (heap s p) + 1) = unat (num_retrans (heap s p)) + 1"
    using lim by (simp add: unat_word_ariths)
  then have r: "unat (num_retrans (heap s1 p)) + k \<le> unat USB_RETRANS_LIMIT" using Suc.prems(3) by (simp add: s1(3))
  have p1: "pinged (heap s1 p)" using Suc.prems(2) by (simp add: s1(3) pinged_def)
  obtain s' ex' where "failed_pings e p k s1 = Inr s'" "tq s' (p # xs)"
      "heap s' = (heap s1)(p := (heap s1 p)\<lparr>num_retrans := num_retrans (heap s1 p) + of_nat k, timeout_expire := ex'\<rparr>)"
    using Suc.IH [OF s1(2) p1 r] by blast
  then show ?case using s1(1,3)
    by (intro exI [of _ s'] exI [of _ ex']) (simp add: add.assoc)
qed

text \<open>The failed ping that meets the limit switches a GPIO port off; the port waits to be switched on.\<close>

lemma last_failed_ping:
  assumes works: "usb_works e" and tq: "tq s xs" "p \<in> set xs" and pg: "pinged (heap s p)"
    and n: "num_retrans (heap s p) = USB_RETRANS_LIMIT"
    and gpio: "is_gpio s p" "pwr_state (heap s p)" "pin_writable e (gpio_file (heap s p))"
  shows "\<exists>s'. failed_ping e p s = Inr s' \<and> tq s' (p # remove1 p xs) \<and>
           enabled (heap s' p) \<and> \<not> pwr_state (heap s' p) \<and> msg_mode (heap s' p) = RESET \<and> num_retrans (heap s' p) = 0"
proof -
  obtain s1 where s1: "failed_ping e p s = usb_helpers_ping_cb e p False s1" "heap s1 = heap s" "tq s1 (remove1 p xs)"
    by (rule failed_ping_run [OF works tq pg])
  let ?s = "port_upd p (\<lambda>pt. pt\<lparr>num_retrans := 0\<rparr>) s1"
  have r: "remove1 p (remove1 p xs) = remove1 p xs"
    using tq_distinct [OF tq(1)] by (intro remove1_idem) simp
  have s2: "tq ?s (remove1 p xs)" "enabled (heap ?s p)" "pwr_state (heap ?s p)"
      "pin_writable e (gpio_file (heap ?s p))"
    using s1(2,3) pg gpio by (simp_all add: pinged_def gpio_file_def cong: option.case_cong)
  obtain s3 ex where s3: "gpio_update_port e p CMD_RESTART ?s = Inr (0, s3)" "tq s3 (p # remove1 p (remove1 p xs))"
      "heap s3 = (heap ?s)(p := (heap ?s p)\<lparr>msg_mode := RESET, pwr_state := False, timeout_expire := ex\<rparr>)"
    by (rule gpio_restart_off [OF s2])
  have "failed_ping e p s = Inr s3"
    using pg n gpio(1) s3(1) by (simp add: s1(1,2) pinged_def usb_helpers_ping_cb_def port_update_def)
  then show ?thesis using s3 pg by (auto simp: r s1(2) pinged_def)
qed

lemma failed_pings_Suc:
  "failed_pings e p (Suc k) s = and_then (failed_pings e p k s) (failed_ping e p)"
proof (induction k arbitrary: s)
  case (Suc k)
  have "failed_pings e p (Suc (Suc k)) s = and_then (failed_ping e p s) (\<lambda>s. failed_pings e p (Suc k) s)"
    by (subst failed_pings.simps(2)) (rule refl)
  also have "\<dots> = and_then (failed_ping e p s) (\<lambda>s. and_then (failed_pings e p k s) (failed_ping e p))"
    by (simp only: Suc.IH)
  finally show ?case by (simp add: and_then_assoc)
qed (simp add: and_then_def split: sum.split)

section \<open>The restart of a YKUSH port\<close>

text \<open>The transfers that were submitted, oldest first.\<close>

fun submitted :: "trace \<Rightarrow> transfer list" where
  "submitted [] = []"
| "submitted ((Usb_Submit t, r) # tr) = submitted tr @ [t]"
| "submitted (_ # tr) = submitted tr"

lemma sys_do_trace: "trace (sys_do e c s) = (c, answer e (trace s) c) # trace s"
  by (simp add: sys_do_def sys_call_def Let_def)

lemma ykush_transfer_run:
  assumes "usb_works e"
  obtains s1 where "ykush_perform_transfer e p (Some h) c f s = Inr (0, s1)"
    and "heap s1 = (heap s)(p := (heap s p)\<lparr>buf := (buf (heap s p))[0 := c, 1 := c]\<rparr>)"
    and "timeout_q s1 = timeout_q s" and "hubs s1 = hubs s"
    and "submitted (trace s1) = submitted (trace s) @
           [Ykush_Transfer p (comm_handle (hubs s h)) ((buf (heap s p))[0 := c, 1 := c]) f]"
proof -
  let ?s = "sys_do e Usb_Alloc_Transfer (port_upd p (\<lambda>pt. pt\<lparr>buf := (buf pt)[0 := c, 1 := c]\<rparr>) s)"
  let ?t = "Ykush_Transfer p (comm_handle (hubs s h)) ((buf (heap s p))[0 := c, 1 := c]) f"
  have "ykush_perform_transfer e p (Some h) c f s = Inr (0, sys_do e (Usb_Submit ?t) ?s)"
    using assms by (simp add: ykush_perform_transfer_def sys_call_eq Let_def usb_works_def)
  then show thesis
    by (rule that) (simp_all add: sys_do_trace port_upd_def)
qed

text \<open>
  Both halves of the restart: the command to switch off, the end of its transfer, the timeout,
  the command to switch on, the end of its transfer.
\<close>

lemma ykush_cycle:
  assumes works: "usb_works e" and tq: "tq s xs" and on: "enabled (heap s p)" "pwr_state (heap s p)"
    and hub: "parent (heap s p) = Some h" and num: "ykush_port_cmd (port_num (heap s p)) = Some c"
  shows "\<exists>s1 s2 s3 s4. ykush_update_port e p CMD_RESTART s = Inr (0, s1) \<and> tq s1 (remove1 p xs) \<and>
           s2 = ykush_reset_cb e p True s1 \<and> \<not> pwr_state (heap s2 p) \<and> tq s2 (p # remove1 p xs) \<and>
           and_then (usb_monitor_lists_del_timeout p s2) (ykush_handle_timeout e p) = Inr s3 \<and>
           s4 = ykush_reset_cb e p True s3 \<and> pwr_state (heap s4 p) \<and> enabled (heap s4 p) \<and>
           msg_mode (heap s4 p) = IDLE \<and> tq s4 (remove1 p xs) \<and>
           submitted (trace s4) = submitted (trace s) @
             [Ykush_Transfer p (comm_handle (hubs s h)) ((buf (heap s p))[0 := c, 1 := c]) Ykush_Reset_Cb,
              Ykush_Transfer p (comm_handle (hubs s h)) ((buf (heap s p))[0 := or c 0x10, 1 := or c 0x10]) Ykush_Reset_Cb]"
proof -
  let ?s0 = "port_upd p (\<lambda>pt. pt\<lparr>msg_mode := RESET\<rparr>) s"
  have p: "p \<notin> set (remove1 p xs)" and idem: "remove1 p (remove1 p xs) = remove1 p xs"
    using tq_distinct [OF tq] by (auto intro: remove1_idem)
  have two: "xs[0 := a, Suc 0 := a, 0 := b, Suc 0 := b] = xs[0 := b, Suc 0 := b]" for xs :: "u8 list" and a b
    by (cases xs rule: remdups_adj.cases) simp_all
  obtain q where q: "guarded_del_timeout p ?s0 = Inr (?s0\<lparr>timeout_q := q\<rparr>)" "lq_list q (remove1 p xs)"
    using guarded_del_timeout_ok [of ?s0 xs p] tq by auto
  obtain s1 where s1: "ykush_perform_transfer e p (Some h) c Ykush_Reset_Cb (?s0\<lparr>timeout_q := q\<rparr>) = Inr (0, s1)"
    "heap s1 = (heap ?s0)(p := (heap ?s0 p)\<lparr>buf := (buf (heap s p))[0 := c, 1 := c]\<rparr>)" "timeout_q s1 = q" "hubs s1 = hubs s"
    "submitted (trace s1) = submitted (trace s) @
           [Ykush_Transfer p (comm_handle (hubs s h)) ((buf (heap s p))[0 := c, 1 := c]) Ykush_Reset_Cb]"
    by (rule ykush_transfer_run [OF works, of p h c Ykush_Reset_Cb "?s0\<lparr>timeout_q := q\<rparr>"]) (simp add: port_upd_def)
  have u1: "ykush_update_port e p CMD_RESTART s = Inr (0, s1)"
    using on hub num q(1) s1(1) by (simp add: ykush_update_port_def)
  have tq1: "tq s1 (remove1 p xs)" using s1(3) q(2) by (simp add: tq_def)
  define s2 where "s2 = ykush_reset_cb e p True s1"
  have s2: "s2 = usb_helpers_start_timeout e p DEFAULT_TIMEOUT_SEC (port_upd p (\<lambda>pt. pt\<lparr>pwr_state := False\<rparr>) s1)"
    using on by (simp add: s2_def ykush_reset_cb_def s1(2) port_upd_def)
  have tq2: "tq s2 (p # remove1 p xs)" unfolding s2 by (rule start_timeout_tq) (use tq1 p in simp_all)
  obtain q2 where q2: "usb_monitor_lists_del_timeout p s2 = Inr (s2\<lparr>timeout_q := q2\<rparr>)" "lq_list q2 (remove1 p xs)"
    using del_timeout_member [OF tq2, of p] by auto
  let ?s3 = "port_upd p (\<lambda>pt. pt\<lparr>msg_mode := RESET\<rparr>) (s2\<lparr>timeout_q := q2\<rparr>)"
  have g: "guarded_del_timeout p ?s3 = Inr ?s3"
    using tq_active [of ?s3 "remove1 p xs" p] q2(2) p by (simp add: guarded_del_timeout_def tq_def)
  obtain s3 where s3: "ykush_perform_transfer e p (Some h) (or c 0x10) Ykush_Reset_Cb ?s3 = Inr (0, s3)"
    "heap s3 = (heap ?s3)(p := (heap ?s3 p)\<lparr>buf := (buf (heap s p))[0 := or c 0x10, 1 := or c 0x10]\<rparr>)" "timeout_q s3 = q2"
    "submitted (trace s3) = submitted (trace s1) @
           [Ykush_Transfer p (comm_handle (hubs s h)) ((buf (heap s p))[0 := or c 0x10, 1 := or c 0x10]) Ykush_Reset_Cb]"
    by (rule ykush_transfer_run [OF works, of p h "or c 0x10" Ykush_Reset_Cb ?s3])
      (simp add: s2 s1(2,4) two port_upd_def)
  have u3: "and_then (usb_monitor_lists_del_timeout p s2) (ykush_handle_timeout e p) = Inr s3"
    using on hub num q2(1) g s3(1)
    by (simp add: ykush_handle_timeout_def ykush_update_port_def s2 s1(2))
  define s4 where "s4 = ykush_reset_cb e p True s3"
  have s4: "s4 = port_upd p (\<lambda>pt. pt\<lparr>pwr_state := True, msg_mode := IDLE\<rparr>) s3"
    using on by (simp add: s4_def ykush_reset_cb_def s3(2) s2 s1(2) port_upd_def)
  have "tq s4 (remove1 p xs)" "enabled (heap s4 p)"
    using q2(2) on by (simp_all add: s4 s3(2,3) s2 s1(2) tq_def)
  moreover have "submitted (trace s4) = submitted (trace s) @
             [Ykush_Transfer p (comm_handle (hubs s h)) ((buf (heap s p))[0 := c, 1 := c]) Ykush_Reset_Cb,
              Ykush_Transfer p (comm_handle (hubs s h)) ((buf (heap s p))[0 := or c 0x10, 1 := or c 0x10]) Ykush_Reset_Cb]"
    by (simp add: s4 port_upd_def s3(4) s1(5))
  ultimately show ?thesis
    using u1 tq1 tq2 u3
    by (intro exI [of _ s1] exI [of _ s2] exI [of _ s3] exI [of _ s4]) (simp add: s2_def [symmetric] s4_def [symmetric], simp add: s4 s2)
qed

end
