(* ===== verification/Http_Invariant.thy ===== *)
theory Http_Invariant
  imports Http_Parser
begin

text \<open>
  The invariant of the HTTP parser: what holds of it between two bytes, and that the code of no
  state fails an assertion, reads past a string or breaks the invariant.
\<close>

section \<open>Lengths\<close>

text \<open>The largest value of a length stands for one that is not known: no length becomes it.\<close>

lemma unat_max: "unat (- 1 :: u64) = 18446744073709551615"
  by (simp add: unsigned_minus_1_eq_mask mask_eq_exp_minus_1)

lemma minus_not_max:
  assumes "0 < unat n" and "n \<le> (c :: u64)"
  shows "c - n \<noteq> - 1"
proof -
  have "unat (c - n) = unat c - unat n" using assms(2) by (rule unat_sub)
  moreover have "unat c < 2 ^ 64" using unsigned_less [of c, where ?'a = nat] by simp
  ultimately have "unat (c - n) < 18446744073709551615" using assms by (simp add: word_le_nat_alt)
  then show ?thesis by (metis unat_max less_irrefl)
qed

lemma unhex_bounds: "- 1 \<le> unhex c \<and> unhex c \<le> 15"
proof -
  have "unhex c \<in> set unhex_table"
    unfolding unhex_def by (rule nth_mem) (use nat_of_char_less_256 [of c] in \<open>simp add: unhex_table_def\<close>)
  moreover have "\<forall>x \<in> set unhex_table. - 1 \<le> x \<and> x \<le> 15" by (simp add: unhex_table_def)
  ultimately show ?thesis by blast
qed

text \<open>The table of hexadecimal digits ends in the middle: a byte above 127 counts as the digit 0.\<close>

lemma unhex_high: "128 \<le> ccode c \<Longrightarrow> unhex c = 0"
proof -
  assume high: "128 \<le> ccode c"
  have "unhex_table = take 128 unhex_table @ replicate 128 0" "length (take 128 unhex_table) = 128"
    by (simp_all add: unhex_table_def)
  then have "unhex_table ! ccode c = replicate 128 0 ! (ccode c - 128)"
    using high by (metis nth_append not_less)
  then show "unhex c = 0" using nat_of_char_less_256 [of c] by (simp add: unhex_def)
qed

lemma unat_unhex:
  assumes "unhex c \<noteq> - 1"
  shows "unat (word_of_int (unhex c) :: u64) < 16"
proof -
  obtain n where n: "unhex c = int n" "n < 16"
    using assms unhex_bounds [of c] by (intro that [of "nat (unhex c)"]) auto
  then show ?thesis by (simp add: unat_of_nat take_bit_nat_eq_self)
qed

lemma chunk_digit_not_max:
  assumes "unhex ch \<noteq> - 1" and "\<not> (- 1 - 16) div 16 < (c :: u64)"
  shows "c * 16 + word_of_int (unhex ch) \<noteq> - 1"
proof -
  let ?d = "word_of_int (unhex ch) :: u64"
  have d: "unat ?d < 16" by (rule unat_unhex) fact
  have "c \<le> (- 1 - 16) div 16" using assms(2) by simp
  also have "(- 1 - 16) div 16 = (0xFFFFFFFFFFFFFFE :: u64)" by simp
  finally have c: "unat c \<le> 0xFFFFFFFFFFFFFFE" by (simp add: word_le_nat_alt)
  then have "unat (c * 16) = unat c * 16" by (simp add: unat_word_ariths)
  then have "unat (c * 16 + ?d) = unat c * 16 + unat ?d" using c d by (simp add: unat_word_ariths)
  then have "unat (c * 16 + ?d) < 18446744073709551615" using c d by simp
  then show ?thesis by (metis unat_max less_irrefl)
qed
section \<open>Marks\<close>

text \<open>The mark that can be set in a state, between two bytes.\<close>

definition owner :: "http_state \<Rightarrow> http_mark option" where
  "owner s =
     (if s = s_header_field then Some Header_Field_Mark
      else if s = s_header_value then Some Header_Value_Mark
      else if s = s_res_status then Some Status_Mark
      else if s \<in> {s_body_identity, s_body_identity_eof, s_chunk_data, s_chunk_data_almost_done}
      then Some Body_Mark
      else if s \<in> url_states then Some Url_Mark
      else None)"

text \<open>The marks that are set after some actions.\<close>

fun live_marks :: "http_action list \<Rightarrow> http_mark set \<Rightarrow> http_mark set" where
  "live_marks [] M = M"
| "live_marks (Mark m # acts) M = live_marks acts (insert m M)"
| "live_marks (Data m # acts) M = live_marks acts (M - {m})"
| "live_marks (Data_Noadvance m # acts) M = live_marks acts (M - {m})"
| "live_marks (Data_Last m # acts) M = live_marks acts (M - {m})"
| "live_marks (_ # acts) M = live_marks acts M"

fun skipped :: "http_action list \<Rightarrow> nat" where
  "skipped [] = 0"
| "skipped (Skip n # acts) = n + skipped acts"
| "skipped (_ # acts) = skipped acts"

text \<open>The text of a data callback lies in the text that is parsed.\<close>

fun event_within :: "nat \<Rightarrow> http_event \<Rightarrow> bool" where
  "event_within len (On_Url i n) = (i + n \<le> len)"
| "event_within len (On_Status i n) = (i + n \<le> len)"
| "event_within len (On_Header_Field i n) = (i + n \<le> len)"
| "event_within len (On_Header_Value i n) = (i + n \<le> len)"
| "event_within len (On_Body i n) = (i + n \<le> len)"
| "event_within len _ = True"

section \<open>The states of a well-formed parser\<close>

text \<open>
  What holds of a parser between two bytes. The parameter is the count of header bytes that
  stands at the start of a chunk: 0 before the byte is counted and 1 after it.
\<close>

definition parser_inv :: "u32 \<Rightarrow> http_parser \<Rightarrow> bool" where
  "parser_inv k p \<longleftrightarrow>
     http_errno p = HPE_OK \<and>
     (case parser_state p of
        s_req_method \<Rightarrow> unat (match_index p) \<le> length (http_method_str (req_method p))
      | s_header_field \<Rightarrow>
          hstate p \<in> {h_general, h_C, h_CO, h_CON, h_matching_connection, h_matching_proxy_connection,
            h_matching_content_length, h_matching_transfer_encoding, h_matching_upgrade, h_connection,
            h_content_length, h_transfer_encoding, h_upgrade}
      | s_header_value \<Rightarrow> hstate p \<noteq> h_connection \<and> hstate p \<noteq> h_transfer_encoding
      | s_body_identity \<Rightarrow> content_length p \<noteq> 0 \<and> content_length p \<noteq> - 1
      | s_chunk_size_start \<Rightarrow> has_flag p F_CHUNKED \<and> nread p = k
      | s_chunk_size \<Rightarrow> has_flag p F_CHUNKED \<and> content_length p \<noteq> - 1
      | s_chunk_parameters \<Rightarrow> has_flag p F_CHUNKED \<and> content_length p \<noteq> - 1
      | s_chunk_size_almost_done \<Rightarrow> has_flag p F_CHUNKED \<and> content_length p \<noteq> - 1
      | s_chunk_data \<Rightarrow> has_flag p F_CHUNKED \<and> content_length p \<noteq> 0 \<and> content_length p \<noteq> - 1
      | s_chunk_data_almost_done \<Rightarrow> has_flag p F_CHUNKED \<and> content_length p = 0
      | s_chunk_data_done \<Rightarrow> has_flag p F_CHUNKED
      | _ \<Rightarrow> True)"

text \<open>
  A bound on how often a byte can be executed again from a state; 4 for the states that take a
  piece of the body at once.
\<close>

definition again_rank :: "http_state \<Rightarrow> nat" where
  "again_rank s =
     (if s \<in> {s_body_identity, s_body_identity_eof, s_chunk_data} then 4
      else if s = s_header_value_lws then 3 else if s = s_header_field_start then 2
      else if s \<in> {s_headers_almost_done, s_header_value, s_start_req_or_res} then 1 else 0)"

text \<open>What the code of one state does well, from a well-formed parser.\<close>

definition goes_on :: "http_control \<Rightarrow> bool" where
  "goes_on ctl \<longleftrightarrow> ctl \<in> {Break_Byte, Reexecute_Byte, Headers_Complete}"

definition again :: "http_control \<Rightarrow> bool" where
  "again ctl \<longleftrightarrow> ctl \<in> {Reexecute_Byte, Headers_Complete}"

definition step_fine :: "nat \<Rightarrow> http_parser \<Rightarrow> http_step \<Rightarrow> bool" where
  "step_fine avail p stp \<longleftrightarrow>
     (case stp of (p', acts, ctl) \<Rightarrow>
        (\<forall>f. ctl \<noteq> Fault f) \<and> ctl \<noteq> Error HPE_OK \<and> skipped acts < avail \<and> http_errno p' = HPE_OK \<and>
        (\<forall>ev. Notify ev \<in> set acts \<longrightarrow> event_within 0 ev) \<and>
        (again_rank (parser_state p) < 4 \<longrightarrow> Mark Body_Mark \<notin> set acts \<and> (\<forall>m. Data_Last m \<notin> set acts)) \<and>
        (ctl = Return_After \<longrightarrow> upgrade p' \<and> parser_inv 0 p') \<and>
        (goes_on ctl \<longrightarrow>
           parser_inv (if again ctl then 1 else 0) p' \<and>
           live_marks acts (set_option (owner (parser_state p))) \<subseteq> set_option (owner (parser_state p')) \<and>
           (again ctl \<longrightarrow> again_rank (parser_state p') < again_rank (parser_state p) \<and>
              parser_state p' \<noteq> s_chunk_size_start)))"

lemmas fine_defs = step_fine_def goes_on_def again_def goto_state_def http_error_def

lemma parser_inv_idle:
  "http_errno p = HPE_OK \<Longrightarrow>
   parser_state p \<notin> {s_req_method, s_header_field, s_header_value, s_body_identity, s_chunk_size_start, s_chunk_size,
     s_chunk_parameters, s_chunk_size_almost_done, s_chunk_data, s_chunk_data_almost_done, s_chunk_data_done} \<Longrightarrow>
   parser_inv k p"
  by (simp add: parser_inv_def split: http_state.split)

lemma parser_inv_errno [simp]: "parser_inv k p \<Longrightarrow> http_errno p = HPE_OK"
  by (simp add: parser_inv_def)

lemmas step_facts = fine_defs owner_def again_rank_def url_states_def Let_def parser_inv_idle

lemma step_fine_if: "(b \<Longrightarrow> step_fine avail p x) \<Longrightarrow> (\<not> b \<Longrightarrow> step_fine avail p y) \<Longrightarrow> step_fine avail p (if b then x else y)"
  by simp

lemma http_error_fine: "err \<noteq> HPE_OK \<Longrightarrow> http_errno q = HPE_OK \<Longrightarrow> 0 < avail \<Longrightarrow> step_fine avail p (http_error err q)"
  by (simp add: fine_defs)

text \<open>One lemma for each state: from a well-formed parser its code does well.\<close>

section \<open>The start of a message and the status line\<close>

lemma strict_goto_fine:
  assumes "parser_inv 1 p" and "0 < avail" and "owner (parser_state p) = None"
    and "st \<in> {s_res_HT, s_res_HTT, s_res_HTTP, s_res_first_http_major, s_req_http_HT, s_req_http_HTT, s_req_http_HTTP,
      s_req_first_http_major, s_header_field_start}"
  shows "step_fine avail p (strict_goto x ch st p)"
  using assms by (auto simp: strict_goto_def fine_defs intro!: parser_inv_idle)

lemma dead_fine: "parser_inv 1 p \<Longrightarrow> 0 < avail \<Longrightarrow> parser_state p = s_dead \<Longrightarrow>
    step_fine avail p (step_dead ch p)"
  by (simp add: step_facts step_dead_def)

lemma start_req_or_res_fine: "parser_inv 1 p \<Longrightarrow> 0 < avail \<Longrightarrow> parser_state p = s_start_req_or_res \<Longrightarrow>
    step_fine avail p (step_start_req_or_res ch p)"
  by (simp add: step_facts step_start_req_or_res_def)

lemma res_or_resp_H_fine: "parser_inv 1 p \<Longrightarrow> 0 < avail \<Longrightarrow> parser_state p = s_res_or_resp_H \<Longrightarrow>
    step_fine avail p (step_res_or_resp_H ch p)"
  by (simp add: step_facts step_res_or_resp_H_def parser_inv_def)

lemma start_res_fine: "parser_inv 1 p \<Longrightarrow> 0 < avail \<Longrightarrow> parser_state p = s_start_res \<Longrightarrow>
    step_fine avail p (step_start_res ch p)"
  by (simp add: step_facts step_start_res_def)

lemma res_first_http_major_fine: "parser_inv 1 p \<Longrightarrow> 0 < avail \<Longrightarrow> parser_state p = s_res_first_http_major \<Longrightarrow>
    step_fine avail p (step_res_first_http_major ch p)"
  by (simp add: step_facts step_res_first_http_major_def)

lemma res_http_major_fine: "parser_inv 1 p \<Longrightarrow> 0 < avail \<Longrightarrow> parser_state p = s_res_http_major \<Longrightarrow>
    step_fine avail p (step_http_major s_res_first_http_minor ch p)"
  by (simp add: step_facts step_http_major_def major_digit_def)

lemma res_first_http_minor_fine: "parser_inv 1 p \<Longrightarrow> 0 < avail \<Longrightarrow> parser_state p = s_res_first_http_minor \<Longrightarrow>
    step_fine avail p (step_first_http_minor s_res_http_minor ch p)"
  by (simp add: step_facts step_first_http_minor_def)

lemma res_http_minor_fine: "parser_inv 1 p \<Longrightarrow> 0 < avail \<Longrightarrow> parser_state p = s_res_http_minor \<Longrightarrow>
    step_fine avail p (step_res_http_minor ch p)"
  by (simp add: step_facts step_res_http_minor_def minor_digit_def)

lemma res_first_status_code_fine: "parser_inv 1 p \<Longrightarrow> 0 < avail \<Longrightarrow> parser_state p = s_res_first_status_code \<Longrightarrow>
    step_fine avail p (step_res_first_status_code ch p)"
  by (simp add: step_facts step_res_first_status_code_def)

lemma res_status_code_fine: "parser_inv 1 p \<Longrightarrow> 0 < avail \<Longrightarrow> parser_state p = s_res_status_code \<Longrightarrow>
    step_fine avail p (step_res_status_code ch p)"
  by (simp add: step_facts step_res_status_code_def)

lemma res_status_start_fine: "parser_inv 1 p \<Longrightarrow> 0 < avail \<Longrightarrow> parser_state p = s_res_status_start \<Longrightarrow>
    step_fine avail p (step_res_status_start ch p)"
  by (simp add: step_facts step_res_status_start_def)

lemma res_status_fine: "parser_inv 1 p \<Longrightarrow> 0 < avail \<Longrightarrow> parser_state p = s_res_status \<Longrightarrow>
    step_fine avail p (step_res_status ch p)"
  by (simp add: step_facts step_res_status_def)

section \<open>The line of a request\<close>

lemma method_of_letter_length: "method_of_letter ch = Some m \<Longrightarrow> 1 \<le> length (http_method_str m)"
  by (auto simp: method_of_letter_def split: if_splits)

lemma start_req_fine: "parser_inv 1 p \<Longrightarrow> 0 < avail \<Longrightarrow> parser_state p = s_start_req \<Longrightarrow>
    step_fine avail p (step_start_req ch p)"
  using method_of_letter_length [of ch]
  by (cases "method_of_letter ch") (simp_all add: step_facts step_start_req_def parser_inv_def)

lemma other_method_length: "other_method m i ch = Some m' \<Longrightarrow> unat (i + 1) \<le> length (http_method_str m')"
  by (auto simp: other_method_def split: if_splits)

lemma u8_Suc: "unat (i :: u8) < 255 \<Longrightarrow> unat (i + 1) = Suc (unat i)"
  by (simp add: unat_word_ariths)

lemma method_str_short: "length (http_method_str m) < 20"
  by (cases m) simp_all

lemma req_method_fine:
  assumes "parser_inv 1 p" and "0 < avail" and "parser_state p = s_req_method"
  shows "step_fine avail p (step_req_method ch p)"
proof -
  let ?str = "http_method_str (req_method p)"
  have i: "unat (match_index p) \<le> length ?str" using assms(1,3) by (simp add: parser_inv_def)
  then obtain x where x: "matcher ?str (match_index p) = Some x"
    by (cases "unat (match_index p) = length ?str") (simp_all add: matcher_def)
  have next_index: "unat (match_index p + 1) \<le> length ?str" if "ch = x" "ch \<noteq> NUL"
    using x that i u8_Suc [of "match_index p"] method_str_short [of "req_method p"]
    by (auto simp: matcher_def split: if_splits)
  show ?thesis
    using assms next_index other_method_length [of "req_method p" "match_index p" ch]
    by (cases "other_method (req_method p) (match_index p) ch")
      (simp_all add: step_facts step_req_method_def x parser_inv_def)
qed

lemma url_owner: "s \<in> url_states \<Longrightarrow> owner s = Some Url_Mark"
  by (auto simp: url_states_def owner_def)

lemma url_step_fine:
  assumes "parser_inv 1 p" and "0 < avail"
    and "acts = [Mark Url_Mark] \<and> owner (parser_state p) = None \<or> acts = [] \<and> parser_state p \<in> url_states"
  shows "step_fine avail p (url_step st ch acts p)"
proof -
  have inv: "parser_inv k (p\<lparr>parser_state := s\<rparr>)" "owner s = Some Url_Mark" if "s \<in> url_states" for s k
    using that assms(1) by (auto simp: url_states_def parser_inv_def owner_def)
  then show ?thesis
    using assms parse_url_char_states [of st ch] by (auto simp: url_step_def fine_defs Let_def)
qed

lemma req_spaces_before_url_fine: "parser_inv 1 p \<Longrightarrow> 0 < avail \<Longrightarrow> parser_state p = s_req_spaces_before_url \<Longrightarrow>
    step_fine avail p (step_req_spaces_before_url ch p)"
  unfolding step_req_spaces_before_url_def
  by (rule step_fine_if, simp add: step_facts, rule url_step_fine) (simp_all add: owner_def url_states_def)

lemma req_schema_fine: "parser_inv 1 p \<Longrightarrow> 0 < avail \<Longrightarrow> parser_state p \<in> url_states \<Longrightarrow>
    step_fine avail p (step_req_schema ch p)"
  unfolding step_req_schema_def
  by (rule step_fine_if, simp add: fine_defs, rule url_step_fine) simp_all

lemma req_url_fine: "parser_inv 1 p \<Longrightarrow> 0 < avail \<Longrightarrow> parser_state p \<in> url_states \<Longrightarrow>
    step_fine avail p (step_req_url ch p)"
  unfolding step_req_url_def
  by (intro step_fine_if url_step_fine) (simp_all add: url_owner fine_defs parser_inv_idle)

lemma req_http_start_fine: "parser_inv 1 p \<Longrightarrow> 0 < avail \<Longrightarrow> parser_state p = s_req_http_start \<Longrightarrow>
    step_fine avail p (step_req_http_start ch p)"
  by (simp add: step_facts step_req_http_start_def)

lemma req_first_http_major_fine: "parser_inv 1 p \<Longrightarrow> 0 < avail \<Longrightarrow> parser_state p = s_req_first_http_major \<Longrightarrow>
    step_fine avail p (step_req_first_http_major ch p)"
  by (simp add: step_facts step_req_first_http_major_def)

lemma req_http_major_fine: "parser_inv 1 p \<Longrightarrow> 0 < avail \<Longrightarrow> parser_state p = s_req_http_major \<Longrightarrow>
    step_fine avail p (step_http_major s_req_first_http_minor ch p)"
  by (simp add: step_facts step_http_major_def major_digit_def)

lemma req_first_http_minor_fine: "parser_inv 1 p \<Longrightarrow> 0 < avail \<Longrightarrow> parser_state p = s_req_first_http_minor \<Longrightarrow>
    step_fine avail p (step_first_http_minor s_req_http_minor ch p)"
  by (simp add: step_facts step_first_http_minor_def)

lemma req_http_minor_fine: "parser_inv 1 p \<Longrightarrow> 0 < avail \<Longrightarrow> parser_state p = s_req_http_minor \<Longrightarrow>
    step_fine avail p (step_req_http_minor ch p)"
  by (simp add: step_facts step_req_http_minor_def minor_digit_def)

lemma req_line_almost_done_fine: "parser_inv 1 p \<Longrightarrow> 0 < avail \<Longrightarrow> parser_state p = s_req_line_almost_done \<Longrightarrow>
    step_fine avail p (step_req_line_almost_done ch p)"
  by (simp add: step_facts step_req_line_almost_done_def)

section \<open>Headers\<close>

lemma header_field_start_fine: "parser_inv 1 p \<Longrightarrow> 0 < avail \<Longrightarrow> parser_state p = s_header_field_start \<Longrightarrow>
    step_fine avail p (step_header_field_start ch p)"
  by (simp add: step_facts step_header_field_start_def parser_inv_def)

lemma match_next_fields [simp]:
  "parser_state (match_next txt h c p) = parser_state p" "http_errno (match_next txt h c p) = http_errno p"
  "flags (match_next txt h c p) = flags p" "upgrade (match_next txt h c p) = upgrade p" "content_length (match_next txt h c p) = content_length p"
  "hstate (match_next txt h c p) \<in> {h_general, h, hstate p}"
  by (simp_all add: match_next_def Let_def)

lemma field_byte_fine:
  assumes "parser_inv 1 p" and "parser_state p = s_header_field"
  shows "\<exists>p'. field_byte ch c p = Some p' \<and> parser_inv 0 p' \<and> parser_state p' = s_header_field"
  using assms match_next_fields(6) [of "''connection''" h_connection c p]
    match_next_fields(6) [of "''proxy-connection''" h_connection c p]
    match_next_fields(6) [of "''content-length''" h_content_length c p]
    match_next_fields(6) [of "''transfer-encoding''" h_transfer_encoding c p]
    match_next_fields(6) [of "''upgrade''" h_upgrade c p]
  by (cases "hstate p") (auto simp: field_byte_def parser_inv_def count_goto_def simp del: match_next_fields(6))

lemma header_field_fine:
  assumes "parser_inv 1 p" and "0 < avail" and "parser_state p = s_header_field"
  shows "step_fine avail p (step_header_field ch p)"
proof -
  obtain p' where p': "field_byte ch (TOKEN ch) p = Some p'" "parser_inv 0 p'" "parser_state p' = s_header_field"
    using field_byte_fine [OF assms(1,3)] by blast
  then show ?thesis
    unfolding step_header_field_def Let_def
    by (intro step_fine_if) (use assms p' in \<open>simp_all add: step_facts\<close>)
qed

lemma header_value_start_fine:
  assumes "parser_inv 1 p" and "0 < avail" and "parser_state p = s_header_value_start"
  shows "step_fine avail p (step_header_value_start ch p)"
proof -
  have val_fine: "step_fine avail p (q, [Mark Header_Value_Mark], Break_Byte)"
    if "parser_state q = s_header_value" "http_errno q = HPE_OK" "hstate q \<noteq> h_connection \<and> hstate q \<noteq> h_transfer_encoding" for q
    using that assms by (simp add: fine_defs parser_inv_def owner_def url_states_def)
  show ?thesis
  proof (cases "ch = CHR '' '' \<or> ch = TAB \<or> ch = CR \<or> ch = LF")
    case True
    with assms show ?thesis by (auto simp: step_header_value_start_def step_facts)
  next
    case False
    with assms show ?thesis
      by (cases "hstate p") (auto simp: step_header_value_start_def Let_def intro!: val_fine http_error_fine)
  qed
qed

lemma value_byte_fine:
  assumes "parser_inv 1 p" and "0 < avail" and "parser_state p = s_header_value"
  shows "step_fine avail p (value_byte ch c p)"
proof -
  have stays: "step_fine avail p (q, [], Break_Byte)"
    if "parser_state q = s_header_value" "http_errno q = HPE_OK" "hstate q \<noteq> h_connection \<and> hstate q \<noteq> h_transfer_encoding" for q
    using that assms by (simp add: fine_defs parser_inv_def owner_def)
  have matched: "step_fine avail p (match_next w h c p, [], Break_Byte)"
    if "h \<noteq> h_connection \<and> h \<noteq> h_transfer_encoding" for w h
    using that assms match_next_fields(6) [of w h c p]
    by (intro stays) (auto simp: parser_inv_def simp del: match_next_fields(6))
  have "hstate p \<noteq> h_connection \<and> hstate p \<noteq> h_transfer_encoding" using assms by (simp add: parser_inv_def)
  then show ?thesis
    using assms unfolding value_byte_def
    by (cases "hstate p") (auto intro!: stays matched http_error_fine)
qed

lemma header_value_fine:
  assumes "parser_inv 1 p" and "0 < avail" and "parser_state p = s_header_value"
  shows "step_fine avail p (step_header_value ch p)"
  unfolding step_header_value_def
  by (intro step_fine_if value_byte_fine assms) (use assms in \<open>simp_all add: step_facts\<close>)

lemma header_almost_done_fine: "parser_inv 1 p \<Longrightarrow> 0 < avail \<Longrightarrow> parser_state p = s_header_almost_done \<Longrightarrow>
    step_fine avail p (step_header_almost_done ch p)"
  by (cases "hstate p") (simp_all add: step_facts step_header_almost_done_def)

lemma header_value_lws_fine: "parser_inv 1 p \<Longrightarrow> 0 < avail \<Longrightarrow> parser_state p = s_header_value_lws \<Longrightarrow>
    step_fine avail p (step_header_value_lws ch p)"
  by (simp add: step_facts step_header_value_lws_def)

section \<open>The end of the headers and the body\<close>

lemma new_message_idle: "new_message p \<in> {s_dead, s_start_req, s_start_res}"
  by (simp add: new_message_def start_state_def)

lemma complete_message_fine:
  assumes "http_errno p = HPE_OK" and "0 < avail" and "owner (parser_state q) = None"
  shows "step_fine avail q (complete_message p)"
  using assms new_message_idle [of p] by (auto simp: step_facts complete_message_def)

lemma headers_almost_done_fine:
  assumes "parser_inv 1 p" and "0 < avail" and "parser_state p = s_headers_almost_done"
  shows "step_fine avail p (step_headers_almost_done ch p)"
  using assms complete_message_fine [of p avail p] by (auto simp: step_facts step_headers_almost_done_def)

lemma new_message_inv: "http_errno p = HPE_OK \<Longrightarrow> parser_inv k (p\<lparr>parser_state := new_message q\<rparr>)"
  using new_message_idle [of q] by (intro parser_inv_idle) auto

lemma headers_done_fine:
  assumes "parser_inv 1 p" and "0 < avail" and "parser_state p = s_headers_done"
  shows "step_fine avail p (step_headers_done ch p)"
proof -
  let ?q = "p\<lparr>nread := 0\<rparr>"
  have ok: "http_errno ?q = HPE_OK" using assms(1) by simp
  have none: "owner (parser_state p) = None" by (simp add: assms(3) owner_def url_states_def)
  have ret: "step_fine avail p
      (?q\<lparr>parser_state := new_message ?q\<rparr>, [Notify (On_Message_Complete (req_method ?q))], Return_After)"
    if "upgrade ?q"
    using that assms(2) ok new_message_inv [OF ok] by (simp add: fine_defs)
  have moves: "step_fine avail p (goto_state st ?q)"
    if "st \<in> {s_chunk_size_start, s_body_identity, s_body_identity_eof}"
      "st = s_chunk_size_start \<longrightarrow> has_flag ?q F_CHUNKED"
      "st = s_body_identity \<longrightarrow> content_length ?q \<noteq> 0 \<and> content_length ?q \<noteq> - 1" for st
    using that assms(2) ok none by (auto simp: fine_defs parser_inv_def has_flag_def)
  show ?thesis
    unfolding step_headers_done_def Let_def
    by (intro step_fine_if http_error_fine ret moves complete_message_fine)
      (use assms(1,2) none in simp_all)
qed

text \<open>A piece of the body is not empty and lies in the text.\<close>

lemma to_read_range:
  assumes "content_length p \<noteq> 0" and "0 < avail" and "avail < 2 ^ 64"
  shows "0 < unat (to_read avail p)" "unat (to_read avail p) \<le> avail" "to_read avail p \<le> content_length p"
proof -
  have "unat (of_nat avail :: u64) = avail" using assms(3) by (simp add: unat_of_nat take_bit_nat_eq_self)
  then have "unat (to_read avail p) = min (unat (content_length p)) avail"
    by (simp add: to_read_def min_def word_le_nat_alt)
  moreover have "0 < unat (content_length p)" using assms(1) by (simp add: unat_gt_0)
  ultimately show "0 < unat (to_read avail p)" "unat (to_read avail p) \<le> avail" "to_read avail p \<le> content_length p"
    using assms(2) by (simp_all add: word_le_nat_alt)
qed

lemma body_identity_fine:
  assumes "parser_inv 1 p" and "0 < avail" and "avail < 2 ^ 64" and "parser_state p = s_body_identity"
  shows "step_fine avail p (step_body_identity avail p)"
proof -
  have cl: "content_length p \<noteq> 0" "content_length p \<noteq> - 1" using assms(1,4) by (simp_all add: parser_inv_def)
  note r = to_read_range [OF cl(1) assms(2,3)]
  have "content_length p - to_read avail p \<noteq> - 1" by (rule minus_not_max [OF r(1,3)])
  then show ?thesis
    using assms cl r by (auto simp: step_body_identity_def Let_def step_facts parser_inv_def)
qed

lemma chunk_data_fine:
  assumes "parser_inv 1 p" and "0 < avail" and "avail < 2 ^ 64" and "parser_state p = s_chunk_data"
  shows "step_fine avail p (step_chunk_data avail p)"
proof -
  have cl: "content_length p \<noteq> 0" "content_length p \<noteq> - 1" using assms(1,4) by (simp_all add: parser_inv_def)
  note r = to_read_range [OF cl(1) assms(2,3)]
  have "content_length p - to_read avail p \<noteq> - 1" by (rule minus_not_max [OF r(1,3)])
  then show ?thesis
    using assms cl r by (auto simp: step_chunk_data_def Let_def step_facts parser_inv_def has_flag_def)
qed

lemma body_identity_eof_fine:
  "parser_inv 1 p \<Longrightarrow> 0 < avail \<Longrightarrow> parser_state p = s_body_identity_eof \<Longrightarrow> step_fine avail p (step_body_identity_eof avail p)"
  by (simp add: step_facts step_body_identity_eof_def)

lemma chunk_size_start_fine:
  assumes "parser_inv 1 p" and "0 < avail" and "parser_state p = s_chunk_size_start"
  shows "step_fine avail p (step_chunk_size_start ch p)"
proof -
  have "word_of_int (unhex ch) \<noteq> (- 1 :: u64)" if "unhex ch \<noteq> - 1"
    using unat_unhex [OF that] by (auto simp: unat_max)
  then show ?thesis
    using assms by (simp add: step_chunk_size_start_def step_facts parser_inv_def has_flag_def)
qed

lemma chunk_size_fine:
  assumes "parser_inv 1 p" and "0 < avail" and "parser_state p = s_chunk_size"
  shows "step_fine avail p (step_chunk_size ch p)"
proof -
  have "content_length p * 16 + word_of_int (unhex ch) \<noteq> (- 1 :: u64)"
    if "unhex ch \<noteq> - 1" "\<not> (- 1 - 16) div 16 < content_length p"
    using that by (rule chunk_digit_not_max)
  then show ?thesis
    using assms by (simp add: step_chunk_size_def step_facts parser_inv_def has_flag_def)
qed

lemma chunk_parameters_fine:
  "parser_inv 1 p \<Longrightarrow> 0 < avail \<Longrightarrow> parser_state p = s_chunk_parameters \<Longrightarrow> step_fine avail p (step_chunk_parameters ch p)"
  by (simp add: step_chunk_parameters_def step_facts parser_inv_def has_flag_def)

lemma chunk_size_almost_done_fine:
  "parser_inv 1 p \<Longrightarrow> 0 < avail \<Longrightarrow> parser_state p = s_chunk_size_almost_done \<Longrightarrow>
   step_fine avail p (step_chunk_size_almost_done ch p)"
  by (simp add: step_chunk_size_almost_done_def step_facts parser_inv_def has_flag_def)

lemma chunk_data_almost_done_fine:
  "parser_inv 1 p \<Longrightarrow> 0 < avail \<Longrightarrow> parser_state p = s_chunk_data_almost_done \<Longrightarrow>
   step_fine avail p (step_chunk_data_almost_done ch p)"
  by (simp add: step_chunk_data_almost_done_def step_facts parser_inv_def has_flag_def)

lemma chunk_data_done_fine:
  "parser_inv 1 p \<Longrightarrow> 0 < avail \<Longrightarrow> parser_state p = s_chunk_data_done \<Longrightarrow> step_fine avail p (step_chunk_data_done ch p)"
  by (simp add: step_chunk_data_done_def step_facts parser_inv_def has_flag_def)

section \<open>Every state\<close>

lemma byte_code_fine:
  assumes "parser_inv 1 p" and "0 < avail" and "avail < 2 ^ 64"
  shows "step_fine avail p (byte_code avail ch p)"
  using assms
  by (cases "parser_state p")
    (simp_all add: byte_code_def dead_fine start_req_or_res_fine res_or_resp_H_fine start_res_fine strict_goto_fine owner_def
      url_states_def res_first_http_major_fine res_http_major_fine res_first_http_minor_fine res_http_minor_fine res_first_status_code_fine
      res_status_code_fine res_status_start_fine res_status_fine start_req_fine req_method_fine req_spaces_before_url_fine
      req_schema_fine req_url_fine req_http_start_fine req_first_http_major_fine req_http_major_fine req_first_http_minor_fine
      req_http_minor_fine req_line_almost_done_fine header_field_start_fine header_field_fine header_value_start_fine
      header_value_fine header_value_lws_fine header_almost_done_fine headers_almost_done_fine headers_done_fine
      chunk_size_start_fine chunk_size_fine chunk_parameters_fine chunk_size_almost_done_fine chunk_data_fine
      chunk_data_almost_done_fine chunk_data_done_fine body_identity_fine body_identity_eof_fine complete_message_fine)

end
