(* ===== verification/Http_Runs.thy ===== *)
theory Http_Runs
  imports Http_Invariant
begin

text \<open>
  The loop of \<open>http_parser_execute\<close>: from a parser that keeps the invariant every text is parsed
  without a fault, whatever the callbacks return, and the invariant holds again afterwards.
\<close>

section \<open>Runs\<close>

lemma event_within_mono: "event_within m ev \<Longrightarrow> m \<le> n \<Longrightarrow> event_within n ev"
  by (cases ev) simp_all

definition run_within :: "nat \<Rightarrow> http_run \<Rightarrow> bool" where
  "run_within len r \<longleftrightarrow>
     (\<forall>m i. run_marks r m = Some i \<longrightarrow> i \<le> run_pos r) \<and> (\<forall>ev \<in> set (run_events r). event_within len ev)"

text \<open>What holds when \<open>http_parser_execute\<close> is left early.\<close>

definition halted :: "nat \<Rightarrow> http_run \<Rightarrow> nat \<Rightarrow> bool" where
  "halted len r k \<longleftrightarrow>
     k \<le> len \<and> (\<forall>ev \<in> set (run_events r). event_within len ev) \<and>
     (http_errno (run_parser r) \<noteq> HPE_OK \<or> parser_inv 0 (run_parser r) \<and> (upgrade (run_parser r) \<or> k = len))"

text \<open>and when the code goes on, with the parser, the place and the marks that it has then.\<close>

definition flow_fine :: "nat \<Rightarrow> (http_run \<Rightarrow> bool) \<Rightarrow> http_flow result \<Rightarrow> bool" where
  "flow_fine len P x \<longleftrightarrow>
     (\<exists>f. x = Inr f \<and> (case f of Go r \<Rightarrow> run_within len r \<and> P r | Halt r k \<Rightarrow> halted len r k))"

lemma flow_fineE:
  assumes "flow_fine len P x"
  obtains r where "x = Inr (Go r)" "run_within len r" "P r" | r k where "x = Inr (Halt r k)" "halted len r k"
  using assms unfolding flow_fine_def by (metis (full_types) http_flow.exhaust http_flow.simps(5,6))

lemma flow_fine_mono: "flow_fine len P x \<Longrightarrow> (\<And>r. P r \<Longrightarrow> Q r) \<Longrightarrow> flow_fine len Q x"
  by (auto simp: flow_fine_def split: http_flow.splits)

lemma flow_fine_Go [intro]: "run_within len r \<Longrightarrow> P r \<Longrightarrow> flow_fine len P (Inr (Go r))"
  and flow_fine_Halt [intro]: "halted len r k \<Longrightarrow> flow_fine len P (Inr (Halt r k))"
  by (simp_all add: flow_fine_def)

lemma data_event_within: "i + n \<le> len \<Longrightarrow> event_within len (data_event m i n)"
  by (cases m) simp_all

lemma data_errno_bad [simp]: "data_errno m \<noteq> HPE_OK"
  by (cases m) simp_all

lemma notify_errno_bad [simp]: "notify_errno ev \<noteq> HPE_OK"
  by (cases ev) simp_all

lemma call_back_fine:
  assumes "http_errno (run_parser r) = HPE_OK" and "run_within len r" and "event_within len ev"
    and "er \<le> len" and "err \<noteq> HPE_OK"
  shows "flow_fine len (\<lambda>r'. run_parser r' = run_parser r \<and> run_pos r' = run_pos r \<and> run_marks r' = run_marks r)
           (call_back S ev err er r)"
  using assms
  by (cases "S ev") (auto simp: call_back_def Let_def flow_fine_def run_within_def halted_def set_errno_def)

lemma call_data_fine:
  assumes "http_errno (run_parser r) = HPE_OK" and "run_within len r"
    and "run_pos r \<le> till" and "till \<le> len" and "er \<le> len"
  shows "flow_fine len (\<lambda>r'. run_parser r' = run_parser r \<and> run_pos r' = run_pos r \<and>
             run_marks r' = (run_marks r)(m := None)) (call_data S m till er r)"
proof (cases "run_marks r m")
  case None
  then show ?thesis using assms by (auto simp: call_data_def flow_fine_def)
next
  case (Some i)
  then have "event_within len (data_event m i (till - i))"
    using assms by (intro data_event_within) (fastforce simp: run_within_def)
  from call_back_fine [OF assms(1,2) this assms(5) data_errno_bad [of m], of S]
  show ?thesis
    using assms(1,2) Some by (cases rule: flow_fineE) (auto simp: call_data_def flow_fine_def run_within_def)
qed

lemma do_action_fine:
  assumes "http_errno (run_parser r) = HPE_OK" and "run_within len r"
    and "dom (run_marks r) \<subseteq> M" and "run_pos r + skipped [a] < len" and "\<forall>ev. a = Notify ev \<longrightarrow> event_within len ev"
  shows "flow_fine len (\<lambda>r'. run_parser r' = run_parser r \<and> run_pos r' = run_pos r + skipped [a] \<and>
             dom (run_marks r') \<subseteq> live_marks [a] M) (do_action S a r)"
proof (cases a)
  case (Mark m)
  then show ?thesis using assms by (auto simp: flow_fine_def run_within_def)
next
  case (Skip n)
  have "run_within len (r\<lparr>run_pos := run_pos r + n\<rparr>)"
    using assms(2) by (auto simp: run_within_def intro: trans_le_add1)
  then show ?thesis using assms(3) Skip by (simp add: flow_fine_def)
next
  case (Notify ev)
  then have "event_within len ev" using assms(5) by simp
  from call_back_fine [OF assms(1,2) this _ notify_errno_bad [of ev], of "run_pos r + 1" S] show ?thesis
    unfolding Notify do_action.simps by (rule flow_fine_mono) (use assms(3,4) in simp_all)
next
  case (Data m)
  show ?thesis
    unfolding Data do_action.simps
    by (rule flow_fine_mono, rule call_data_fine [OF assms(1,2)]) (use assms(3,4) in auto)
next
  case (Data_Noadvance m)
  show ?thesis
    unfolding Data_Noadvance do_action.simps
    by (rule flow_fine_mono, rule call_data_fine [OF assms(1,2)]) (use assms(3,4) in auto)
next
  case (Data_Last m)
  show ?thesis
    unfolding Data_Last do_action.simps
    by (rule flow_fine_mono, rule call_data_fine [OF assms(1,2)]) (use assms(3,4) in auto)
qed

lemma live_marks_Cons: "live_marks (a # acts) M = live_marks acts (live_marks [a] M)"
  by (cases a) simp_all

lemma skipped_Cons: "skipped (a # acts) = skipped [a] + skipped acts"
  by (cases a) simp_all

lemma do_actions_fine:
  assumes "http_errno (run_parser r) = HPE_OK" and "run_within len r"
    and "dom (run_marks r) \<subseteq> M" and "run_pos r + skipped acts < len"
    and "\<forall>ev. Notify ev \<in> set acts \<longrightarrow> event_within len ev"
  shows "flow_fine len (\<lambda>r'. run_parser r' = run_parser r \<and> run_pos r' = run_pos r + skipped acts \<and>
             dom (run_marks r') \<subseteq> live_marks acts M) (do_actions S acts r)"
  using assms
proof (induction acts arbitrary: r M)
  case Nil
  then show ?case by auto
next
  case (Cons a acts)
  have room: "run_pos r + skipped [a] < len" "run_pos r + skipped [a] + skipped acts < len"
    using Cons.prems(4) skipped_Cons [of a acts] by linarith+
  have "flow_fine len (\<lambda>r'. run_parser r' = run_parser r \<and> run_pos r' = run_pos r + skipped [a] \<and>
             dom (run_marks r') \<subseteq> live_marks [a] M) (do_action S a r)"
    using Cons.prems room(1) by (intro do_action_fine) auto
  then show ?case
  proof (cases rule: flow_fineE)
    case (1 r')
    have "flow_fine len (\<lambda>r''. run_parser r'' = run_parser r' \<and> run_pos r'' = run_pos r' + skipped acts \<and>
             dom (run_marks r'') \<subseteq> live_marks acts (live_marks [a] M)) (do_actions S acts r')"
      using 1 Cons.prems(1,5) room(2) by (intro Cons.IH) auto
    then show ?thesis
      using 1 skipped_Cons [of a acts] live_marks_Cons [of a acts M] by (simp add: add.assoc)
  next
    case (2 r' k)
    then show ?thesis by auto
  qed
qed

text \<open>Between two bytes, and before the code of a state.\<close>

definition run_fine :: "u32 \<Rightarrow> http_run \<Rightarrow> bool" where
  "run_fine k r \<longleftrightarrow>
     parser_inv k (run_parser r) \<and> dom (run_marks r) \<subseteq> set_option (owner (parser_state (run_parser r)))"

lemma parser_inv_skipbody:
  "parser_inv k p \<Longrightarrow> parser_inv k (p\<lparr>flags := or (flags p) F_SKIPBODY\<rparr>)"
proof -
  have "has_flag (p\<lparr>flags := or (flags p) F_SKIPBODY\<rparr>) F_CHUNKED = has_flag p F_CHUNKED"
    by (simp add: has_flag_def bit.conj_disj_distrib2)
  then show "parser_inv k p \<Longrightarrow> parser_inv k (p\<lparr>flags := or (flags p) F_SKIPBODY\<rparr>)"
    by (simp add: parser_inv_def cong: http_state.case_cong)
qed

lemma headers_complete_fine:
  assumes "run_within len r" and "run_fine k r" and "run_pos r < len"
  shows "flow_fine len (\<lambda>r'. run_fine k r' \<and> run_pos r' = run_pos r \<and>
           parser_state (run_parser r') = parser_state (run_parser r)) (Inr (headers_complete S r))"
  using assms
  by (cases "S On_Headers_Complete")
    (auto simp: headers_complete_def flow_fine_def Let_def run_fine_def run_within_def halted_def set_errno_def
      parser_inv_skipbody)

lemma exec_byte_fine:
  assumes "run_fine 1 r" and "run_within len r" and "run_pos r < len" and "len < 2 ^ 64"
    and "again_rank (parser_state (run_parser r)) < n"
  shows "flow_fine len (\<lambda>r'. run_fine 0 r' \<and> run_pos r \<le> run_pos r' \<and> run_pos r' < len) (exec_byte n S len ch r)"
  using assms
proof (induction n arbitrary: r)
  case 0
  then show ?case by simp
next
  case (Suc n)
  let ?p = "run_parser r"
  obtain p acts ctl where code: "byte_code (len - run_pos r) ch ?p = (p, acts, ctl)" by (metis prod_cases3)
  have "step_fine (len - run_pos r) ?p (byte_code (len - run_pos r) ch ?p)"
    using Suc.prems by (intro byte_code_fine) (simp_all add: run_fine_def)
  then have step: "step_fine (len - run_pos r) ?p (p, acts, ctl)" by (simp only: code)
  let ?live = "live_marks acts (set_option (owner (parser_state ?p)))"
  have acts: "flow_fine len (\<lambda>r'. run_parser r' = p \<and> run_pos r' = run_pos r + skipped acts \<and>
      dom (run_marks r') \<subseteq> ?live) (do_actions S acts (r\<lparr>run_parser := p\<rparr>))"
    using do_actions_fine [of "r\<lparr>run_parser := p\<rparr>" len "set_option (owner (parser_state ?p))" acts S]
      step Suc.prems(1-3) event_within_mono [of 0 _ len]
    by (fastforce simp: step_fine_def run_within_def run_fine_def)
  have "skipped acts < len - run_pos r" using step by (simp add: step_fine_def)
  then have room: "run_pos r + skipped acts < len" by linarith
  from acts show ?case
  proof (cases rule: flow_fineE)
    case (2 r' k)
    then show ?thesis by (auto simp: code)
  next
    case (1 r')
    note r' = 1
    have on: "run_fine (if again ctl then 1 else 0) r'" if "goes_on ctl"
      using that r' step by (auto simp: step_fine_def run_fine_def)
    have rank: "again_rank (parser_state p) < n" if "again ctl"
      using that step Suc.prems(5) by (auto simp: step_fine_def goes_on_def again_def)
    show ?thesis
    proof (cases ctl)
      case Break_Byte
      then show ?thesis using r' on room by (auto simp: code goes_on_def again_def)
    next
      case Reexecute_Byte
      then have "flow_fine len (\<lambda>r''. run_fine 0 r'' \<and> run_pos r' \<le> run_pos r'' \<and> run_pos r'' < len)
          (exec_byte n S len ch r')"
        using r' on rank room Suc.prems(4) by (intro Suc.IH) (auto simp: goes_on_def again_def)
      then have "flow_fine len (\<lambda>r''. run_fine 0 r'' \<and> run_pos r \<le> run_pos r'' \<and> run_pos r'' < len)
          (exec_byte n S len ch r')"
        by (rule flow_fine_mono) (use r' in auto)
      then show ?thesis using r' Reexecute_Byte by (simp add: code)
    next
      case Return_After
      then show ?thesis using r' step room by (auto simp: code step_fine_def halted_def run_within_def)
    next
      case (Error err)
      then show ?thesis using r' room step by (auto simp: code halted_def run_within_def set_errno_def step_fine_def)
    next
      case Headers_Complete
      then have "flow_fine len (\<lambda>r''. run_fine 1 r'' \<and> run_pos r'' = run_pos r' \<and>
           parser_state (run_parser r'') = parser_state p) (Inr (headers_complete S r'))"
        using headers_complete_fine [of len r' 1 S] r' on room by (auto simp: goes_on_def again_def)
      then show ?thesis
      proof (cases rule: flow_fineE)
        case (1 r'')
        then have "flow_fine len (\<lambda>r3. run_fine 0 r3 \<and> run_pos r'' \<le> run_pos r3 \<and> run_pos r3 < len)
            (exec_byte n S len ch r'')"
          using r' rank room Suc.prems(4) Headers_Complete by (intro Suc.IH) (auto simp: again_def)
        then have "flow_fine len (\<lambda>r3. run_fine 0 r3 \<and> run_pos r \<le> run_pos r3 \<and> run_pos r3 < len)
            (exec_byte n S len ch r'')"
          by (rule flow_fine_mono) (use r' 1 in auto)
        then show ?thesis using r' 1 Headers_Complete by (simp add: code)
      next
        case (2 r'' k)
        then show ?thesis using r' Headers_Complete by (auto simp: code)
      qed
    next
      case (Fault f)
      then show ?thesis using step by (simp add: step_fine_def)
    qed
  qed
qed

section \<open>The whole text\<close>

lemma leftover_data_fine:
  assumes "http_errno (run_parser r) = HPE_OK" and "run_within len r" and "run_pos r \<le> len"
  shows "flow_fine len (\<lambda>r'. run_parser r' = run_parser r) (do_actions S (map Data_Noadvance ms) r)"
  using assms
proof (induction ms arbitrary: r)
  case Nil
  then show ?case by auto
next
  case (Cons m ms)
  from call_data_fine [OF Cons.prems(1,2) le_refl Cons.prems(3,3), of m S]
  show ?case
  proof (cases rule: flow_fineE)
    case (1 r')
    then show ?thesis using Cons.IH [of r'] Cons.prems by simp
  next
    case (2 r' k)
    then show ?thesis by auto
  qed
qed

lemma marks_of_owner:
  assumes "dom f \<subseteq> set_option ow" and "distinct ms"
  shows "\<not> 1 < length (filter (\<lambda>m. f m \<noteq> None) ms)"
proof -
  let ?live = "filter (\<lambda>m. f m \<noteq> None) ms"
  have "set ?live \<subseteq> set_option ow" using assms(1) by auto
  then have "card (set ?live) \<le> card (set_option ow)" by (rule card_mono [rotated]) simp
  also have "\<dots> \<le> 1" by (cases ow) simp_all
  finally show ?thesis using assms(2) by (simp only: distinct_card distinct_filter not_less)
qed

lemma last_marks_fine:
  assumes "run_fine 0 r" and "run_within (length data) r" and "run_pos r = length data"
  shows "flow_fine (length data) (\<lambda>_. False) (last_marks S (length data) r)"
proof -
  let ?marks = "[Header_Field_Mark, Header_Value_Mark, Url_Mark, Body_Mark, Status_Mark]"
  have "\<not> 1 < length (filter (\<lambda>m. run_marks r m \<noteq> None) ?marks)"
    using assms(1) by (intro marks_of_owner [where ow = "owner (parser_state (run_parser r))"])
      (simp_all add: run_fine_def)
  then have leave: "last_marks S (length data) r =
      and_then (do_actions S (map Data_Noadvance ?marks) r)
        (\<lambda>f. case f of Go r \<Rightarrow> Inr (Halt r (length data)) | Halt r k \<Rightarrow> Inr (Halt r k))"
    unfolding last_marks_def by (simp only: if_False list.map)
  have "flow_fine (length data) (\<lambda>r'. run_parser r' = run_parser r) (do_actions S (map Data_Noadvance ?marks) r)"
    using assms by (intro leftover_data_fine) (auto simp: run_fine_def intro: parser_inv_errno)
  then show ?thesis
  proof (cases rule: flow_fineE)
    case (1 r')
    then show ?thesis using assms(1) by (auto simp: leave halted_def run_fine_def run_within_def)
  next
    case (2 r' k)
    then show ?thesis by (auto simp: leave)
  qed
qed

lemma parser_inv_count:
  "parser_inv 0 p \<Longrightarrow>
   parser_inv 1 (if parsing_header (parser_state p) then p\<lparr>nread := nread p + 1\<rparr> else p)"
  by (cases "parser_state p") (simp_all add: parser_inv_def parsing_header_def has_flag_def)

lemma count_byte:
  assumes "run_fine 0 r" and "p = run_parser r"
  shows "run_fine 1 (r\<lparr>run_parser := if parsing_header (parser_state p) then p\<lparr>nread := nread p + 1\<rparr> else p\<rparr>)"
  using assms parser_inv_count [of p] by (simp add: run_fine_def split del: if_split) simp

lemma first_marks_owner: "dom (first_marks st) \<subseteq> set_option (owner st)"
  by (cases st) (simp_all add: first_marks_def owner_def url_states_def)

lemma exec_loop_fine:
  assumes "run_fine 0 r" and "run_within (length data) r" and "run_pos r \<le> length data"
    and "length data < 2 ^ 64" and "length data - run_pos r < n"
  shows "flow_fine (length data) (\<lambda>_. False) (exec_loop n S data r)"
  using assms
proof (induction n arbitrary: r)
  case 0
  then show ?case by simp
next
  case (Suc n)
  let ?p = "run_parser r"
  let ?q = "if parsing_header (parser_state ?p) then ?p\<lparr>nread := nread ?p + 1\<rparr> else ?p"
  let ?r = "r\<lparr>run_parser := ?q\<rparr>"
  have fine: "run_fine 1 ?r" by (rule count_byte [OF Suc.prems(1) refl])
  have within: "run_within (length data) ?r" using Suc.prems(2) by (simp add: run_within_def)
  show ?case
  proof (cases "run_pos r = length data")
    case True
    then show ?thesis using last_marks_fine [OF Suc.prems(1,2)] by simp
  next
    case False
    then have pos: "run_pos ?r < length data" using Suc.prems(3) by simp
    have "flow_fine (length data) (\<lambda>r'. run_fine 0 r' \<and> run_pos ?r \<le> run_pos r' \<and> run_pos r' < length data)
        (exec_byte 5 S (length data) (data ! run_pos r) ?r)"
      using fine within pos Suc.prems(4) by (intro exec_byte_fine) (simp_all add: again_rank_def)
    then show ?thesis
    proof (cases rule: flow_fineE)
      case (1 r')
      have "flow_fine (length data) (\<lambda>_. False) (exec_loop n S data (r'\<lparr>run_pos := run_pos r' + 1\<rparr>))"
        using 1 pos Suc.prems(4,5)
        by (intro Suc.IH) (auto simp: run_fine_def run_within_def le_SucI)
      then show ?thesis using 1 pos within by (auto simp: Let_def halted_def run_within_def set_errno_def)
    next
      case (2 r' k)
      then show ?thesis using pos within by (auto simp: Let_def halted_def run_within_def set_errno_def)
    qed
  qed
qed

text \<open>A parser that the code can be in: it has failed, or what holds between two bytes.\<close>

definition parser_ok :: "http_parser \<Rightarrow> bool" where
  "parser_ok p \<longleftrightarrow> http_errno p \<noteq> HPE_OK \<or> parser_inv 0 p"

lemma parser_ok_init [simp]: "parser_ok (http_parser_init t)"
  by (simp add: parser_ok_def parser_inv_def http_parser_init_def)

lemma execute_fine:
  assumes "parser_ok p" and "length data < 2 ^ 64"
  obtains q evs k where "http_parser_execute S p data = Inr (q, evs, k)" and "parser_ok q"
    and "k \<le> max 1 (length data)" and "\<forall>ev \<in> set evs. event_within (length data) ev"
    and "http_errno q = HPE_OK \<Longrightarrow> \<not> upgrade q \<Longrightarrow> k = length data"
proof -
  let ?r = "\<lparr>run_parser = p, run_pos = 0, run_marks = first_marks (parser_state p), run_events = []\<rparr>"
  have within: "run_within n ?r" for n
    by (auto simp: run_within_def first_marks_def split: if_splits)
  consider (failed) "http_errno p \<noteq> HPE_OK" | (eof) "http_errno p = HPE_OK" "data = []"
    | (bytes) "http_errno p = HPE_OK" "data \<noteq> []" by blast
  then show thesis
  proof cases
    case failed
    then show thesis by (intro that [of p "[]" 0]) (auto simp: http_parser_execute_def parser_ok_def)
  next
    case eof
    then have inv: "parser_inv 0 p" using assms(1) by (simp add: parser_ok_def)
    show thesis
    proof (cases "parser_state p = s_body_identity_eof")
      case True
      have "flow_fine 0 (\<lambda>r'. run_parser r' = run_parser ?r \<and> run_pos r' = run_pos ?r \<and> run_marks r' = run_marks ?r)
          (call_back S (On_Message_Complete (req_method p)) HPE_CB_message_complete 0 ?r)"
        using eof within by (intro call_back_fine) simp_all
      then show thesis
      proof (cases rule: flow_fineE)
        case (1 r')
        then show thesis using eof True inv
          by (intro that [of p "run_events r'" 0])
            (auto simp: http_parser_execute_def flow_result_def parser_ok_def run_within_def)
      next
        case (2 r' k)
        then show thesis using eof True
          by (intro that [of "run_parser r'" "run_events r'" k])
            (auto simp: http_parser_execute_def flow_result_def parser_ok_def halted_def)
      qed
    next
      case False
      let ?idle = "parser_state p \<in> {s_dead, s_start_req_or_res, s_start_res, s_start_req}"
      have run: "http_parser_execute S p data =
          Inr (if ?idle then p else p\<lparr>http_errno := HPE_INVALID_EOF_STATE\<rparr>, [], if ?idle then 0 else 1)"
        using eof False by (simp add: http_parser_execute_def)
      show thesis
        by (rule that [OF run]; cases ?idle) (use inv eof in \<open>simp_all add: parser_ok_def\<close>)
    qed
  next
    case bytes
    have "run_fine 0 ?r"
      using assms(1) bytes(1) first_marks_owner by (simp add: run_fine_def parser_ok_def)
    then have "flow_fine (length data) (\<lambda>_. False) (exec_loop (length data + 1) S data ?r)"
      using assms(2) within by (intro exec_loop_fine) simp_all
    then show thesis
    proof (cases rule: flow_fineE)
      case (2 r' k)
      then show thesis using bytes
        by (intro that [of "run_parser r'" "run_events r'" k])
          (auto simp: http_parser_execute_def Let_def flow_result_def parser_ok_def halted_def simp del: exec_loop.simps)
    qed simp
  qed
qed

text \<open>The parsers that calls lead to, from one that was initialised, whatever the texts and the callbacks are.\<close>

inductive parser_reach :: "http_parser_type \<Rightarrow> http_parser \<Rightarrow> bool" for t where
  reach_init: "parser_reach t (http_parser_init t)"
| reach_call:
    "parser_reach t p \<Longrightarrow> length data < 2 ^ 64 \<Longrightarrow> http_parser_execute S p data = Inr (q, evs, k) \<Longrightarrow>
     parser_reach t q"

lemma reach_ok: "parser_reach t p \<Longrightarrow> parser_ok p"
proof (induction rule: parser_reach.induct)
  case reach_init
  show ?case by simp
next
  case (reach_call p data S q evs k)
  show ?case
    by (rule execute_fine [OF reach_call.IH reach_call.hyps(2), of S]) (use reach_call.hyps(3) in simp)
qed

end
