(* ===== verification/Http_Stream.thy ===== *)
theory Http_Stream
  imports Http_Runs
begin

text \<open>
  What the callbacks of the client get to know of a text, and what one turn of the loop does for
  it: the bytes of the body, however they are cut into pieces, and the ends of the messages. A
  byte of the headers settles by itself, and a piece of the body is taken at once.
\<close>

section \<open>Upgrades\<close>

lemmas upgrade_simps = goto_state_def http_error_def Let_def

lemma upgrade_goto [simp]: "upgrade (fst (goto_state st p)) = upgrade p" "upgrade (fst (http_error e p)) = upgrade p"
  "upgrade (fst (strict_goto x ch st p)) = upgrade p" "upgrade (fst (complete_message p)) = upgrade p"
  by (simp_all add: upgrade_simps strict_goto_def complete_message_def)

lemma upgrade_start [simp]:
  "upgrade (fst (step_dead ch p)) = upgrade p" "upgrade (fst (step_start_req_or_res ch p)) = upgrade p"
  "upgrade (fst (step_res_or_resp_H ch p)) = upgrade p" "upgrade (fst (step_start_res ch p)) = upgrade p"
  "upgrade (fst (step_res_first_http_major ch p)) = upgrade p" "upgrade (fst (step_http_major st ch p)) = upgrade p"
  "upgrade (fst (step_first_http_minor st ch p)) = upgrade p" "upgrade (fst (step_res_http_minor ch p)) = upgrade p"
  "upgrade (fst (step_res_first_status_code ch p)) = upgrade p" "upgrade (fst (step_res_status_code ch p)) = upgrade p"
  "upgrade (fst (step_res_status_start ch p)) = upgrade p" "upgrade (fst (step_res_status ch p)) = upgrade p"
  by (simp_all add: Let_def step_dead_def step_start_req_or_res_def step_res_or_resp_H_def step_start_res_def
      step_res_first_http_major_def step_http_major_def major_digit_def step_first_http_minor_def step_res_http_minor_def
      minor_digit_def step_res_first_status_code_def step_res_status_code_def step_res_status_start_def step_res_status_def)

lemma upgrade_request [simp]:
  "upgrade (fst (step_start_req ch p)) = upgrade p" "upgrade (fst (step_req_method ch p)) = upgrade p"
  "upgrade (fst (url_step st ch acts p)) = upgrade p"
  by (simp_all add: Let_def step_start_req_def step_req_method_def url_step_def split: option.split)

lemma upgrade_request_line [simp]:
  "upgrade (fst (step_req_spaces_before_url ch p)) = upgrade p" "upgrade (fst (step_req_schema ch p)) = upgrade p"
  "upgrade (fst (step_req_url ch p)) = upgrade p" "upgrade (fst (step_req_http_start ch p)) = upgrade p"
  "upgrade (fst (step_req_first_http_major ch p)) = upgrade p" "upgrade (fst (step_req_http_minor ch p)) = upgrade p"
  "upgrade (fst (step_req_line_almost_done ch p)) = upgrade p"
  by (simp_all add: step_req_spaces_before_url_def step_req_schema_def step_req_url_def step_req_http_start_def
      step_req_first_http_major_def step_req_http_minor_def minor_digit_def Let_def step_req_line_almost_done_def)

lemma upgrade_match_next [simp]: "upgrade (match_next txt h c p) = upgrade p"
  by (simp add: match_next_def Let_def)

lemma upgrade_field_byte: "field_byte ch c p = Some q \<Longrightarrow> upgrade q = upgrade p"
  by (cases "hstate p") (auto simp: field_byte_def count_goto_def split: if_splits)

lemma upgrade_value_byte [simp]: "upgrade (fst (value_byte ch c p)) = upgrade p"
  by (cases "hstate p") (simp_all add: value_byte_def)

lemma upgrade_header_value_start [simp]: "upgrade (fst (step_header_value_start ch p)) = upgrade p"
  by (cases "hstate p") (simp_all add: step_header_value_start_def Let_def)

lemma upgrade_headers [simp]:
  "upgrade (fst (step_header_field_start ch p)) = upgrade p" "upgrade (fst (step_header_field ch p)) = upgrade p"
  "upgrade (fst (step_header_value ch p)) = upgrade p" "upgrade (fst (step_header_value_lws ch p)) = upgrade p"
  by (simp_all add: step_header_field_start_def step_header_field_def step_header_value_def step_header_value_lws_def
      Let_def upgrade_field_byte split: option.split)

lemma upgrade_header_almost_done [simp]: "upgrade (fst (step_header_almost_done ch p)) = upgrade p"
  by (cases "hstate p") (simp_all add: step_header_almost_done_def)

lemma upgrade_body [simp]:
  "upgrade (fst (step_headers_done ch p)) = upgrade p" "upgrade (fst (step_body_identity avail p)) = upgrade p"
  "upgrade (fst (step_body_identity_eof avail p)) = upgrade p" "upgrade (fst (step_chunk_size_start ch p)) = upgrade p"
  "upgrade (fst (step_chunk_size ch p)) = upgrade p" "upgrade (fst (step_chunk_parameters ch p)) = upgrade p"
  "upgrade (fst (step_chunk_size_almost_done ch p)) = upgrade p" "upgrade (fst (step_chunk_data avail p)) = upgrade p"
  "upgrade (fst (step_chunk_data_almost_done ch p)) = upgrade p" "upgrade (fst (step_chunk_data_done ch p)) = upgrade p"
  by (simp_all add: step_headers_done_def step_body_identity_def step_body_identity_eof_def step_chunk_size_start_def
      step_chunk_size_def step_chunk_parameters_def step_chunk_size_almost_done_def step_chunk_data_def
      step_chunk_data_almost_done_def step_chunk_data_done_def Let_def)

lemma upgrade_kept:
  "parser_state p \<noteq> s_headers_almost_done \<Longrightarrow> upgrade (fst (byte_code avail ch p)) = upgrade p"
  by (cases "parser_state p") (simp_all add: byte_code_def)

text \<open>Only the end of the headers asks for another protocol, and the code goes on from there only if it does not.\<close>

lemma upgrade_headers_done:
  "byte_code avail ch p = (q, acts, ctl) \<Longrightarrow> parser_state p = s_headers_done \<Longrightarrow> goes_on ctl \<Longrightarrow> \<not> upgrade q"
  by (auto simp: byte_code_def step_headers_done_def Let_def goto_state_def http_error_def complete_message_def goes_on_def
      split: if_splits)

lemma upgrade_headers_almost_done:
  "byte_code avail ch p = (q, acts, ctl) \<Longrightarrow> parser_state p = s_headers_almost_done \<Longrightarrow> \<not> upgrade p \<Longrightarrow>
   upgrade q \<Longrightarrow> parser_state q = s_headers_done \<and> ctl = Headers_Complete"
  by (auto simp: byte_code_def step_headers_almost_done_def complete_message_def http_error_def split: if_splits)

section \<open>What the client sees\<close>

datatype http_seen = Body_Byte char | Message_Done http_method

text \<open>The callbacks without the way in which the body is cut into pieces.\<close>

fun event_seen :: "string \<Rightarrow> http_event \<Rightarrow> http_seen list" where
  "event_seen data (On_Body i n) = map Body_Byte (take n (drop i data))"
| "event_seen data (On_Message_Complete m) = [Message_Done m]"
| "event_seen data _ = []"

definition client_view :: "string \<Rightarrow> http_event list \<Rightarrow> http_seen list" where
  "client_view data evs = concat (map (event_seen data) evs)"

text \<open>
  The reference: the bytes of a text are given to the parser one at a time. \<open>None\<close> when it fails
  or when the peer is to change the protocol.
\<close>

fun feed :: "http_parser \<Rightarrow> string \<Rightarrow> (http_parser \<times> http_seen list) option" where
  "feed p [] = Some (p, [])"
| "feed p (c # cs) =
     (case http_parser_execute client_settings p [c] of
        Inl f \<Rightarrow> None
      | Inr (q, evs, k) \<Rightarrow>
          if http_errno q \<noteq> HPE_OK \<or> upgrade q then None
          else case feed q cs of
                 None \<Rightarrow> None
               | Some (q', seen) \<Rightarrow> Some (q', client_view [c] evs @ seen))"

lemma feed_append:
  "feed p (a @ b) =
     (case feed p a of None \<Rightarrow> None
      | Some (q, seen) \<Rightarrow>
          (case feed q b of None \<Rightarrow> None | Some (q', seen') \<Rightarrow> Some (q', seen @ seen')))"
  by (induction a arbitrary: p) (auto split: option.splits sum.splits)

lemma client_view_simps [simp]:
  "client_view data [] = []" "client_view data (ev # evs) = event_seen data ev @ client_view data evs"
  "client_view data (evs @ evs') = client_view data evs @ client_view data evs'"
  by (simp_all add: client_view_def)

section \<open>One byte\<close>

text \<open>The callbacks of the client for some actions, when no part of the body is marked.\<close>

fun notices :: "http_action list \<Rightarrow> http_event list" where
  "notices [] = []"
| "notices (Notify ev # acts) = (if client_settings ev = None then [] else [ev]) @ notices acts"
| "notices (_ # acts) = notices acts"

text \<open>The code of a byte without the places in the text.\<close>

fun settle :: "nat \<Rightarrow> char \<Rightarrow> http_parser \<Rightarrow> http_parser \<times> http_event list \<times> bool" where
  "settle 0 ch p = (p, [], False)"
| "settle (Suc n) ch p =
     (let (q, acts, ctl) = byte_code 1 ch p
      in case ctl of
           Break_Byte \<Rightarrow> (q, notices acts, True)
         | Return_After \<Rightarrow> (q, notices acts, False)
         | Error err \<Rightarrow> (q\<lparr>http_errno := err\<rparr>, notices acts, False)
         | Fault f \<Rightarrow> (q, notices acts, False)
         | _ \<Rightarrow> (let (q', evs, b) = settle n ch q in (q', notices acts @ evs, b)))"

lemma client_settings_zero: "client_settings ev = Some v \<Longrightarrow> v = 0"
  by (cases ev) auto

lemma client_settings_data: "client_settings (data_event m i n) = (if m = Body_Mark then Some 0 else None)"
  by (cases m) simp_all

lemma call_back_quiet:
  "http_errno (run_parser r) = HPE_OK \<Longrightarrow>
   call_back client_settings ev err er r =
     Inr (Go (if client_settings ev = None then r else r\<lparr>run_events := run_events r @ [ev]\<rparr>))"
  by (cases "client_settings ev") (auto simp: call_back_def Let_def dest: client_settings_zero)

text \<open>Actions that neither mark the body nor move.\<close>

definition plain :: "http_action list \<Rightarrow> bool" where
  "plain acts \<longleftrightarrow> Mark Body_Mark \<notin> set acts \<and> (\<forall>m. Data_Last m \<notin> set acts) \<and> skipped acts = 0"

lemma call_data_quiet:
  assumes "http_errno (run_parser r) = HPE_OK" and "run_marks r Body_Mark = None"
  shows "\<exists>M. call_data client_settings m till er r = Inr (Go (r\<lparr>run_marks := M\<rparr>)) \<and> M Body_Mark = None"
proof (cases "run_marks r m")
  case None
  then show ?thesis using assms by (intro exI [of _ "run_marks r"]) (simp add: call_data_def)
next
  case (Some i)
  then have "m \<noteq> Body_Mark" using assms(2) by auto
  then show ?thesis
    using assms Some
    by (intro exI [of _ "(run_marks r)(m := None)"]) (simp add: call_data_def call_back_quiet client_settings_data)
qed

lemma do_action_quiet:
  assumes "http_errno (run_parser r) = HPE_OK" and "run_marks r Body_Mark = None" and "plain [a]"
  shows "\<exists>M. do_action client_settings a r = Inr (Go (r\<lparr>run_marks := M, run_events := run_events r @ notices [a]\<rparr>)) \<and>
    M Body_Mark = None"
proof (cases a)
  case (Mark m)
  then show ?thesis using assms by (intro exI [of _ "(run_marks r)(m := Some (case run_marks r m of None \<Rightarrow> run_pos r | Some i \<Rightarrow> i))"])
    (auto simp: plain_def fun_upd_idem)
next
  case (Skip n)
  then show ?thesis using assms by (intro exI [of _ "run_marks r"]) (simp add: plain_def)
next
  case (Notify ev)
  then show ?thesis using assms by (intro exI [of _ "run_marks r"]) (simp add: call_back_quiet)
next
  case (Data m)
  then show ?thesis using call_data_quiet [OF assms(1,2)] by simp
next
  case (Data_Noadvance m)
  then show ?thesis using call_data_quiet [OF assms(1,2)] by simp
next
  case (Data_Last m)
  then show ?thesis using assms by (auto simp: plain_def)
qed

lemma notices_Cons: "notices (a # acts) = notices [a] @ notices acts"
  by (cases a) simp_all

lemma plain_Cons: "plain (a # acts) \<longleftrightarrow> plain [a] \<and> plain acts"
  using skipped_Cons [of a acts] by (auto simp: plain_def)

lemma do_actions_quiet:
  assumes "http_errno (run_parser r) = HPE_OK" and "run_marks r Body_Mark = None" and "plain acts"
  shows "\<exists>M. do_actions client_settings acts r =
    Inr (Go (r\<lparr>run_marks := M, run_events := run_events r @ notices acts\<rparr>)) \<and> M Body_Mark = None"
  using assms
proof (induction acts arbitrary: r)
  case Nil
  then show ?case by (intro exI [of _ "run_marks r"]) simp
next
  case (Cons a acts)
  obtain M where M: "do_action client_settings a r =
      Inr (Go (r\<lparr>run_marks := M, run_events := run_events r @ notices [a]\<rparr>))" "M Body_Mark = None"
    using do_action_quiet [OF Cons.prems(1,2), of a] Cons.prems(3) plain_Cons [of a acts] by blast
  then show ?case
    using Cons.IH [of "r\<lparr>run_marks := M, run_events := run_events r @ notices [a]\<rparr>"] Cons.prems plain_Cons [of a acts]
      notices_Cons [of a acts] by auto
qed

definition jumps :: "http_state \<Rightarrow> bool" where
  "jumps s \<longleftrightarrow> again_rank s = 4"

lemma byte_code_avail: "\<not> jumps (parser_state p) \<Longrightarrow> byte_code avail ch p = byte_code 1 ch p"
  by (cases "parser_state p") (simp_all add: byte_code_def jumps_def again_rank_def)

lemma exec_byte_settle:
  assumes "parser_inv 1 (run_parser r)" and "run_marks r Body_Mark = None" and "run_pos r < len"
    and "again_rank (parser_state (run_parser r)) < n" and "again_rank (parser_state (run_parser r)) < 4"
    and "settle n ch (run_parser r) = (q, evs, b)"
  shows "\<exists>M k. M Body_Mark = None \<and>
    exec_byte n client_settings len ch r =
      Inr (let r' = r\<lparr>run_parser := q, run_marks := M, run_events := run_events r @ evs\<rparr>
           in if b then Go r' else Halt r' k)"
  using assms
proof (induction n arbitrary: r evs)
  case 0
  then show ?case by simp
next
  case (Suc n)
  let ?p = "run_parser r"
  obtain p acts ctl where code: "byte_code 1 ch ?p = (p, acts, ctl)" by (metis prod_cases3)
  have code': "byte_code (len - run_pos r) ch ?p = (p, acts, ctl)"
    using byte_code_avail [of ?p "len - run_pos r" ch] Suc.prems(5) code by (simp add: jumps_def)
  have "step_fine 1 ?p (byte_code 1 ch ?p)" using Suc.prems(1) by (intro byte_code_fine) simp_all
  then have step: "step_fine 1 ?p (p, acts, ctl)" by (simp only: code)
  then have "plain acts" using Suc.prems(5) by (simp add: step_fine_def plain_def)
  then obtain M where acts: "do_actions client_settings acts (r\<lparr>run_parser := p\<rparr>) =
      Inr (Go (r\<lparr>run_parser := p, run_marks := M, run_events := run_events r @ notices acts\<rparr>))" "M Body_Mark = None"
    using do_actions_quiet [of "r\<lparr>run_parser := p\<rparr>" acts] step Suc.prems(2) by (auto simp: step_fine_def)
  note code1 = code [unfolded One_nat_def]
  let ?r = "r\<lparr>run_parser := p, run_marks := M, run_events := run_events r @ notices acts\<rparr>"
  have again: ?case if rep: "again ctl"
  proof -
    obtain evs' where evs: "settle n ch p = (q, evs', b)" "evs = notices acts @ evs'"
      using Suc.prems(6) rep by (cases "settle n ch p") (auto simp: code1 again_def)
    have "parser_inv 1 p" "again_rank (parser_state p) < n" "again_rank (parser_state p) < 4"
      using rep step Suc.prems(4,5) by (auto simp: step_fine_def goes_on_def again_def)
    then have "\<exists>N k. N Body_Mark = None \<and> exec_byte n client_settings len ch ?r =
      Inr (let r' = ?r\<lparr>run_parser := q, run_marks := N, run_events := run_events ?r @ evs'\<rparr>
           in if b then Go r' else Halt r' k)"
      using Suc.prems(3) acts(2) evs(1) by (intro Suc.IH) simp_all
    then show ?case
      using rep acts(1) by (auto simp: code' again_def headers_complete_def evs(2) Let_def)
  qed
  show ?case
  proof (cases ctl)
    case Break_Byte
    then show ?thesis using acts Suc.prems(6) by (intro exI [of _ M]) (auto simp: code1 code')
  next
    case Reexecute_Byte
    then show ?thesis by (intro again) (simp add: again_def)
  next
    case Return_After
    then show ?thesis using acts Suc.prems(6) by (intro exI [of _ M]) (auto simp: code1 code')
  next
    case (Error err)
    then show ?thesis using acts Suc.prems(6) by (intro exI [of _ M]) (auto simp: code1 code' set_errno_def)
  next
    case Headers_Complete
    then show ?thesis by (intro again) (simp add: again_def)
  next
    case (Fault f)
    then show ?thesis using step by (simp add: step_fine_def)
  qed
qed

text \<open>What one byte settles, with the count of the bytes of the headers.\<close>

definition counted :: "http_parser \<Rightarrow> http_parser" where
  "counted p = (if parsing_header (parser_state p) then p\<lparr>nread := nread p + 1\<rparr> else p)"

definition too_long :: "http_parser \<Rightarrow> bool" where
  "too_long p \<longleftrightarrow> parsing_header (parser_state p) \<and> HTTP_MAX_HEADER_SIZE < nread (counted p)"

definition byte_outcome :: "char \<Rightarrow> http_parser \<Rightarrow> http_parser \<times> http_event list \<times> bool" where
  "byte_outcome c p =
     (if too_long p then ((counted p)\<lparr>http_errno := HPE_HEADER_OVERFLOW\<rparr>, [], False)
      else settle 5 c (counted p))"

lemma counted_fields [simp]:
  "parser_state (counted p) = parser_state p" "upgrade (counted p) = upgrade p"
  "content_length (counted p) = content_length p" "http_errno (counted p) = http_errno p"
  by (simp_all add: counted_def)

lemma parser_inv_counted: "parser_inv 0 p \<Longrightarrow> parser_inv 1 (counted p)"
  using parser_inv_count [of p] by (simp add: counted_def)

lemma settle_fine:
  assumes "parser_inv 1 p" and "again_rank (parser_state p) < n" and "settle n ch p = (q, evs, b)"
  shows "\<forall>ev \<in> set evs. event_within 0 ev"
    and "b \<Longrightarrow> parser_inv 0 q"
    and "b \<Longrightarrow> \<not> upgrade p \<or> parser_state p = s_headers_done \<Longrightarrow> \<not> upgrade q"
    and "\<not> b \<Longrightarrow> http_errno q \<noteq> HPE_OK \<or> upgrade q"
proof -
  have "(\<forall>ev \<in> set evs. event_within 0 ev) \<and> (b \<longrightarrow> parser_inv 0 q) \<and>
      (b \<longrightarrow> \<not> upgrade p \<or> parser_state p = s_headers_done \<longrightarrow> \<not> upgrade q) \<and>
      (\<not> b \<longrightarrow> http_errno q \<noteq> HPE_OK \<or> upgrade q)"
    using assms
  proof (induction n arbitrary: p evs)
    case 0
    then show ?case by simp
  next
    case (Suc n)
    obtain p' acts ctl where code: "byte_code 1 ch p = (p', acts, ctl)" by (metis prod_cases3)
    note code1 = code [unfolded One_nat_def]
    have "step_fine 1 p (byte_code 1 ch p)" using Suc.prems(1) by (intro byte_code_fine) simp_all
    then have step: "step_fine 1 p (p', acts, ctl)" by (simp only: code)
    have evs: "\<forall>ev \<in> set (notices acts). event_within 0 ev"
    proof -
      have "set (notices acts) \<subseteq> {ev. Notify ev \<in> set acts}" by (induction acts rule: notices.induct) auto
      then show ?thesis using step by (auto simp: step_fine_def)
    qed
    have up: "\<not> upgrade p'" if "\<not> upgrade p \<or> parser_state p = s_headers_done" "ctl = Break_Byte"
      using that upgrade_kept [of p 1 ch] upgrade_headers_done [OF code] upgrade_headers_almost_done [OF code]
      by (cases "parser_state p = s_headers_almost_done") (auto simp: code1 goes_on_def)
    have up_again: "\<not> upgrade p' \<or> parser_state p' = s_headers_done"
      if "\<not> upgrade p \<or> parser_state p = s_headers_done" "again ctl"
      using that upgrade_kept [of p 1 ch] upgrade_headers_done [OF code] upgrade_headers_almost_done [OF code]
      by (cases "parser_state p = s_headers_almost_done") (auto simp: code1 goes_on_def again_def)
    have again: ?case if rep: "again ctl"
    proof -
      obtain evs' where evs': "settle n ch p' = (q, evs', b)" "evs = notices acts @ evs'"
        using Suc.prems(3) rep by (cases "settle n ch p'") (auto simp: code1 again_def)
      have "parser_inv 1 p'" "again_rank (parser_state p') < n"
        using rep step Suc.prems(2) by (auto simp: step_fine_def goes_on_def again_def)
      from Suc.IH [OF this evs'(1)] show ?case using evs evs'(2) up_again rep by auto
    qed
    show ?case
    proof (cases ctl)
      case Reexecute_Byte
      then show ?thesis by (intro again) (simp add: again_def)
    next
      case Headers_Complete
      then show ?thesis by (intro again) (simp add: again_def)
    next
      case (Fault f)
      then show ?thesis using step by (simp add: step_fine_def)
    qed (use Suc.prems(3) step evs up in \<open>auto simp: code1 step_fine_def goes_on_def again_def\<close>)
  qed
  then show "\<forall>ev \<in> set evs. event_within 0 ev" "b \<Longrightarrow> parser_inv 0 q"
    "b \<Longrightarrow> \<not> upgrade p \<or> parser_state p = s_headers_done \<Longrightarrow> \<not> upgrade q"
    "\<not> b \<Longrightarrow> http_errno q \<noteq> HPE_OK \<or> upgrade q" by blast+
qed

lemma event_seen_short: "event_within 0 ev \<Longrightarrow> event_seen data ev = event_seen data' ev"
  by (cases ev) auto

lemma client_view_short: "\<forall>ev \<in> set evs. event_within 0 ev \<Longrightarrow> client_view data evs = client_view data' evs"
  by (auto simp: client_view_def intro!: arg_cong [where f = concat] event_seen_short)

section \<open>Pieces of the body\<close>

text \<open>The part of the body between its mark and the byte, which no callback has got yet.\<close>

definition pending :: "string \<Rightarrow> http_run \<Rightarrow> http_seen list" where
  "pending data r =
     (case run_marks r Body_Mark of
        None \<Rightarrow> []
      | Some i \<Rightarrow> event_seen data (On_Body i (run_pos r - i)))"

definition run_view :: "string \<Rightarrow> http_run \<Rightarrow> http_seen list" where
  "run_view data r = client_view data (run_events r) @ pending data r"

text \<open>A number of bytes of the body.\<close>

definition take_body :: "nat \<Rightarrow> http_parser \<Rightarrow> http_parser \<times> http_event list" where
  "take_body m p =
     (if parser_state p = s_body_identity_eof then (p, [])
      else
        let q = p\<lparr>content_length := content_length p - of_nat m\<rparr>
        in if content_length q \<noteq> 0 then (q, [])
           else if parser_state p = s_chunk_data
           then (q\<lparr>parser_state := s_chunk_data_almost_done\<rparr>, [])
           else (q\<lparr>parser_state := new_message (q\<lparr>parser_state := s_message_done\<rparr>)\<rparr>, [On_Message_Complete (req_method p)]))"

definition body_room :: "nat \<Rightarrow> http_parser \<Rightarrow> nat" where
  "body_room avail p = (if parser_state p = s_body_identity_eof then avail else unat (to_read avail p))"

lemma jumps_iff: "jumps s \<longleftrightarrow> s \<in> {s_body_identity, s_body_identity_eof, s_chunk_data}"
  by (simp add: jumps_def again_rank_def)

lemma take_drop_split:
  "i \<le> p \<Longrightarrow> take (p + m - i) (drop i data) = take (p - i) (drop i data) @ take m (drop p data)"
  using take_add [of "p - i" m "drop i data"] by (simp add: add.commute)

definition body_start :: "http_run \<Rightarrow> nat" where
  "body_start r = (case run_marks r Body_Mark of None \<Rightarrow> run_pos r | Some i \<Rightarrow> i)"

lemma body_start_parser [simp]: "body_start (r\<lparr>run_parser := p\<rparr>) = body_start r"
  by (simp add: body_start_def split: option.split)

lemma body_start_le: "run_within len r \<Longrightarrow> body_start r \<le> run_pos r"
  by (auto simp: run_within_def body_start_def split: option.splits)

lemma run_view_start:
  "run_view data r =
     client_view data (run_events r) @ map Body_Byte (take (run_pos r - body_start r) (drop (body_start r) data))"
  by (auto simp: run_view_def pending_def body_start_def split: option.splits)

lemma do_mark_skip:
  "do_actions S [Mark Body_Mark, Skip k] r =
     Inr (Go (r\<lparr>run_marks := (run_marks r)(Body_Mark := Some (body_start r)), run_pos := run_pos r + k\<rparr>))"
  by (cases "run_marks r Body_Mark") (auto simp: body_start_def fun_upd_idem)

lemma exec_byte_numeral:
  "exec_byte (numeral k) S len ch r =
     (let (p, acts, ctl) = byte_code (len - run_pos r) ch (run_parser r)
      in and_then (do_actions S acts (r\<lparr>run_parser := p\<rparr>)) (\<lambda>f.
           case f of
             Halt r k \<Rightarrow> Inr (Halt r k)
           | Go r \<Rightarrow>
               case ctl of
                 Break_Byte \<Rightarrow> Inr (Go r)
               | Reexecute_Byte \<Rightarrow> exec_byte (pred_numeral k) S len ch r
               | Return_After \<Rightarrow> Inr (Halt r (run_pos r + 1))
               | Error err \<Rightarrow> Inr (Halt (set_errno err r) (run_pos r))
               | Headers_Complete \<Rightarrow>
                   (case headers_complete S r of
                      Go r \<Rightarrow> exec_byte (pred_numeral k) S len ch r
                    | Halt r k \<Rightarrow> Inr (Halt r k))
               | Fault f \<Rightarrow> Inl f))"
  by (simp add: numeral_eq_Suc)

text \<open>The piece that the code takes: it goes on to the last byte of it, with the mark kept.\<close>

definition body_taken :: "nat \<Rightarrow> http_parser \<Rightarrow> http_run \<Rightarrow> http_run" where
  "body_taken m q r =
     r\<lparr>run_parser := q, run_marks := (run_marks r)(Body_Mark := Some (body_start r)), run_pos := run_pos r + (m - 1)\<rparr>"

lemma body_taken_view:
  assumes "0 < m" and "run_within len r"
  shows "run_view data ((body_taken m q r)\<lparr>run_pos := run_pos r + m\<rparr>) =
    run_view data r @ map Body_Byte (take m (drop (run_pos r) data))"
  using take_drop_split [OF body_start_le [OF assms(2)], of m data]
  by (simp add: run_view_start [of data r]) (simp add: run_view_def pending_def body_taken_def)

lemma exec_body_eof:
  "parser_state (run_parser r) = s_body_identity_eof \<Longrightarrow>
   exec_byte 5 S len ch r = Inr (Go (body_taken (len - run_pos r) (run_parser r) r))"
  by (simp add: exec_byte_numeral byte_code_def step_body_identity_eof_def do_mark_skip body_taken_def
      del: do_actions.simps)

lemma to_read_nonzero: "content_length p \<noteq> 0 \<Longrightarrow> 0 < avail \<Longrightarrow> avail < 2 ^ 64 \<Longrightarrow> to_read avail p \<noteq> 0"
  using to_read_range(1) [of p avail] by auto

lemma exec_chunk_data:
  assumes "parser_inv 1 (run_parser r)" and "parser_state (run_parser r) = s_chunk_data" and "0 < m"
    and "m = unat (to_read (len - run_pos r) (run_parser r))" and "take_body m (run_parser r) = (q, evs)"
  shows "exec_byte 5 S len ch r = Inr (Go (body_taken m q r))" and "evs = []"
proof -
  have n: "of_nat m = to_read (len - run_pos r) (run_parser r)" by (simp add: assms(4))
  have "has_flag (run_parser r) F_CHUNKED" "content_length (run_parser r) \<noteq> 0" "content_length (run_parser r) \<noteq> - 1"
    using assms(1,2) by (simp_all add: parser_inv_def)
  moreover have "q = (let q = (run_parser r)\<lparr>content_length := content_length (run_parser r) - of_nat m\<rparr>
      in if content_length q = 0 then q\<lparr>parser_state := s_chunk_data_almost_done\<rparr> else q)" "evs = []"
    using assms(2,5) by (auto simp: take_body_def Let_def split: if_splits)
  ultimately show "exec_byte 5 S len ch r = Inr (Go (body_taken m q r))" "evs = []"
    using assms(2) n assms(4)
    by (simp_all add: exec_byte_numeral byte_code_def step_chunk_data_def do_mark_skip body_taken_def Let_def
        del: do_actions.simps)
qed

lemma exec_body_piece:
  assumes "parser_inv 1 (run_parser r)" and "parser_state (run_parser r) = s_body_identity"
    and "m = unat (to_read (len - run_pos r) (run_parser r))" and "of_nat m \<noteq> content_length (run_parser r)"
    and "take_body m (run_parser r) = (q, evs)"
  shows "exec_byte 5 S len ch r = Inr (Go (body_taken m q r))" and "evs = []"
proof -
  have n: "of_nat m = to_read (len - run_pos r) (run_parser r)" by (simp add: assms(3))
  have "content_length (run_parser r) \<noteq> 0" "content_length (run_parser r) \<noteq> - 1"
    using assms(1,2) by (simp_all add: parser_inv_def)
  moreover have "q = (run_parser r)\<lparr>content_length := content_length (run_parser r) - of_nat m\<rparr>" "evs = []"
    using assms(2,4,5) by (auto simp: take_body_def Let_def split: if_splits)
  ultimately show "exec_byte 5 S len ch r = Inr (Go (body_taken m q r))" "evs = []"
    using assms(2-4) n
    by (simp_all add: exec_byte_numeral byte_code_def step_body_identity_def do_mark_skip body_taken_def Let_def
        del: do_actions.simps)
qed

text \<open>The last piece: the callbacks for it and for the end of the message.\<close>

lemma exec_body_end:
  assumes "parser_inv 1 (run_parser r)" and "parser_state (run_parser r) = s_body_identity" and "run_within len r"
    and "m = unat (to_read (len - run_pos r) (run_parser r))" and "of_nat m = content_length (run_parser r)" and "0 < m"
    and "take_body m (run_parser r) = (q, evs)"
  shows "exec_byte 5 client_settings len ch r =
      Inr (Go (r\<lparr>run_parser := q, run_marks := (run_marks r)(Body_Mark := None), run_pos := run_pos r + (m - 1),
        run_events := run_events r @ [On_Body (body_start r) (run_pos r + m - body_start r)] @ evs\<rparr>))"
    and "evs = [On_Message_Complete (req_method (run_parser r))]"
proof -
  have n: "of_nat m = to_read (len - run_pos r) (run_parser r)" by (simp add: assms(4))
  have ok: "http_errno (run_parser r) = HPE_OK" using assms(1) by simp
  have cl: "content_length (run_parser r) \<noteq> 0" "content_length (run_parser r) \<noteq> - 1"
    using assms(1,2) by (simp_all add: parser_inv_def)
  let ?p = "(run_parser r)\<lparr>content_length := 0, parser_state := s_message_done\<rparr>"
  have q: "q = (run_parser r)\<lparr>content_length := 0, parser_state := new_message ?p\<rparr>"
    "evs = [On_Message_Complete (req_method (run_parser r))]"
    using assms(2,5,7) by (auto simp: take_body_def Let_def split: if_splits)
  have pos: "Suc (run_pos r + (m - Suc 0)) = run_pos r + m" using assms(6) by simp
  have "exec_byte 5 client_settings len ch r =
      and_then (do_actions client_settings [Mark Body_Mark, Skip (m - 1), Data_Last Body_Mark] (r\<lparr>run_parser := ?p\<rparr>)) (\<lambda>f.
        case f of Go r \<Rightarrow> exec_byte 4 client_settings len ch r | Halt r k \<Rightarrow> Inr (Halt r k))"
    using assms(2) cl n assms(4,5)
    by (simp add: exec_byte_numeral [of "num.Bit1 (num.Bit0 num.One)"] byte_code_def step_body_identity_def Let_def
        del: do_actions.simps exec_byte.simps)
  also have "do_actions client_settings [Mark Body_Mark, Skip (m - 1), Data_Last Body_Mark] (r\<lparr>run_parser := ?p\<rparr>) =
      Inr (Go (r\<lparr>run_parser := ?p, run_marks := (run_marks r)(Body_Mark := None), run_pos := run_pos r + (m - 1),
        run_events := run_events r @ [On_Body (body_start r) (run_pos r + m - body_start r)]\<rparr>))"
    using ok pos by (cases "run_marks r Body_Mark")
      (auto simp: body_start_def call_data_def call_back_def Let_def fun_upd_idem)
  finally show "exec_byte 5 client_settings len ch r =
      Inr (Go (r\<lparr>run_parser := q, run_marks := (run_marks r)(Body_Mark := None), run_pos := run_pos r + (m - 1),
        run_events := run_events r @ [On_Body (body_start r) (run_pos r + m - body_start r)] @ evs\<rparr>))"
    using ok by (simp add: exec_byte_numeral byte_code_def complete_message_def call_back_def q Let_def)
  show "evs = [On_Message_Complete (req_method (run_parser r))]" by (rule q)
qed

lemma exec_jump:
  assumes "parser_inv 1 (run_parser r)" and "jumps (parser_state (run_parser r))" and "run_within len r"
    and "run_pos r < len" and "len < 2 ^ 64" and "m = body_room (len - run_pos r) (run_parser r)"
    and "take_body m (run_parser r) = (q, evs)"
  shows "\<exists>r'. exec_byte 5 client_settings len ch r = Inr (Go r') \<and> run_parser r' = q \<and>
     run_pos r' + 1 = run_pos r + m \<and>
     run_view data (r'\<lparr>run_pos := run_pos r + m\<rparr>) =
       run_view data r @ map Body_Byte (take m (drop (run_pos r) data)) @ client_view data evs"
proof -
  let ?p = "run_parser r"
  have cl: "content_length ?p \<noteq> 0" if "parser_state ?p \<noteq> s_body_identity_eof"
    using assms(1,2) that by (auto simp: jumps_iff parser_inv_def)
  then have m: "0 < m"
    using assms(4,5,6) to_read_range(1) [of ?p "len - run_pos r"] by (cases "parser_state ?p = s_body_identity_eof") (simp_all add: body_room_def)
  have goes: ?thesis if "exec_byte 5 client_settings len ch r = Inr (Go (body_taken m q r))" "evs = []"
    using that m body_taken_view [OF m assms(3), of data q]
    by (intro exI [of _ "body_taken m q r"]) (simp add: body_taken_def)
  consider (eof) "parser_state ?p = s_body_identity_eof" | (chunk) "parser_state ?p = s_chunk_data"
    | (piece) "parser_state ?p = s_body_identity" "of_nat m \<noteq> content_length ?p"
    | (last) "parser_state ?p = s_body_identity" "of_nat m = content_length ?p"
    using assms(2) by (auto simp: jumps_iff)
  then show ?thesis
  proof cases
    case eof
    then show ?thesis
      using assms(6,7) by (intro goes) (auto simp: exec_body_eof body_room_def take_body_def)
  next
    case chunk
    then have "m = unat (to_read (len - run_pos r) ?p)" using assms(6) by (simp add: body_room_def)
    from exec_chunk_data [OF assms(1) chunk m this assms(7)] show ?thesis by (intro goes) auto
  next
    case piece
    then have "m = unat (to_read (len - run_pos r) ?p)" using assms(6) by (simp add: body_room_def)
    from exec_body_piece [OF assms(1) piece(1) this piece(2) assms(7)] show ?thesis by (intro goes) auto
  next
    case last
    then have "m = unat (to_read (len - run_pos r) ?p)" using assms(6) by (simp add: body_room_def)
    note ends = exec_body_end [OF assms(1) last(1) assms(3) this last(2) m assms(7)]
    have "map Body_Byte (take (run_pos r + m - body_start r) (drop (body_start r) data)) =
        map Body_Byte (take (run_pos r - body_start r) (drop (body_start r) data)) @
        map Body_Byte (take m (drop (run_pos r) data))"
      by (simp add: take_drop_split [OF body_start_le [OF assms(3)]])
    then show ?thesis
      using ends m
      by (intro exI [of _ "r\<lparr>run_parser := q, run_marks := (run_marks r)(Body_Mark := None), run_pos := run_pos r + (m - 1),
        run_events := run_events r @ [On_Body (body_start r) (run_pos r + m - body_start r)] @ evs\<rparr>"])
        (simp add: run_view_start [of data r], simp add: run_view_def pending_def)
  qed
qed

text \<open>The end of the text: the rest of the body is handed over.\<close>

lemma last_marks_view:
  assumes "run_fine 0 r" and "run_within (length data) r" and "run_pos r = length data"
  shows "\<exists>r'. last_marks client_settings (length data) r = Inr (Halt r' (length data)) \<and> run_parser r' = run_parser r \<and>
    client_view data (run_events r') = run_view data r"
proof -
  let ?marks = "[Header_Field_Mark, Header_Value_Mark, Url_Mark, Body_Mark, Status_Mark]"
  have ok: "http_errno (run_parser r) = HPE_OK" using assms(1) by (auto simp: run_fine_def intro: parser_inv_errno)
  have "\<not> 1 < length (filter (\<lambda>m. run_marks r m \<noteq> None) ?marks)"
    using assms(1) by (intro marks_of_owner [where ow = "owner (parser_state (run_parser r))"])
      (simp_all add: run_fine_def)
  then have leave: "last_marks client_settings (length data) r =
      and_then (do_actions client_settings (map Data_Noadvance ?marks) r)
        (\<lambda>f. case f of Go r \<Rightarrow> Inr (Halt r (length data)) | Halt r k \<Rightarrow> Inr (Halt r k))"
    unfolding last_marks_def by (simp only: if_False list.map)
  show ?thesis
  proof (cases "run_marks r Body_Mark")
    case None
    have "plain (map Data_Noadvance ?marks)" by (simp add: plain_def)
    from do_actions_quiet [OF ok None this] show ?thesis
      using None by (auto simp: leave run_view_def pending_def simp del: do_actions.simps)
  next
    case (Some i)
    have others: "run_marks r m = None" if "m \<noteq> Body_Mark" for m
    proof (rule ccontr)
      assume "run_marks r m \<noteq> None"
      then have "{m, Body_Mark} \<subseteq> set_option (owner (parser_state (run_parser r)))"
        using assms(1) Some unfolding run_fine_def by blast
      then show False using that by auto
    qed
    then show ?thesis
      using Some ok assms(3)
      by (simp add: leave call_data_def call_back_quiet run_view_def pending_def)
  qed
qed

text \<open>One byte whose code does not take a piece of the body.\<close>

lemma run_fine_counted:
  "run_fine 0 r \<Longrightarrow> run_fine 1 (r\<lparr>run_parser := counted (run_parser r)\<rparr>)"
  by (simp add: run_fine_def parser_inv_counted)

lemma exec_step:
  assumes "run_fine 0 r" and "\<not> jumps (parser_state (run_parser r))" and "run_within len r" and "run_pos r < len"
    and "settle 5 ch (counted (run_parser r)) = (q, evs, b)"
  shows "\<exists>f. exec_byte 5 client_settings len ch (r\<lparr>run_parser := counted (run_parser r)\<rparr>) = Inr f \<and>
    (case f of
       Go r' \<Rightarrow> b \<and> run_parser r' = q \<and> run_pos r' = run_pos r \<and>
         run_view data (r'\<lparr>run_pos := run_pos r + 1\<rparr>) = run_view data r @ client_view data evs
     | Halt r' k \<Rightarrow> \<not> b \<and> run_parser r' = q)"
proof -
  let ?p = "counted (run_parser r)"
  let ?r = "r\<lparr>run_parser := ?p\<rparr>"
  have inv: "parser_inv 1 ?p" using assms(1) by (simp add: run_fine_def parser_inv_counted)
  have rank: "again_rank (parser_state ?p) < 4" "again_rank (parser_state ?p) < 5"
    using assms(2) by (auto simp: jumps_def again_rank_def)
  show ?thesis
  proof (cases "run_marks r Body_Mark")
    case None
    then show ?thesis
      using exec_byte_settle [of ?r len 5 ch q evs b] inv rank assms(4,5)
      by (cases b) (auto simp: run_view_def pending_def)
  next
    case (Some i)
    then have "owner (parser_state (run_parser r)) = Some Body_Mark"
      using assms(1) by (cases "owner (parser_state (run_parser r))") (auto simp: run_fine_def)
    then have st: "parser_state (run_parser r) = s_chunk_data_almost_done"
      using assms(2) by (auto simp: owner_def jumps_iff split: if_splits)
    have p: "?p = run_parser r" by (simp add: counted_def st parsing_header_def)
    have "has_flag (run_parser r) F_CHUNKED" "content_length (run_parser r) = 0" "http_errno (run_parser r) = HPE_OK"
      using inv st by (simp_all add: p parser_inv_def)
    moreover have "settle 5 ch (run_parser r) = (q, evs, b)" using assms(5) by (simp only: p)
    ultimately show ?thesis
      using Some st
      by (auto simp: p exec_byte_numeral numeral_eq_Suc byte_code_def step_chunk_data_almost_done_def http_error_def
          call_data_def call_back_quiet set_errno_def run_view_def pending_def split: if_splits)
  qed
qed

end
