(* ===== verification/Http_Feed.thy ===== *)
theory Http_Feed
  imports Http_Stream
begin

text \<open>
  The parser on a text is the parser on the bytes of the text, one by one: the loop over turns
  that take whole pieces of the body, against the reference \<open>feed\<close>. So a text can be cut
  into pieces at any place.
\<close>

section \<open>One turn of the loop\<close>

text \<open>What a turn takes from the text and makes of the parser; \<open>None\<close> when the loop is left.\<close>

definition turn_size :: "nat \<Rightarrow> http_parser \<Rightarrow> nat" where
  "turn_size avail p = (if jumps (parser_state p) then body_room avail p else 1)"

definition turn_outcome :: "string \<Rightarrow> http_parser \<Rightarrow> (http_parser \<times> http_seen list) option" where
  "turn_outcome piece p =
     (if jumps (parser_state p) then
        (let (q, evs) = take_body (length piece) p in Some (q, map Body_Byte piece @ client_view [] evs))
      else if too_long p then None
      else
        (let (q, evs, b) = settle 5 (hd piece) (counted p) in if b then Some (q, client_view [] evs) else None))"

lemma exec_loop_turn:
  "run_pos r < length data \<Longrightarrow>
   exec_loop (Suc n) S data r =
     (if too_long (run_parser r)
      then Inr (Halt (set_errno HPE_HEADER_OVERFLOW (r\<lparr>run_parser := counted (run_parser r)\<rparr>)) (run_pos r))
      else
        and_then (exec_byte 5 S (length data) (data ! run_pos r) (r\<lparr>run_parser := counted (run_parser r)\<rparr>)) (\<lambda>f.
          case f of Halt r k \<Rightarrow> Inr (Halt r k) | Go r \<Rightarrow> exec_loop n S data (r\<lparr>run_pos := run_pos r + 1\<rparr>)))"
  by (simp add: counted_def too_long_def Let_def)

lemma take_body_short: "take_body m p = (q, evs) \<Longrightarrow> \<forall>ev \<in> set evs. event_within 0 ev"
  by (auto simp: take_body_def Let_def split: if_splits)

lemma not_counted: "jumps (parser_state p) \<Longrightarrow> counted p = p \<and> \<not> too_long p"
  by (auto simp: counted_def too_long_def jumps_iff parsing_header_def)

lemma take_1_drop: "i < length xs \<Longrightarrow> take (Suc 0) (drop i xs) = [xs ! i]"
  by (metis Cons_nth_drop_Suc take0 take_Suc_Cons)

lemma body_room_le:
  "parser_inv k p \<Longrightarrow> jumps (parser_state p) \<Longrightarrow> 0 < avail \<Longrightarrow> avail < 2 ^ 64 \<Longrightarrow>
   0 < body_room avail p \<and> body_room avail p \<le> avail"
  using to_read_range [of p avail] by (auto simp: body_room_def jumps_iff parser_inv_def)

lemma run_advance:
  "run_fine 0 r \<Longrightarrow> run_within len r \<Longrightarrow>
   run_fine 0 (r\<lparr>run_pos := run_pos r + 1\<rparr>) \<and> run_within len (r\<lparr>run_pos := run_pos r + 1\<rparr>)"
  by (auto simp: run_fine_def run_within_def intro: le_SucI)

lemma loop_turn:
  assumes "run_fine 0 r" and "run_within (length data) r" and "run_pos r < length data" and "length data < 2 ^ 64"
    and "\<not> upgrade (run_parser r)"
    and "m = turn_size (length data - run_pos r) (run_parser r)" and "piece = take m (drop (run_pos r) data)"
  shows "case turn_outcome piece (run_parser r) of
      None \<Rightarrow> \<exists>r' k. exec_loop (Suc n) client_settings data r = Inr (Halt r' k) \<and>
        (http_errno (run_parser r') \<noteq> HPE_OK \<or> upgrade (run_parser r'))
    | Some (q, seen) \<Rightarrow> \<exists>r'. exec_loop (Suc n) client_settings data r = exec_loop n client_settings data r' \<and>
        run_parser r' = q \<and> run_fine 0 r' \<and> run_within (length data) r' \<and> run_pos r' = run_pos r + m \<and>
        run_pos r' \<le> length data \<and> \<not> upgrade q \<and> run_view data r' = run_view data r @ seen"
proof -
  let ?p = "run_parser r"
  let ?r = "r\<lparr>run_parser := counted ?p\<rparr>"
  let ?len = "length data"
  have p: "parser_inv 0 ?p" "parser_inv 1 (counted ?p)"
    using assms(1) by (auto simp: run_fine_def intro: parser_inv_counted)
  have within: "run_within ?len ?r" using assms(2) by (simp add: run_within_def)
  have flow: "flow_fine ?len (\<lambda>r'. run_fine 0 r' \<and> run_pos ?r \<le> run_pos r' \<and> run_pos r' < ?len)
      (exec_byte 5 client_settings ?len (data ! run_pos r) ?r)"
    using run_fine_counted [OF assms(1)] within assms(3,4) by (intro exec_byte_fine) (simp_all add: again_rank_def)
  show ?thesis
  proof (cases "jumps (parser_state ?p)")
    case True
    obtain q evs where q: "take_body m ?p = (q, evs)" by (metis prod.exhaust)
    note nc = not_counted [OF True]
    have "body_room (?len - run_pos r) ?p \<le> ?len - run_pos r" "0 < body_room (?len - run_pos r) ?p"
      using body_room_le [OF p(1) True, of "?len - run_pos r"] assms(3,4) by auto
    then have m: "0 < m" "run_pos r + m \<le> ?len" "length piece = m"
      using assms(3,6,7) True by (simp_all add: turn_size_def)
    obtain r' where r': "exec_byte 5 client_settings ?len (data ! run_pos r) ?r = Inr (Go r')" "run_parser r' = q"
        "run_pos r' + 1 = run_pos r + m"
        "run_view data (r'\<lparr>run_pos := run_pos r + m\<rparr>) = run_view data r @ map Body_Byte piece @ client_view data evs"
      using exec_jump [of ?r ?len m q evs "data ! run_pos r" data] p True within assms(3,4,6,7) q nc
      by (auto simp: turn_size_def)
    let ?r' = "r'\<lparr>run_pos := run_pos r' + 1\<rparr>"
    have "run_fine 0 ?r' \<and> run_within ?len ?r'"
      using flow r'(1) run_advance [of r' ?len] by (simp add: flow_fine_def)
    moreover have "upgrade q = upgrade ?p" using q by (auto simp: take_body_def Let_def split: if_splits)
    moreover have "client_view data evs = client_view [] evs" by (intro client_view_short take_body_short [OF q])
    ultimately show ?thesis
      using True q m r' nc assms(5) exec_loop_turn [OF assms(3), of n client_settings]
      by (auto simp: turn_outcome_def intro!: exI [of _ ?r'])
  next
    case False
    obtain q evs b where out: "settle 5 (data ! run_pos r) (counted ?p) = (q, evs, b)" by (metis prod_cases3)
    have m: "m = 1" "piece = [data ! run_pos r]" using False assms(3,6,7) by (simp_all add: turn_size_def take_1_drop)
    have "again_rank (parser_state (counted ?p)) < 5" by (simp add: again_rank_def)
    note settled = settle_fine [OF p(2) this out]
    have up: "\<not> upgrade (counted ?p) \<or> parser_state (counted ?p) = s_headers_done" using assms(5) by simp
    show ?thesis
    proof (cases "too_long ?p")
      case True
      then show ?thesis
        using False exec_loop_turn [OF assms(3), of n client_settings] by (simp add: turn_outcome_def set_errno_def)
    next
      case short: False
      obtain f where f: "exec_byte 5 client_settings ?len (data ! run_pos r) ?r = Inr f"
        "case f of
           Go r' \<Rightarrow> b \<and> run_parser r' = q \<and> run_pos r' = run_pos r \<and>
             run_view data (r'\<lparr>run_pos := run_pos r + 1\<rparr>) = run_view data r @ client_view data evs
         | Halt r' k \<Rightarrow> \<not> b \<and> run_parser r' = q"
        using exec_step [OF assms(1) False assms(2,3) out] by blast
      note turn = exec_loop_turn [OF assms(3), of n client_settings]
      show ?thesis
      proof (cases f)
        case (Go r')
        let ?r' = "r'\<lparr>run_pos := run_pos r' + 1\<rparr>"
        have "run_fine 0 ?r' \<and> run_within ?len ?r'"
          using flow f(1) Go run_advance [of r' ?len] by (simp add: flow_fine_def)
        moreover have "client_view data evs = client_view [] evs" by (intro client_view_short settled(1))
        ultimately show ?thesis
          using Go f short False out m settled(3) [OF _ up] assms(3) turn
          by (auto simp: turn_outcome_def intro!: exI [of _ ?r'])
      next
        case (Halt r' k)
        then show ?thesis using f short False out m settled(4) turn by (auto simp: turn_outcome_def)
      qed
    qed
  qed
qed

section \<open>The text and its bytes\<close>

definition start_run :: "http_parser \<Rightarrow> http_run" where
  "start_run p = \<lparr>run_parser = p, run_pos = 0, run_marks = first_marks (parser_state p), run_events = []\<rparr>"

lemma start_run_fields [simp]:
  "run_parser (start_run p) = p" "run_pos (start_run p) = 0" "run_events (start_run p) = []"
  "run_marks (start_run p) = first_marks (parser_state p)"
  by (simp_all add: start_run_def)

lemma start_run_fine:
  assumes "parser_inv 0 p"
  shows "run_fine 0 (start_run p)" and "run_within len (start_run p)" and "run_view data (start_run p) = []"
  using assms first_marks_owner [of "parser_state p"]
  by (auto simp: run_fine_def run_within_def run_view_def pending_def first_marks_def split: if_splits)

lemma execute_loop:
  "http_errno p = HPE_OK \<Longrightarrow> data \<noteq> [] \<Longrightarrow>
   http_parser_execute S p data =
     and_then (exec_loop (length data + 1) S data (start_run p)) (\<lambda>f. Inr (flow_result f))"
  by (simp add: http_parser_execute_def start_run_def Let_def)

lemma last_turn:
  assumes "run_fine 0 r" and "run_within (length data) r" and "run_pos r = length data"
  shows "\<exists>r'. exec_loop (Suc n) client_settings data r = Inr (Halt r' (length data)) \<and> run_parser r' = run_parser r \<and>
    client_view data (run_events r') = run_view data r"
  using last_marks_view [OF assms] assms(3) by simp

declare exec_loop.simps [simp del]

lemma feed_one:
  assumes "parser_inv 0 p" and "\<not> upgrade p"
  shows "feed p [c] = turn_outcome [c] p"
proof -
  have ok: "http_errno p = HPE_OK" using assms(1) by simp
  have m: "turn_size 1 p = 1"
    using body_room_le [OF assms(1), of 1] by (auto simp: turn_size_def)
  have execute_one: "http_parser_execute client_settings p [c] =
      and_then (exec_loop (Suc (Suc 0)) client_settings [c] (start_run p)) (\<lambda>f. Inr (flow_result f))"
    using ok by (simp add: execute_loop)
  have turn: "case turn_outcome [c] p of
      None \<Rightarrow> \<exists>r' k. exec_loop (Suc (Suc 0)) client_settings [c] (start_run p) = Inr (Halt r' k) \<and>
        (http_errno (run_parser r') \<noteq> HPE_OK \<or> upgrade (run_parser r'))
    | Some (q, seen) \<Rightarrow> \<exists>r'. exec_loop (Suc (Suc 0)) client_settings [c] (start_run p) = exec_loop (Suc 0) client_settings [c] r' \<and>
        run_parser r' = q \<and> run_fine 0 r' \<and> run_within (length [c]) r' \<and> run_pos r' = length [c] \<and>
        run_pos r' \<le> length [c] \<and> \<not> upgrade q \<and> run_view [c] r' = seen"
    using loop_turn [of "start_run p" "[c]" 1 "[c]" "Suc 0", OF start_run_fine(1,2) [OF assms(1)]]
      start_run_fine(3) [OF assms(1), of "[c]"] assms(2) m
    by (simp split: option.splits prod.splits)
  show ?thesis
  proof (cases "turn_outcome [c] p")
    case None
    then show ?thesis using turn by (auto simp: execute_one flow_result_def)
  next
    case (Some out)
    obtain q seen where out: "out = (q, seen)" by (metis prod.exhaust)
    obtain r' where r': "exec_loop (Suc (Suc 0)) client_settings [c] (start_run p) = exec_loop (Suc 0) client_settings [c] r'"
      "run_parser r' = q" "run_fine 0 r'" "run_within (length [c]) r'" "run_pos r' = length [c]" "\<not> upgrade q"
      "run_view [c] r' = seen"
      using turn Some out by auto
    obtain r'' where "exec_loop (Suc 0) client_settings [c] r' = Inr (Halt r'' (length [c]))" "run_parser r'' = q"
      "client_view [c] (run_events r'') = seen"
      using last_turn [OF r'(3-5), of 0] r'(2,7) by auto
    moreover have "http_errno q = HPE_OK" using r'(2,3) by (auto simp: run_fine_def intro: parser_inv_errno)
    ultimately show ?thesis
      using Some out r'(1,6) by (simp add: execute_one flow_result_def)
  qed
qed

text \<open>A piece of the body is what its bytes are.\<close>

lemma take_body_Cons:
  assumes "parser_inv 0 p" and "jumps (parser_state p)" and "0 < m"
    and "parser_state p \<noteq> s_body_identity_eof \<Longrightarrow> m < unat (content_length p)"
  obtains p' where "take_body 1 p = (p', [])" and "parser_inv 0 p'" and "parser_state p' = parser_state p"
    and "take_body m p' = take_body (Suc m) p" and "upgrade p' = upgrade p"
    and "parser_state p \<noteq> s_body_identity_eof \<Longrightarrow> unat (content_length p') = unat (content_length p) - 1"
proof (cases "parser_state p = s_body_identity_eof")
  case True
  then show thesis using assms(1) by (intro that [of p]) (simp_all add: take_body_def)
next
  case False
  let ?p = "p\<lparr>content_length := content_length p - 1\<rparr>"
  have cl: "1 < unat (content_length p)" using assms(3,4) False by linarith
  then have le: "1 \<le> content_length p" by (simp add: word_le_nat_alt)
  have less: "unat (content_length p - 1) = unat (content_length p) - 1" using unat_sub [OF le] by simp
  have "content_length p - 1 \<noteq> 0" using less cl by (metis diff_is_0_eq not_less unsigned_0)
  moreover have "content_length p - 1 \<noteq> - 1" by (rule minus_not_max) (simp_all add: le)
  ultimately have "take_body 1 p = (?p, [])" "parser_inv 0 ?p"
    using assms(1,2) False by (auto simp: take_body_def Let_def jumps_iff parser_inv_def has_flag_def)
  moreover have "take_body m ?p = take_body (Suc m) p"
    using False by (simp add: take_body_def Let_def algebra_simps)
  ultimately show thesis using less by (intro that [of ?p]) simp_all
qed

lemma feed_piece:
  assumes "parser_inv 0 p" and "\<not> upgrade p" and "jumps (parser_state p)" and "piece \<noteq> []"
    and "parser_state p \<noteq> s_body_identity_eof \<Longrightarrow> length piece \<le> unat (content_length p)"
  shows "feed p piece = turn_outcome piece p"
  using assms
proof (induction piece arbitrary: p)
  case Nil
  then show ?case by simp
next
  case (Cons c piece)
  show ?case
  proof (cases "piece = []")
    case True
    then show ?thesis using feed_one [OF Cons.prems(1,2), of c] by simp
  next
    case False
    obtain p' where p': "take_body 1 p = (p', [])" "parser_inv 0 p'" "parser_state p' = parser_state p"
      "take_body (length piece) p' = take_body (Suc (length piece)) p" "upgrade p' = upgrade p"
      "parser_state p \<noteq> s_body_identity_eof \<Longrightarrow> unat (content_length p') = unat (content_length p) - 1"
      by (rule take_body_Cons [OF Cons.prems(1,3), of "length piece"])
        (use Cons.prems(5) False in auto)
    have "feed p [c] = Some (p', [Body_Byte c])"
      using feed_one [OF Cons.prems(1,2), of c] Cons.prems(3) p'(1) by (simp add: turn_outcome_def)
    moreover have "feed p' piece = turn_outcome piece p'"
      using p' Cons.prems(2,3,5) False by (intro Cons.IH) auto
    ultimately show ?thesis
      using feed_append [of p "[c]" piece] Cons.prems(3) p'(3,4) False
      by (cases "take_body (Suc (length piece)) p") (simp add: turn_outcome_def)
  qed
qed

lemma feed_turn:
  assumes "parser_inv 0 p" and "\<not> upgrade p" and "0 < length rest" and "length rest < 2 ^ 64"
    and "piece = take (turn_size (length rest) p) rest"
  shows "feed p piece = turn_outcome piece p"
proof (cases "jumps (parser_state p)")
  case True
  note room = body_room_le [OF assms(1) True assms(3,4)]
  then have "length piece = body_room (length rest) p" using True assms(5) by (simp add: turn_size_def)
  moreover have "body_room (length rest) p \<le> unat (content_length p)" if "parser_state p \<noteq> s_body_identity_eof"
    using that assms(1,3,4) True to_read_range(3) [of p "length rest"]
    by (auto simp: body_room_def word_le_nat_alt jumps_iff parser_inv_def)
  ultimately show ?thesis using assms(1,2) True room by (intro feed_piece) auto
next
  case False
  then obtain c where "piece = [c]" using assms(3,5) by (cases rest) (auto simp: turn_size_def)
  then show ?thesis using feed_one [OF assms(1,2)] by simp
qed

lemma loop_feed:
  assumes "run_fine 0 r" and "run_within (length data) r" and "run_pos r \<le> length data" and "length data < 2 ^ 64"
    and "\<not> upgrade (run_parser r)" and "length data - run_pos r < n"
  shows "\<exists>r' k. exec_loop n client_settings data r = Inr (Halt r' k) \<and>
    (case feed (run_parser r) (drop (run_pos r) data) of
       None \<Rightarrow> http_errno (run_parser r') \<noteq> HPE_OK \<or> upgrade (run_parser r')
     | Some (q, seen) \<Rightarrow> run_parser r' = q \<and> k = length data \<and> http_errno q = HPE_OK \<and> \<not> upgrade q \<and>
         client_view data (run_events r') = run_view data r @ seen)"
  using assms
proof (induction n arbitrary: r)
  case 0
  then show ?case by simp
next
  case (Suc n)
  let ?p = "run_parser r"
  have inv: "parser_inv 0 ?p" using Suc.prems(1) by (simp add: run_fine_def)
  show ?case
  proof (cases "run_pos r = length data")
    case True
    then show ?thesis
      using last_turn [OF Suc.prems(1,2) True, of n] inv Suc.prems(5) by auto
  next
    case False
    then have pos: "run_pos r < length data" using Suc.prems(3) by simp
    let ?m = "turn_size (length data - run_pos r) ?p"
    let ?piece = "take ?m (drop (run_pos r) data)"
    have feed_p: "feed ?p ?piece = turn_outcome ?piece ?p"
      using inv Suc.prems(4,5) pos by (intro feed_turn [of _ "drop (run_pos r) data"]) simp_all
    have split: "drop (run_pos r) data = ?piece @ drop (run_pos r + ?m) data"
      by (metis append_take_drop_id drop_drop add.commute)
    note turn = loop_turn [OF Suc.prems(1,2) pos Suc.prems(4,5) refl refl, of n]
    show ?thesis
    proof (cases "turn_outcome ?piece ?p")
      case None
      have "feed ?p (drop (run_pos r) data) = None" by (subst split) (simp add: feed_append feed_p None)
      then show ?thesis using turn None by simp
    next
      case (Some out)
      obtain q seen where out: "out = (q, seen)" by (metis prod.exhaust)
      obtain r' where r': "exec_loop (Suc n) client_settings data r = exec_loop n client_settings data r'"
        "run_parser r' = q" "run_fine 0 r'" "run_within (length data) r'" "run_pos r' = run_pos r + ?m"
        "run_pos r' \<le> length data" "\<not> upgrade q" "run_view data r' = run_view data r @ seen"
        using turn by (auto simp: Some out)
      have "0 < ?m" using body_room_le [OF inv, of "length data - run_pos r"] pos Suc.prems(4)
        by (auto simp: turn_size_def)
      then have "length data - run_pos r' < n" using r'(5) Suc.prems(6) pos by linarith
      then obtain r'' k where "exec_loop n client_settings data r' = Inr (Halt r'' k)"
        "case feed q (drop (run_pos r') data) of
           None \<Rightarrow> http_errno (run_parser r'') \<noteq> HPE_OK \<or> upgrade (run_parser r'')
         | Some (q', seen') \<Rightarrow> run_parser r'' = q' \<and> k = length data \<and> http_errno q' = HPE_OK \<and> \<not> upgrade q' \<and>
             client_view data (run_events r'') = run_view data r' @ seen'"
        using Suc.IH [OF r'(3,4,6) Suc.prems(4)] r'(2,7) by auto
      moreover have "feed ?p (drop (run_pos r) data) =
          (case feed q (drop (run_pos r') data) of None \<Rightarrow> None | Some (q', seen') \<Rightarrow> Some (q', seen @ seen'))"
        by (subst split) (simp add: feed_append feed_p Some out r'(5))
      ultimately show ?thesis using r'(1,8) by (auto split: option.splits)
    qed
  qed
qed

text \<open>
  The parser given a text at once, with the jumps over pieces of the body, is the parser given the
  bytes of the text.
\<close>

lemma execute_feed:
  assumes "parser_inv 0 p" and "\<not> upgrade p" and "data \<noteq> []" and "length data < 2 ^ 64"
  shows "\<exists>q evs k. http_parser_execute client_settings p data = Inr (q, evs, k) \<and>
    (case feed p data of
       None \<Rightarrow> http_errno q \<noteq> HPE_OK \<or> upgrade q
     | Some (q', seen) \<Rightarrow> q = q' \<and> k = length data \<and> http_errno q' = HPE_OK \<and> \<not> upgrade q' \<and>
         client_view data evs = seen)"
proof -
  have ok: "http_errno p = HPE_OK" using assms(1) by simp
  have "\<exists>r' k. exec_loop (length data + 1) client_settings data (start_run p) = Inr (Halt r' k) \<and>
    (case feed p data of
       None \<Rightarrow> http_errno (run_parser r') \<noteq> HPE_OK \<or> upgrade (run_parser r')
     | Some (q, seen) \<Rightarrow> run_parser r' = q \<and> k = length data \<and> http_errno q = HPE_OK \<and> \<not> upgrade q \<and>
         client_view data (run_events r') = seen)"
    using loop_feed [OF start_run_fine(1,2) [OF assms(1)], of data "length data + 1"] assms(2,4)
      start_run_fine(3) [OF assms(1), of data]
    by (cases "feed p data") auto
  then show ?thesis
    using ok assms(3) by (cases "feed p data") (auto simp: execute_loop flow_result_def)
qed

section \<open>Texts in pieces\<close>

text \<open>
  A text that is parsed to its end without an error: the parser after it, and what the client has
  seen. The peer's wish to change the protocol, which the client does not serve, counts as an error.
\<close>

definition parse_text :: "http_parser \<Rightarrow> string \<Rightarrow> (http_parser \<times> http_seen list) option" where
  "parse_text p data =
     (case http_parser_execute client_settings p data of
        Inl f \<Rightarrow> None
      | Inr (q, evs, k) \<Rightarrow>
          if http_errno q = HPE_OK \<and> \<not> upgrade q \<and> k = length data then Some (q, client_view data evs) else None)"

fun parse_pieces :: "http_parser \<Rightarrow> string list \<Rightarrow> (http_parser \<times> http_seen list) option" where
  "parse_pieces p [] = Some (p, [])"
| "parse_pieces p (d # ds) =
     (case parse_text p d of None \<Rightarrow> None
      | Some (q, seen) \<Rightarrow>
          (case parse_pieces q ds of None \<Rightarrow> None | Some (q', seen') \<Rightarrow> Some (q', seen @ seen')))"

lemma parse_text_feed:
  assumes "parser_inv 0 p" and "\<not> upgrade p" and "data \<noteq> []" and "length data < 2 ^ 64"
  shows "parse_text p data = feed p data"
  using execute_feed [OF assms] by (cases "feed p data") (auto simp: parse_text_def)

lemma parse_text_keeps:
  assumes "parser_inv 0 p" and "length data < 2 ^ 64" and "parse_text p data = Some (q, seen)"
  shows "parser_inv 0 q" and "\<not> upgrade q"
proof -
  obtain q' evs k where run: "http_parser_execute client_settings p data = Inr (q', evs, k)" "parser_ok q'"
    by (rule execute_fine [of p data client_settings]) (use assms(1,2) in \<open>simp_all add: parser_ok_def\<close>)
  then have "q' = q" "http_errno q' = HPE_OK" "\<not> upgrade q'"
    using assms(3) by (auto simp: parse_text_def split: if_splits)
  then show "parser_inv 0 q" "\<not> upgrade q" using run(2) by (auto simp: parser_ok_def)
qed

lemma parse_pieces_feed:
  assumes "parser_inv 0 p" and "\<not> upgrade p" and "\<forall>d \<in> set ds. d \<noteq> [] \<and> length d < 2 ^ 64"
  shows "parse_pieces p ds = feed p (concat ds)"
  using assms
proof (induction ds arbitrary: p)
  case Nil
  then show ?case by simp
next
  case (Cons d ds)
  have one: "parse_text p d = feed p d" using Cons.prems by (intro parse_text_feed) simp_all
  show ?case
  proof (cases "feed p d")
    case None
    then show ?thesis using one by (simp add: feed_append)
  next
    case (Some out)
    obtain q seen where out: "out = (q, seen)" by (metis prod.exhaust)
    have "parser_inv 0 q" "\<not> upgrade q"
      using parse_text_keeps [of p d q seen] Cons.prems(1,3) one Some out by simp_all
    then have "parse_pieces q ds = feed q (concat ds)" using Cons.prems(3) by (intro Cons.IH) simp_all
    then show ?thesis using one Some out by (simp add: feed_append)
  qed
qed

end
