(* ===== verification/Http_Requests.thy ===== *)
theory Http_Requests
  imports Http_Feed
begin

text \<open>
  Requests as a client writes them, and what the parser makes of them: a request for an absolute
  path, with any headers that mean nothing to the parser, with or without a body, is seen by the
  client as the bytes of the body and the end of one message with its method.
\<close>

section \<open>The method\<close>

definition after_method :: "http_method \<Rightarrow> nat \<Rightarrow> http_parser" where
  "after_method m n = (http_parser_init HTTP_REQUEST)
     \<lparr>parser_state := s_req_spaces_before_url, req_method := m, match_index := of_nat n, nread := of_nat n,
      content_length := - 1\<rparr>"

lemma feed_method:
   "feed (http_parser_init HTTP_REQUEST) (http_method_str m @ '' '') =
   Some (after_method m (length (http_method_str m) + 1), [])"
  by (induction m) code_simp+

lemma init_ready: "parser_inv 0 (http_parser_init t)" "\<not> upgrade (http_parser_init t)"
  using parser_ok_init [of t] by (simp_all add: parser_ok_def http_parser_init_def)

section \<open>One byte\<close>

lemma feed_keeps:
  assumes "parser_inv 0 p" and "\<not> upgrade p" and "feed p data = Some (q, seen)"
  shows "parser_inv 0 q" and "\<not> upgrade q"
proof -
  have "parser_inv 0 q \<and> \<not> upgrade q" using assms
  proof (induction data arbitrary: p seen)
    case Nil
    then show ?case by simp
  next
    case (Cons c cs)
    obtain r evs k where r: "http_parser_execute client_settings p [c] = Inr (r, evs, k)" "parser_ok r"
      by (rule execute_fine [of p "[c]" client_settings]) (use Cons.prems(1) in \<open>simp_all add: parser_ok_def\<close>)
    then have "http_errno r = HPE_OK" "\<not> upgrade r" "\<exists>seen'. feed r cs = Some (q, seen')"
      using Cons.prems(3) by (auto split: if_splits option.splits)
    then show ?case using Cons.IH r(2) by (auto simp: parser_ok_def)
  qed
  then show "parser_inv 0 q" "\<not> upgrade q" by blast+
qed

text \<open>A byte of the headers, with the count of the bytes so far.\<close>

lemma feed_byte:
  assumes "parser_inv 0 p" and "\<not> upgrade p" and "parsing_header (parser_state p)" and "nread p = of_nat n"
    and "n < 81920" and "settle 5 c (p\<lparr>nread := of_nat (n + 1)\<rparr>) = (q, evs, True)"
  shows "feed p (c # cs) =
    (case feed q cs of None \<Rightarrow> None | Some (q', seen) \<Rightarrow> Some (q', client_view [] evs @ seen))"
proof -
  have c: "counted p = p\<lparr>nread := of_nat (n + 1)\<rparr>" using assms(3,4) by (simp add: counted_def)
  have "unat (of_nat (n + 1) :: u32) = n + 1" using assms(5)
    by (subst unat_of_nat) (simp add: take_bit_nat_eq_self)
  then have short: "\<not> too_long p" using assms(5) by (simp add: too_long_def c word_less_nat_alt)
  have "\<not> jumps (parser_state p)" using assms(3) by (auto simp: jumps_iff parsing_header_def)
  then have "feed p [c] = Some (q, client_view [] evs)"
    using feed_one [OF assms(1,2), of c] assms(6) short by (simp add: turn_outcome_def c)
  then show ?thesis using feed_append [of p "[c]" cs] by simp
qed


section \<open>Headers\<close>

text \<open>A run over bytes of the headers that the client does not get to know.\<close>

fun header_run :: "http_parser \<Rightarrow> string \<Rightarrow> http_parser option" where
  "header_run p [] = Some p"
| "header_run p (c # cs) =
     (let (q, evs, b) = settle 5 c (p\<lparr>nread := nread p + 1\<rparr>)
      in if b \<and> evs = [] \<and> nread q = nread p + 1 \<and> parsing_header (parser_state p)
         then header_run q cs else None)"

lemma header_run_append:
  "header_run p (a @ b) = (case header_run p a of None \<Rightarrow> None | Some q \<Rightarrow> header_run q b)"
  by (induction a arbitrary: p) (auto split: option.split prod.split)

lemma header_run_then: "header_run p a = Some q \<Longrightarrow> header_run q b = r \<Longrightarrow> header_run p (a @ b) = r"
  by (simp add: header_run_append)

text \<open>The limit on the headers is the only thing that the run does not check.\<close>

lemma header_run_feed:
  assumes "parser_inv 0 p" and "\<not> upgrade p" and "nread p = of_nat n" and "n + length w \<le> 81920"
    and "header_run p w = Some q"
  shows "feed p (w @ cs) = feed q cs" and "nread q = of_nat (n + length w)"
proof -
  have "feed p (w @ cs) = feed q cs \<and> nread q = of_nat (n + length w)" using assms
  proof (induction w arbitrary: p n)
    case Nil
    then show ?case by simp
  next
    case (Cons c w)
    obtain r evs b where r: "settle 5 c (p\<lparr>nread := nread p + 1\<rparr>) = (r, evs, b)" by (metis prod_cases3)
    then have run: "b" "evs = []" "nread r = of_nat (n + 1)" "parsing_header (parser_state p)" "header_run r w = Some q"
      using Cons.prems(3,5) by (auto split: if_splits)
    have byte: "feed p (c # w') = feed r w'" for w'
      using feed_byte [OF Cons.prems(1,2) run(4) Cons.prems(3), of c r "[]" w'] r run(1,2) Cons.prems(3,4)
      by (simp add: add.commute split: option.split)
    have "parser_inv 0 r" "\<not> upgrade r"
      using feed_keeps [OF Cons.prems(1,2), of "[c]" r "[]"] byte [of "[]"] by simp_all
    from Cons.IH [OF this run(3) _ run(5)] show ?case using Cons.prems(4) byte by simp
  qed
  then show "feed p (w @ cs) = feed q cs" "nread q = of_nat (n + length w)" by blast+
qed

lemma settle_numeral:
  "settle (numeral k) ch p =
     (case byte_code 1 ch p of (q, acts, ctl) \<Rightarrow>
        case ctl of
           Break_Byte \<Rightarrow> (q, notices acts, True)
         | Return_After \<Rightarrow> (q, notices acts, False)
         | Error err \<Rightarrow> (q\<lparr>http_errno := err\<rparr>, notices acts, False)
         | Fault f \<Rightarrow> (q, notices acts, False)
         | _ \<Rightarrow> (case settle (pred_numeral k) ch q of (q', evs, b) \<Rightarrow> (q', notices acts @ evs, b)))"
  by (simp add: numeral_eq_Suc Let_def split: prod.split http_control.split)

lemma run_byte:
  "byte_code 1 c (p\<lparr>nread := nread p + 1\<rparr>) = (q, acts, Break_Byte) \<Longrightarrow> notices acts = [] \<Longrightarrow>
   nread q = nread p + 1 \<Longrightarrow> parsing_header (parser_state p) \<Longrightarrow> header_run p (c # cs) = header_run q cs"
  by (simp add: settle_numeral)

definition crlf :: string where "crlf = [CR, LF]"

lemma digit_1 [simp]: "is_digit CHR ''1''" "digit CHR ''1'' = 1"
  by (simp_all add: is_digit_def digit_def)

lemma http_run:
  "parser_state p = s_req_http_start \<Longrightarrow>
   header_run p ''HTTP/'' = Some (p\<lparr>parser_state := s_req_first_http_major, nread := nread p + 5\<rparr>)"
  by (simp add: run_byte byte_code_def parsing_header_def step_req_http_start_def strict_goto_def goto_state_def
      del: header_run.simps(2))

lemma major_run:
  "parser_state p = s_req_first_http_major \<Longrightarrow>
   header_run p ''1.'' = Some (p\<lparr>parser_state := s_req_first_http_minor, http_major := 1, nread := nread p + 2\<rparr>)"
  by (simp add: run_byte byte_code_def parsing_header_def step_req_first_http_major_def goto_state_def step_http_major_def
      del: header_run.simps(2))

lemma minor_run:
  "parser_state p = s_req_first_http_minor \<Longrightarrow>
   header_run p (CHR ''1'' # crlf) =
     Some (p\<lparr>parser_state := s_header_field_start, http_minor := 1, nread := nread p + 3\<rparr>)"
  by (simp add: crlf_def run_byte byte_code_def parsing_header_def step_first_http_minor_def goto_state_def
      step_req_http_minor_def step_req_line_almost_done_def del: header_run.simps(2))

lemma version_run:
  assumes "parser_state p = s_req_http_start"
  shows "header_run p (''HTTP/1.1'' @ crlf) =
    Some (p\<lparr>parser_state := s_header_field_start, http_major := 1, http_minor := 1, nread := nread p + 10\<rparr>)"
proof -
  have "header_run p (''HTTP/'' @ (''1.'' @ (CHR ''1'' # crlf))) =
      Some (p\<lparr>parser_state := s_header_field_start, http_major := 1, http_minor := 1, nread := nread p + 10\<rparr>)"
    by (rule header_run_then [OF http_run [OF assms]], rule header_run_then [OF major_run])
      (simp_all add: minor_run del: header_run.simps(2))
  then show ?thesis by simp
qed

declare header_run.simps(2) [simp del]

lemma url_char_printable:
  assumes "is_url_char c"
  shows "c \<noteq> CHR '' ''" and "c \<noteq> CR" and "c \<noteq> LF" and "c \<noteq> TAB" and "c \<noteq> CHR 0x0C"
proof -
  have "33 \<le> ccode c" using assms by (simp add: is_url_char_range)
  then show "c \<noteq> CHR '' ''" "c \<noteq> CR" "c \<noteq> LF" "c \<noteq> TAB" "c \<noteq> CHR 0x0C" by auto
qed

lemma url_run:
  "parser_state p = s_req_path \<Longrightarrow> \<forall>c\<in>set cs. is_url_char c \<Longrightarrow>
   header_run p cs = Some (p\<lparr>nread := nread p + of_nat (length cs)\<rparr>)"
proof (induction cs arbitrary: p)
  case (Cons c cs)
  have "is_url_char c" using Cons.prems(2) by simp
  note c = this url_char_printable [OF this]
  then have "parse_url_char s_req_path c = s_req_path" by (simp add: parse_url_char_def)
  then have "byte_code 1 c (p\<lparr>nread := nread p + 1\<rparr>) = (p\<lparr>nread := nread p + 1\<rparr>, [], Break_Byte)"
    using c Cons.prems(1) by (simp add: byte_code_def step_req_url_def url_step_def)
  then have "header_run p (c # cs) = header_run (p\<lparr>nread := nread p + 1\<rparr>) cs"
    by (rule run_byte) (simp_all add: Cons.prems(1) parsing_header_def)
  then show ?case using Cons by (simp add: add.assoc)
qed simp

text \<open>A request for an absolute path of URL characters.\<close>

definition path_ok :: "string \<Rightarrow> bool" where
  "path_ok url \<longleftrightarrow> (\<exists>cs. url = CHR ''/'' # cs \<and> (\<forall>c\<in>set cs. is_url_char c))"

lemma path_run:
  assumes "path_ok url" and "parser_state p = s_req_spaces_before_url" and "req_method p \<noteq> HTTP_CONNECT"
  shows "header_run p (url @ '' '') = Some (p\<lparr>parser_state := s_req_http_start, nread := nread p + of_nat (length url + 1)\<rparr>)"
proof -
  obtain cs where url: "url = CHR ''/'' # cs" "\<forall>c\<in>set cs. is_url_char c" using assms(1) by (auto simp: path_ok_def)
  have "header_run p ''/'' = Some (p\<lparr>parser_state := s_req_path, nread := nread p + 1\<rparr>)"
    using assms(2,3)
    by (simp add: run_byte byte_code_def step_req_spaces_before_url_def url_step_def parse_url_char_def parsing_header_def)
  moreover have "header_run q '' '' = Some (q\<lparr>parser_state := s_req_http_start, nread := nread q + 1\<rparr>)"
    if "parser_state q = s_req_path" for q
    using that by (simp add: run_byte byte_code_def step_req_url_def parsing_header_def)
  ultimately show ?thesis
    using url_run [of "p\<lparr>parser_state := s_req_path, nread := nread p + 1\<rparr>" cs] url
      header_run_append [of p "''/''" "cs @ '' ''"] header_run_append [of _ cs "'' ''"]
    by (simp add: algebra_simps)
qed

text \<open>A header that means nothing to the parser.\<close>

fun plain_header :: "string \<times> string \<Rightarrow> bool" where
  "plain_header (n, v) \<longleftrightarrow>
     n \<noteq> [] \<and> TOKEN (hd n) \<notin> {CHR ''c'', CHR ''p'', CHR ''t'', CHR ''u''} \<and> (\<forall>c\<in>set n. TOKEN c \<noteq> NUL) \<and>
     v \<noteq> [] \<and> hd v \<noteq> CHR '' '' \<and> hd v \<noteq> TAB \<and> CR \<notin> set v \<and> LF \<notin> set v"

fun header_line :: "string \<times> string \<Rightarrow> string" where
  "header_line (n, v) = n @ '': '' @ v @ crlf"

lemma TOKEN_NUL [simp]: "TOKEN CR = NUL" "TOKEN LF = NUL" "TOKEN CHR '' '' = NUL" "TOKEN TAB = NUL" "TOKEN CHR '':'' = NUL"
  by code_simp+

lemma field_run:
  "parser_state p = s_header_field \<Longrightarrow> hstate p = h_general \<Longrightarrow> \<forall>c\<in>set cs. TOKEN c \<noteq> NUL \<Longrightarrow>
   header_run p cs = Some (p\<lparr>nread := nread p + of_nat (length cs)\<rparr>)"
proof (induction cs arbitrary: p)
  case (Cons c cs)
  let ?q = "p\<lparr>nread := nread p + 1\<rparr>"
  have "byte_code 1 c ?q = (?q, [], Break_Byte)"
    using Cons.prems by (simp add: byte_code_def step_header_field_def field_byte_def)
  then have "header_run p (c # cs) = header_run ?q cs"
    by (rule run_byte) (simp_all add: Cons.prems(1) parsing_header_def)
  also have "\<dots> = Some (?q\<lparr>nread := nread ?q + of_nat (length cs)\<rparr>)" using Cons.prems by (intro Cons.IH) simp_all
  finally show ?case by (simp add: add.assoc)
qed simp

lemma value_run:
  "parser_state p = s_header_value \<Longrightarrow> hstate p = h_general \<Longrightarrow> CR \<notin> set cs \<Longrightarrow> LF \<notin> set cs \<Longrightarrow>
   header_run p cs = Some (p\<lparr>nread := nread p + of_nat (length cs)\<rparr>)"
proof (induction cs arbitrary: p)
  case (Cons c cs)
  let ?q = "p\<lparr>nread := nread p + 1\<rparr>"
  have "c \<noteq> CR" "c \<noteq> LF" using Cons.prems(3,4) by auto
  then have "byte_code 1 c ?q = (?q, [], Break_Byte)"
    using Cons.prems(1,2) by (simp add: byte_code_def step_header_value_def value_byte_def)
  then have "header_run p (c # cs) = header_run ?q cs"
    by (rule run_byte) (simp_all add: Cons.prems(1) parsing_header_def)
  also have "\<dots> = Some (?q\<lparr>nread := nread ?q + of_nat (length cs)\<rparr>)" using Cons.prems by (intro Cons.IH) simp_all
  finally show ?case by (simp add: add.assoc)
qed simp

lemma first_token_run:
  assumes "TOKEN c \<noteq> NUL" and "TOKEN c \<notin> {CHR ''c'', CHR ''p'', CHR ''t'', CHR ''u''}"
    and "parser_state p \<in> {s_header_field_start, s_header_value_lws}"
  shows "header_run p [c] =
    Some (p\<lparr>parser_state := s_header_field, hstate := h_general, match_index := 0, nread := nread p + 1\<rparr>)"
proof -
  have "c \<noteq> CR" "c \<noteq> LF" "c \<noteq> CHR '' ''" "c \<noteq> TAB" using assms(1) by auto
  then have start: "step_header_field_start c q = (q\<lparr>match_index := 0, parser_state := s_header_field, hstate := h_general\<rparr>,
      [Mark Header_Field_Mark], Break_Byte)"
    "step_header_value_lws c q = (q\<lparr>parser_state := s_header_field_start\<rparr>, [], Reexecute_Byte)" for q
    using assms(1,2) by (simp_all add: step_header_field_start_def step_header_value_lws_def Let_def)
  show ?thesis
    using assms(3) by (elim insertE) (simp_all add: header_run.simps(2) settle_numeral byte_code_def start parsing_header_def)
qed

lemma colon_run:
  "parser_state p = s_header_field \<Longrightarrow>
   header_run p '': '' = Some (p\<lparr>parser_state := s_header_value_start, nread := nread p + 2\<rparr>)"
  by (simp add: run_byte byte_code_def step_header_field_def step_header_value_start_def parsing_header_def)

lemma first_value_run:
  assumes "parser_state p = s_header_value_start" and "hstate p = h_general"
    and "c \<noteq> CHR '' ''" and "c \<noteq> TAB" and "c \<noteq> CR" and "c \<noteq> LF"
  shows "header_run p (c # cs) =
    header_run (p\<lparr>parser_state := s_header_value, match_index := 0, nread := nread p + 1\<rparr>) cs"
  by (rule run_byte [where acts = "[Mark Header_Value_Mark]"])
    (use assms in \<open>simp_all add: byte_code_def step_header_value_start_def Let_def parsing_header_def\<close>)

lemma line_end_run:
  assumes "parser_state p = s_header_value" and "hstate p \<in> {h_general, h_content_length}"
  shows "header_run p crlf = Some (p\<lparr>parser_state := s_header_value_lws, nread := nread p + 2\<rparr>)"
  using assms by (elim insertE)
    (simp_all add: crlf_def run_byte byte_code_def step_header_value_def step_header_almost_done_def goto_state_def
      parsing_header_def)

text \<open>The states before the first and between two headers\<close>

definition header_due :: "http_state \<Rightarrow> bool" where
  "header_due s \<longleftrightarrow> s \<in> {s_header_field_start, s_header_value_lws}"

lemma plain_header_run:
  assumes "plain_header (n, v)" and "header_due (parser_state p)"
  shows "header_run p (header_line (n, v)) =
    Some (p\<lparr>parser_state := s_header_value_lws, hstate := h_general, match_index := 0,
             nread := nread p + of_nat (length (header_line (n, v)))\<rparr>)"
proof -
  obtain c cs where n: "n = c # cs" using assms(1) by (cases n) auto
  obtain d ds where v: "v = d # ds" using assms(1) by (cases v) auto
  let ?p = "p\<lparr>parser_state := s_header_field, hstate := h_general, match_index := 0, nread := nread p + 1\<rparr>"
  let ?q = "?p\<lparr>nread := nread ?p + of_nat (length cs)\<rparr>"
  let ?r = "?q\<lparr>parser_state := s_header_value_start, nread := nread ?q + 2\<rparr>"
  let ?s = "?r\<lparr>parser_state := s_header_value, match_index := 0, nread := nread ?r + 1\<rparr>"
  let ?t = "?s\<lparr>nread := nread ?s + of_nat (length ds)\<rparr>"
  have first: "header_run p [c] = Some ?p"
    using assms by (intro first_token_run) (auto simp: n header_due_def)
  have name: "header_run ?p cs = Some ?q" using assms(1) by (intro field_run) (auto simp: n)
  have colon: "header_run ?q '': '' = Some ?r" by (rule colon_run) simp
  have "header_run ?r (d # ds @ crlf) = header_run ?s (ds @ crlf)"
    using assms(1) by (intro first_value_run) (auto simp: v)
  also have "\<dots> = header_run ?t crlf" by (rule header_run_then [OF value_run refl]) (use assms(1) in \<open>auto simp: v\<close>)
  also have "\<dots> = Some (?t\<lparr>parser_state := s_header_value_lws, nread := nread ?t + 2\<rparr>)" by (rule line_end_run) simp_all
  finally have val: "header_run ?r (v @ crlf) = Some (?t\<lparr>parser_state := s_header_value_lws, nread := nread ?t + 2\<rparr>)"
    by (simp add: v)
  have "header_run p ([c] @ cs @ '': '' @ (v @ crlf)) =
      Some (?t\<lparr>parser_state := s_header_value_lws, nread := nread ?t + 2\<rparr>)"
    by (intro header_run_then [OF first] header_run_then [OF name] header_run_then [OF colon] val)
  then show ?thesis by (simp add: n v crlf_def algebra_simps)
qed

lemma plain_headers_run:
  assumes "\<forall>h\<in>set hs. plain_header h" and "header_due (parser_state p)"
  shows "\<exists>q. header_run p (concat (map header_line hs)) = Some q \<and> header_due (parser_state q) \<and>
    q = p\<lparr>parser_state := parser_state q, hstate := hstate q, match_index := match_index q,
      nread := nread p + of_nat (length (concat (map header_line hs)))\<rparr>"
  using assms
proof (induction hs arbitrary: p)
  case Nil
  then show ?case by simp
next
  case (Cons h hs)
  obtain n v where h: "h = (n, v)" by (metis prod.exhaust)
  let ?p = "p\<lparr>parser_state := s_header_value_lws, hstate := h_general, match_index := 0,
             nread := nread p + of_nat (length (header_line (n, v)))\<rparr>"
  have one: "header_run p (header_line (n, v)) = Some ?p" using Cons.prems by (intro plain_header_run) (auto simp: h)
  obtain q where q: "header_run ?p (concat (map header_line hs)) = Some q" "header_due (parser_state q)"
    "q = ?p\<lparr>parser_state := parser_state q, hstate := hstate q, match_index := match_index q,
      nread := nread ?p + of_nat (length (concat (map header_line hs)))\<rparr>"
    using Cons.IH [of ?p] Cons.prems(1) by (auto simp: header_due_def)
  have "header_run p (header_line (n, v) @ concat (map header_line hs)) = Some q"
    by (rule header_run_then [OF one q(1)])
  moreover have "q = p\<lparr>parser_state := parser_state q, hstate := hstate q, match_index := match_index q,
      nread := nread p + of_nat (length (concat (map header_line (h # hs))))\<rparr>"
    by (subst q(3)) (simp add: h add.assoc)
  ultimately show ?case using q(2) by (auto simp: h simp del: header_line.simps)
qed

section \<open>The length of a body\<close>

lemma length_name_run:
  assumes "header_due (parser_state p)"
  shows "header_run p ''Content-Length'' =
    Some (p\<lparr>parser_state := s_header_field, hstate := h_content_length, match_index := 13, nread := nread p + 14\<rparr>)"
proof -
  have tok: "TOKEN CHR ''C'' = CHR ''c''" "TOKEN CHR ''o'' = CHR ''o''" "TOKEN CHR ''n'' = CHR ''n''"
    "TOKEN CHR ''t'' = CHR ''t''" "TOKEN CHR ''e'' = CHR ''e''" "TOKEN CHR ''-'' = CHR ''-''" "TOKEN CHR ''L'' = CHR ''l''"
    "TOKEN CHR ''g'' = CHR ''g''" "TOKEN CHR ''h'' = CHR ''h''"
    by code_simp+
  have start: "step_header_field_start CHR ''C'' q = (q\<lparr>match_index := 0, parser_state := s_header_field, hstate := h_C\<rparr>,
      [Mark Header_Field_Mark], Break_Byte)"
    "step_header_value_lws CHR ''C'' q = (q\<lparr>parser_state := s_header_field_start\<rparr>, [], Reexecute_Byte)" for q
    by (simp_all add: step_header_field_start_def step_header_value_lws_def Let_def tok)
  have first: "header_run p ''C'' =
      Some (p\<lparr>parser_state := s_header_field, hstate := h_C, match_index := 0, nread := nread p + 1\<rparr>)"
    using assms unfolding header_due_def
    by (elim insertE) (simp_all add: header_run.simps(2) settle_numeral byte_code_def start parsing_header_def)
  have con: "header_run q ''ont'' = Some (q\<lparr>hstate := h_matching_content_length, match_index := 3, nread := nread q + 3\<rparr>)"
    if "parser_state q = s_header_field" "hstate q = h_C" "match_index q = 0" for q
    using that by (simp add: run_byte byte_code_def step_header_field_def field_byte_def count_goto_def tok parsing_header_def)
  have tent: "header_run q ''ent-'' = Some (q\<lparr>match_index := 7, nread := nread q + 4\<rparr>)"
    if "parser_state q = s_header_field" "hstate q = h_matching_content_length" "match_index q = 3" for q
    using that by (simp add: run_byte byte_code_def step_header_field_def field_byte_def match_next_def tok parsing_header_def)
  have length: "header_run q ''Length'' = Some (q\<lparr>hstate := h_content_length, match_index := 13, nread := nread q + 6\<rparr>)"
    if "parser_state q = s_header_field" "hstate q = h_matching_content_length" "match_index q = 7" for q
    using that by (simp add: run_byte byte_code_def step_header_field_def field_byte_def match_next_def tok parsing_header_def)
  have "header_run p (''C'' @ ''ont'' @ ''ent-'' @ ''Length'') =
      Some (p\<lparr>parser_state := s_header_field, hstate := h_content_length, match_index := 13, nread := nread p + 14\<rparr>)"
    by (intro header_run_then [OF first] header_run_then [OF con] header_run_then [OF tent])
      (simp_all add: length)
  then show ?thesis by simp
qed

lemma digit_char_eq: "d < 10 \<Longrightarrow> is_digit (digit_char d) \<and> digit (digit_char d) = d"
  using digit_char_props(1,2) [of d] by (simp add: digit_def)

lemma digit_char_plain:
  assumes "d < 10"
  shows "digit_char d \<noteq> CHR '' ''" and "digit_char d \<noteq> TAB" and "digit_char d \<noteq> CR" and "digit_char d \<noteq> LF"
proof -
  have "ccode (digit_char d) = 48 + d" by (rule digit_char_props(2) [OF assms])
  then show "digit_char d \<noteq> CHR '' ''" "digit_char d \<noteq> TAB" "digit_char d \<noteq> CR" "digit_char d \<noteq> LF" by auto
qed

lemma first_digit_run:
  assumes "parser_state p = s_header_value_start" and "hstate p = h_content_length" and "d < 10"
  shows "header_run p [digit_char d] =
    Some (p\<lparr>parser_state := s_header_value, match_index := 0, content_length := of_nat d, nread := nread p + 1\<rparr>)"
proof -
  have "byte_code 1 (digit_char d) (p\<lparr>nread := nread p + 1\<rparr>) =
      (p\<lparr>parser_state := s_header_value, match_index := 0, content_length := of_nat d, nread := nread p + 1\<rparr>,
       [Mark Header_Value_Mark], Break_Byte)"
    using assms digit_char_eq [OF assms(3)] digit_char_plain [OF assms(3)]
    by (simp add: byte_code_def step_header_value_start_def Let_def)
  from run_byte [OF this, of "[]"] show ?thesis by (simp add: assms(1) parsing_header_def)
qed

lemma next_digit_run:
  assumes "parser_state p = s_header_value" and "hstate p = h_content_length" and "d < 10"
    and "content_length p = of_nat n" and "n < 10 ^ 17"
  shows "header_run p [digit_char d] = Some (p\<lparr>content_length := of_nat (10 * n + d), nread := nread p + 1\<rparr>)"
proof -
  have "unat (of_nat n :: u64) = n" using assms(5) by (simp add: unat_of_nat take_bit_nat_eq_self)
  then have "\<not> (- 1 - 10) div 10 < (of_nat n :: u64)" using assms(5) by (simp add: word_less_nat_alt)
  then have "byte_code 1 (digit_char d) (p\<lparr>nread := nread p + 1\<rparr>) =
      (p\<lparr>content_length := of_nat (10 * n + d), nread := nread p + 1\<rparr>, [], Break_Byte)"
    using assms digit_char_eq [OF assms(3)] digit_char_plain [OF assms(3)]
    by (simp add: byte_code_def step_header_value_def value_byte_def mult.commute)
  from run_byte [OF this, of "[]"] show ?thesis by (simp add: assms(1) parsing_header_def)
qed

lemma number_run:
  "parser_state p = s_header_value_start \<Longrightarrow> hstate p = h_content_length \<Longrightarrow> n < 10 ^ 18 \<Longrightarrow>
   header_run p (dec n) =
     Some (p\<lparr>parser_state := s_header_value, match_index := 0, content_length := of_nat n,
             nread := nread p + of_nat (length (dec n))\<rparr>)"
proof (induction n rule: dec.induct)
  case (1 n)
  show ?case
  proof (cases "n < 10")
    case True
    then show ?thesis using first_digit_run [OF "1.prems"(1,2) True] by (simp add: dec.simps [of n])
  next
    case False
    let ?q = "p\<lparr>parser_state := s_header_value, match_index := 0, content_length := of_nat (n div 10),
             nread := nread p + of_nat (length (dec (n div 10)))\<rparr>"
    have "header_run p (dec (n div 10)) = Some ?q" using False 1 by simp
    moreover have "header_run ?q [digit_char (n mod 10)] =
        Some (?q\<lparr>content_length := of_nat (10 * (n div 10) + n mod 10), nread := nread ?q + 1\<rparr>)"
      using "1.prems" by (intro next_digit_run) (auto simp: less_mult_imp_div_less)
    ultimately have "header_run p (dec (n div 10) @ [digit_char (n mod 10)]) =
        Some (?q\<lparr>content_length := of_nat (10 * (n div 10) + n mod 10), nread := nread ?q + 1\<rparr>)"
      by (rule header_run_then)
    then show ?thesis using False by (simp add: dec.simps [of n] algebra_simps del: of_nat_add of_nat_mult)
  qed
qed

lemma length_header_run:
  assumes "header_due (parser_state p)" and "n < 10 ^ 18"
  shows "header_run p (header_line (''Content-Length'', dec n)) =
    Some (p\<lparr>parser_state := s_header_value_lws, hstate := h_content_length, match_index := 0,
            content_length := of_nat n,
            nread := nread p + of_nat (length (header_line (''Content-Length'', dec n)))\<rparr>)"
proof -
  let ?p = "p\<lparr>parser_state := s_header_field, hstate := h_content_length, match_index := 13, nread := nread p + 14\<rparr>"
  let ?q = "?p\<lparr>parser_state := s_header_value_start, nread := nread ?p + 2\<rparr>"
  let ?r = "?q\<lparr>parser_state := s_header_value, match_index := 0, content_length := of_nat n,
             nread := nread ?q + of_nat (length (dec n))\<rparr>"
  have colon: "header_run ?p '': '' = Some ?q" by (rule colon_run) simp
  have number: "header_run ?q (dec n) = Some ?r" by (rule number_run) (use assms(2) in simp_all)
  have end_line: "header_run ?r crlf = Some (?r\<lparr>parser_state := s_header_value_lws, nread := nread ?r + 2\<rparr>)"
    by (rule line_end_run) simp_all
  have "header_run p (''Content-Length'' @ '': '' @ dec n @ crlf) =
      Some (?r\<lparr>parser_state := s_header_value_lws, nread := nread ?r + 2\<rparr>)"
    by (intro header_run_then [OF length_name_run [OF assms(1)]] header_run_then [OF colon] header_run_then [OF number] end_line)
  then show ?thesis by (simp add: crlf_def algebra_simps)
qed

section \<open>Requests\<close>

text \<open>The line of a request and its headers, a request without a body, and one with a body.\<close>

definition request_head :: "http_method \<Rightarrow> string \<Rightarrow> (string \<times> string) list \<Rightarrow> string" where
  "request_head m url hs = http_method_str m @ '' '' @ url @ '' HTTP/1.1'' @ crlf @ concat (map header_line hs)"

definition http_request :: "http_method \<Rightarrow> string \<Rightarrow> (string \<times> string) list \<Rightarrow> string" where
  "http_request m url hs = request_head m url hs @ crlf"

definition http_request_with :: "http_method \<Rightarrow> string \<Rightarrow> (string \<times> string) list \<Rightarrow> string \<Rightarrow> string" where
  "http_request_with m url hs body =
     request_head m url hs @ header_line (''Content-Length'', dec (length body)) @ crlf @ body"

text \<open>The parser after the line of a request, up to what the headers leave behind.\<close>

definition request_parser :: "http_method \<Rightarrow> http_parser \<Rightarrow> bool" where
  "request_parser m q \<longleftrightarrow>
     header_due (parser_state q) \<and> http_type q = HTTP_REQUEST \<and> flags q = 0 \<and> http_major q = 1 \<and> http_minor q = 1 \<and>
     req_method q = m"

lemma head_feed:
  assumes "m \<noteq> HTTP_CONNECT" and "path_ok url" and "\<forall>h\<in>set hs. plain_header h"
    and "length (request_head m url hs) \<le> 81920"
  obtains q where "\<And>cs. feed (http_parser_init HTTP_REQUEST) (request_head m url hs @ cs) = feed q cs"
    and "request_parser m q" and "content_length q = - 1" and "nread q = of_nat (length (request_head m url hs))"
    and "parser_inv 0 q" and "\<not> upgrade q"
proof -
  let ?i = "http_parser_init HTTP_REQUEST"
  let ?l = "length (http_method_str m) + 1"
  let ?m = "after_method m ?l"
  let ?u = "?m\<lparr>parser_state := s_req_http_start, nread := nread ?m + of_nat (length url + 1)\<rparr>"
  let ?v = "?u\<lparr>parser_state := s_header_field_start, http_major := 1, http_minor := 1, nread := nread ?u + 10\<rparr>"
  note init = init_ready [of HTTP_REQUEST]
  note m = feed_keeps [OF init feed_method [of m]]
  have url: "header_run ?m (url @ '' '') = Some ?u"
    using assms(1,2) by (intro path_run) (simp_all add: after_method_def)
  have version: "header_run ?u (''HTTP/1.1'' @ crlf) = Some ?v" by (rule version_run) simp
  obtain q where q: "header_run ?v (concat (map header_line hs)) = Some q" "header_due (parser_state q)"
    "q = ?v\<lparr>parser_state := parser_state q, hstate := hstate q, match_index := match_index q,
      nread := nread ?v + of_nat (length (concat (map header_line hs)))\<rparr>"
    using plain_headers_run [OF assms(3), of ?v] by (auto simp: header_due_def)
  let ?rest = "(url @ '' '') @ (''HTTP/1.1'' @ crlf) @ concat (map header_line hs)"
  have run: "header_run ?m ?rest = Some q"
    by (intro header_run_then [OF url] header_run_then [OF version] q(1))
  have head: "request_head m url hs = (http_method_str m @ '' '') @ ?rest" by (simp add: request_head_def)
  have count: "nread ?m = of_nat ?l" by (simp add: after_method_def)
  have fits: "?l + length ?rest \<le> 81920" using assms(4) by (simp add: head)
  note rest = header_run_feed [OF m count fits run]
  have all: "feed ?i (request_head m url hs @ cs) = feed q cs" for cs
    using feed_append [of ?i "http_method_str m @ '' ''" "?rest @ cs"] rest(1) [of cs]
    by (simp only: head append.assoc feed_method option.case prod.case) (simp split: option.split)
  have "feed ?i (request_head m url hs) = Some (q, [])" using all [of "[]"] by simp
  from feed_keeps [OF init this] have "parser_inv 0 q" "\<not> upgrade q" .
  moreover have "request_parser m q" "content_length q = - 1"
    using q(2) by (simp add: request_parser_def, subst (1 2 3 4 5) q(3), simp_all add: after_method_def http_parser_init_def)
      (subst q(3), simp add: after_method_def)
  moreover have "nread q = of_nat (length (request_head m url hs))" using rest(2) by (simp add: head)
  ultimately show thesis using all by (intro that)
qed

text \<open>The empty line: the end of the message when no body follows, the start of the body otherwise.\<close>

lemma empty_line:
  assumes "request_parser m p" and "parser_inv 0 p" and "\<not> upgrade p"
    and "nread p = of_nat n" and "n + 2 \<le> 81920"
    and "\<And>k. settle 5 LF (p\<lparr>parser_state := s_headers_almost_done, nread := k\<rparr>) = (q, evs, True)"
  shows "feed p (crlf @ cs) =
    (case feed q cs of None \<Rightarrow> None | Some (q, seen) \<Rightarrow> Some (q, client_view [] evs @ seen))"
proof -
  let ?p = "p\<lparr>parser_state := s_headers_almost_done, nread := nread p + 1\<rparr>"
  have cr: "header_run p [CR] = Some ?p"
    using assms(1) unfolding request_parser_def header_due_def
    by (elim conjE insertE)
      (simp_all add: header_run.simps(2) settle_numeral byte_code_def step_header_field_start_def step_header_value_lws_def
        goto_state_def parsing_header_def)
  have fits: "n + length [CR] \<le> 81920" using assms(5) by simp
  note cr_feed = header_run_feed [OF assms(2,3,4) fits cr]
  have "feed p [CR] = Some (?p, [])" using cr_feed(1) [of "[]"] by simp
  note inv = feed_keeps [OF assms(2,3) this]
  have "feed ?p (LF # cs) =
      (case feed q cs of None \<Rightarrow> None | Some (q', seen) \<Rightarrow> Some (q', client_view [] evs @ seen))"
    using assms(4,5,6) by (intro feed_byte [OF inv, where n = "n + 1"]) (simp_all add: parsing_header_def)
  then show ?thesis using cr_feed(1) [of "LF # cs"] by (simp add: crlf_def)
qed

lemmas empty_line_steps = settle_numeral byte_code_def step_headers_almost_done_def step_headers_done_def has_flag_def Let_def
  request_parser_def goto_state_def complete_message_def new_message_def http_should_keep_alive_def
  http_message_needs_eof_def start_state_def

lemma settle_no_body:
  "request_parser m p \<Longrightarrow> \<not> upgrade p \<Longrightarrow> m \<noteq> HTTP_CONNECT \<Longrightarrow> content_length p = - 1 \<or> content_length p = 0 \<Longrightarrow>
   settle 5 LF (p\<lparr>parser_state := s_headers_almost_done, nread := k\<rparr>) =
     (p\<lparr>parser_state := s_start_req, nread := 0\<rparr>, [On_Message_Complete m], True)"
  by (auto simp: empty_line_steps)

lemma settle_body:
  "request_parser m p \<Longrightarrow> \<not> upgrade p \<Longrightarrow> m \<noteq> HTTP_CONNECT \<Longrightarrow> content_length p \<noteq> - 1 \<Longrightarrow> content_length p \<noteq> 0 \<Longrightarrow>
   settle 5 LF (p\<lparr>parser_state := s_headers_almost_done, nread := k\<rparr>) =
     (p\<lparr>parser_state := s_body_identity, nread := 0\<rparr>, [], True)"
  by (auto simp: empty_line_steps)

lemma request_fed:
  assumes "m \<noteq> HTTP_CONNECT" and "path_ok url" and "\<forall>h\<in>set hs. plain_header h"
    and "length (http_request m url hs) \<le> 81920"
  shows "\<exists>q. feed (http_parser_init HTTP_REQUEST) (http_request m url hs) = Some (q, [Message_Done m]) \<and>
    parser_state q = s_start_req"
proof -
  have fits: "length (request_head m url hs) + 2 \<le> 81920" using assms(4) by (simp add: http_request_def crlf_def)
  then have "length (request_head m url hs) \<le> 81920" by simp
  from head_feed [OF assms(1-3) this] obtain p
    where p: "\<And>cs. feed (http_parser_init HTTP_REQUEST) (request_head m url hs @ cs) = feed p cs"
      "request_parser m p" "content_length p = - 1" "nread p = of_nat (length (request_head m url hs))"
      "parser_inv 0 p" "\<not> upgrade p" by blast
  let ?q = "p\<lparr>parser_state := s_start_req, nread := 0\<rparr>"
  have "feed p (crlf @ []) =
      (case feed ?q [] of None \<Rightarrow> None | Some (q, seen) \<Rightarrow> Some (q, client_view [] [On_Message_Complete m] @ seen))"
    using settle_no_body [OF p(2,6) assms(1)] p(3) by (intro empty_line [OF p(2,5,6,4) fits]) simp
  then show ?thesis using p(1) [of crlf] by (simp add: http_request_def)
qed

lemma request_with_fed:
  assumes "m \<noteq> HTTP_CONNECT" and "path_ok url" and "\<forall>h\<in>set hs. plain_header h"
    and "length (http_request_with m url hs body) - length body \<le> 81920" and "length body < 10 ^ 18"
  shows "\<exists>q. feed (http_parser_init HTTP_REQUEST) (http_request_with m url hs body) =
      Some (q, map Body_Byte body @ [Message_Done m]) \<and> parser_state q = s_start_req"
proof -
  let ?line = "header_line (''Content-Length'', dec (length body))"
  have fits: "length (request_head m url hs) + length ?line + 2 \<le> 81920"
    using assms(4) by (simp add: http_request_with_def crlf_def)
  then have "length (request_head m url hs) \<le> 81920" by simp
  from head_feed [OF assms(1-3) this] obtain p
    where p: "\<And>cs. feed (http_parser_init HTTP_REQUEST) (request_head m url hs @ cs) = feed p cs"
      "request_parser m p" "content_length p = - 1" "nread p = of_nat (length (request_head m url hs))"
      "parser_inv 0 p" "\<not> upgrade p" by blast
  let ?p = "p\<lparr>parser_state := s_header_value_lws, hstate := h_content_length, match_index := 0,
            content_length := of_nat (length body), nread := nread p + of_nat (length ?line)\<rparr>"
  have line: "header_run p ?line = Some ?p"
    using p(2) assms(5) by (intro length_header_run) (simp_all add: request_parser_def)
  have "length (request_head m url hs) + length ?line \<le> 81920" using fits by simp
  note line_feed = header_run_feed [OF p(5,6,4) this line]
  have "feed p ?line = Some (?p, [])" using line_feed(1) [of "[]"] by simp
  note inv = feed_keeps [OF p(5,6) this]
  have req: "request_parser m ?p" using p(2) by (simp add: request_parser_def header_due_def)
  have len: "unat (of_nat (length body) :: u64) = length body"
    using assms(5) by (simp add: unat_of_nat take_bit_nat_eq_self)
  have whole: "feed (http_parser_init HTTP_REQUEST) (http_request_with m url hs body) = feed ?p (crlf @ body)"
    using p(1) [of "?line @ crlf @ body"] line_feed(1) [of "crlf @ body"]
    by (simp only: http_request_with_def append.assoc)
  show ?thesis
  proof (cases "body = []")
    case True
    let ?q = "?p\<lparr>parser_state := s_start_req, nread := 0\<rparr>"
    have "feed ?p (crlf @ []) =
        (case feed ?q [] of None \<Rightarrow> None | Some (q, seen) \<Rightarrow> Some (q, client_view [] [On_Message_Complete m] @ seen))"
      using settle_no_body [OF req inv(2) assms(1)] True
      by (intro empty_line [OF req inv line_feed(2) fits]) simp
    then show ?thesis using whole True by simp
  next
    case False
    let ?q = "?p\<lparr>parser_state := s_body_identity, nread := 0\<rparr>"
    let ?r = "?q\<lparr>content_length := 0, parser_state := s_message_done\<rparr>"
    have nonzero: "(of_nat (length body) :: u64) \<noteq> 0" using len False by (metis length_0_conv unsigned_0)
    have not_max: "(of_nat (length body) :: u64) \<noteq> - 1" using len assms(5) unat_max by auto
    have "feed ?p (crlf @ body) =
        (case feed ?q body of None \<Rightarrow> None | Some (q, seen) \<Rightarrow> Some (q, client_view [] [] @ seen))"
      using settle_body [OF req inv(2) assms(1)] nonzero not_max
      by (intro empty_line [OF req inv line_feed(2) fits]) simp
    moreover have "feed ?q body = turn_outcome body ?q"
      using inv nonzero not_max False len by (intro feed_piece) (auto simp: parser_inv_def jumps_iff)
    moreover have "turn_outcome body ?q =
        Some (?r\<lparr>parser_state := new_message ?r\<rparr>, map Body_Byte body @ [Message_Done m])"
      using req by (simp add: turn_outcome_def jumps_iff take_body_def request_parser_def)
    moreover have "new_message ?r = s_start_req"
      using p(2) by (simp add: new_message_def http_should_keep_alive_def http_message_needs_eof_def start_state_def
          request_parser_def has_flag_def)
    ultimately show ?thesis using whole by simp
  qed
qed

section \<open>Requests in pieces\<close>

lemma piece_length: "d \<in> set ds \<Longrightarrow> length d \<le> length (concat ds)"
  by (induction ds) auto

lemma pieces_of:
  assumes "parser_inv 0 p" and "\<not> upgrade p" and "[] \<notin> set ds" and "length (concat ds) < 2 ^ 64"
  shows "parse_pieces p ds = feed p (concat ds)"
proof (rule parse_pieces_feed [OF assms(1,2)])
  show "\<forall>d\<in>set ds. d \<noteq> [] \<and> length d < 2 ^ 64"
    using assms(3,4) piece_length [of _ ds] by (metis le_less_trans)
qed

lemma pieces_whole:
  assumes "parser_inv 0 p" and "\<not> upgrade p" and "[] \<notin> set ds" and "ds \<noteq> []" and "length (concat ds) < 2 ^ 64"
  shows "parse_pieces p ds = parse_text p (concat ds)"
proof -
  have "concat ds \<noteq> []" using assms(3,4) by (cases ds) auto
  then show ?thesis using pieces_of [OF assms(1-3,5)] parse_text_feed [OF assms(1,2) _ assms(5)] by simp
qed

lemma request_pieces:
  assumes "m \<noteq> HTTP_CONNECT" and "path_ok url" and "\<forall>h\<in>set hs. plain_header h"
    and "length (http_request m url hs) \<le> 81920" and "concat ds = http_request m url hs" and "[] \<notin> set ds"
  shows "\<exists>q. parse_pieces (http_parser_init HTTP_REQUEST) ds = Some (q, [Message_Done m]) \<and> parser_state q = s_start_req"
  using request_fed [OF assms(1-4)] pieces_of [OF init_ready assms(6)] assms(4,5) by simp

lemma request_with_pieces:
  assumes "m \<noteq> HTTP_CONNECT" and "path_ok url" and "\<forall>h\<in>set hs. plain_header h"
    and "length (http_request_with m url hs body) - length body \<le> 81920" and "length body < 10 ^ 18"
    and "concat ds = http_request_with m url hs body" and "[] \<notin> set ds"
  shows "\<exists>q. parse_pieces (http_parser_init HTTP_REQUEST) ds = Some (q, map Body_Byte body @ [Message_Done m]) \<and>
    parser_state q = s_start_req"
proof -
  have "length (http_request_with m url hs body) < 2 ^ 64" using assms(4,5) by simp
  then show ?thesis using request_with_fed [OF assms(1-5)] pieces_of [OF init_ready assms(7)] assms(6) by simp
qed

end
