(* ===== verification/Requests.thy ===== *)
theory Requests
  imports Recovery Calm Usb_Monitor Http_Requests
begin

text \<open>
  Whole requests: what a client is sent for a GET and for a POST with one command. The calls of the
  library and of the kernel stand in the trace, from which the sent texts are read off.
\<close>

section \<open>The texts that were sent\<close>

text \<open>Oldest first, with the descriptor.\<close>

fun sent :: "trace \<Rightarrow> (int \<times> string) list" where
  "sent [] = []"
| "sent ((Send fd t, r) # tr) = sent tr @ [(fd, t)]"
| "sent (_ # tr) = sent tr"

lemma sent_sys_do [simp]:
  "sent (trace (sys_do e (Send fd t) s)) = sent (trace s) @ [(fd, t)]"
  "sent (trace (sys_do e Json_Alloc s)) = sent (trace s)"
  "sent (trace (sys_do e (Recv fd) s)) = sent (trace s)"
  "sent (trace (sys_do e (Close_Fd fd) s)) = sent (trace s)"
  by (simp_all add: sys_do_trace)

lemma json_allocs_sent: "sent (trace (snd (json_allocs e n s))) = sent (trace s)"
  by (induction n arbitrary: s) (simp_all add: json_alloc_eq)

lemma add_paths_sent: "usb_monitor_client_add_paths_json e p i s = Inr (j, s') \<Longrightarrow> sent (trace s') = sent (trace s)"
  by (auto simp: usb_monitor_client_add_paths_json_def Let_def case_prod_beta and_then_eq_Inr json_allocs_sent
      simp del: json_allocs.simps split: if_splits option.splits)

lemma port_paths_sent: "port_paths_json e p n i s = Inr (j, s') \<Longrightarrow> sent (trace s') = sent (trace s)"
proof (induction n arbitrary: i s j s')
  case (Suc n)
  then show ?case by (force simp: and_then_eq_Inr dest!: add_paths_sent split: if_splits option.splits)
qed simp

lemma ports_json_sent: "ports_json e ps s = Inr (j, s') \<Longrightarrow> sent (trace s') = sent (trace s)"
proof (induction ps arbitrary: s j s')
  case (Cons p ps)
  then show ?case
    by (force simp: and_then_eq_Inr simp del: port_paths_json.simps dest!: port_paths_sent split: if_splits option.splits)
qed simp

lemma get_json_sent: "usb_monitor_client_get_json e s = Inr (j, s') \<Longrightarrow> sent (trace s') = sent (trace s)"
  using json_allocs_sent [of e 2 s]
  by (auto simp: usb_monitor_client_get_json_def Let_def case_prod_beta and_then_eq_Inr simp del: json_allocs.simps
      dest!: ports_json_sent split: if_splits)

lemma close_sent: "usb_monitor_client_close e i s = Inr s' \<Longrightarrow> sent (trace s') = sent (trace s) \<and> heap s' = heap s"
  by (auto simp: usb_monitor_client_close_def with_client_def split: option.splits)

section \<open>GET\<close>

text \<open>The reply to a GET: the header, then the state of the ports.\<close>

lemma header_not_empty: "insert_http_header a b \<noteq> []"
  by (simp add: insert_http_header_def)

lemma handle_get_replies:
  assumes "json_allocates e" and "\<forall>p\<in>set (port_list s). port_shown_ok (heap s p)"
    and "\<forall>tr t. t \<noteq> [] \<longrightarrow> 0 < answer e tr (Send (client_fd c) t)"
  obtains s' where "usb_monitor_client_handle_get e c s = Inr s'" and "heap s' = heap s"
    and "clients s' = clients s" and "clients_map s' = clients_map s"
    and "sent (trace s') = sent (trace s) @
           [(client_fd c, insert_http_header 1 0),
            (client_fd c, json_to_string (jlib e) (JObject [(''ports'', JArray (shown (heap s) (port_list s)))]))]"
proof -
  let ?j = "JObject [(''ports'', JArray (shown (heap s) (port_list s)))]"
  obtain t where t: "usb_monitor_client_get_json e s = Inr (Some ?j, s\<lparr>trace := t\<rparr>)"
    using get_json_ok [OF assms(1,2)] by blast
  have "usb_monitor_client_handle_get e c s = Inr (sys_do e (Send (client_fd c) (json_to_string (jlib e) ?j))
      (sys_do e (Send (client_fd c) (insert_http_header 1 0)) (s\<lparr>trace := t\<rparr>)))"
    using assms(3) by (simp add: usb_monitor_client_handle_get_def t socket_utility_send_def sys_call_eq header_not_empty)
  then show thesis
    by (rule that) (use get_json_sent [OF t] in \<open>simp_all\<close>)
qed

section \<open>POST\<close>

text \<open>The body of a POST with one command.\<close>

definition post_body :: "u8 list \<Rightarrow> u8 \<Rightarrow> json" where
  "post_body q cm = JObject [(''ports'', JArray [command (printed q) (int (unat cm))])]"

text \<open>A command that was refused is reported by a code, one that was taken by the state of the ports.\<close>

definition command_reply :: "env \<Rightarrow> http_client \<Rightarrow> int \<times> sys \<Rightarrow> sys result" where
  "command_reply e c = (\<lambda>(r, s).
     if r \<noteq> 0 then Inr (usb_monitor_client_send_code e c (if 100 < r then word_of_int r else 400) s)
     else post_reply e c s)"

lemma update_ports_command:
  assumes "json_lib_ok (jlib e)" and "\<forall>p\<in>set (port_list s). paths_intact (heap s p)"
    and "q \<noteq> []" and "length q \<le> 8"
    and "List.find (\<lambda>p. q \<in> set (port_paths (path (heap s p)))) (port_list s) = Some p"
    and "cm \<le> CMD_DISABLE" and "takes_command (heap s p) cm"
  shows "update_ports_loop e [command (printed q) (int (unat cm))] f s = port_update e p cm s"
proof -
  have "update_entry e [(''path'', JString (printed q)), (''cmd'', JInt (int (unat cm)))] (None, 0) = (Some (printed q), cm)"
    using update_entry_command [OF assms(1), of "int (unat cm)"] unsigned_less [of cm] by simp
  moreover have "and_then r (\<lambda>(x, s). and_then (Inr ((x, True), s)) (\<lambda>((f, go), s). if go then Inr (f, s) else Inr (f, s))) = r"
    for r :: "(int \<times> sys) result" by (cases r) auto
  ultimately show ?thesis
    using update_one_reaches [OF assms(2-)]
    by (simp add: command_def json_members_def and_then_assoc case_prod_beta del: update_entry.simps)
qed

lemma handle_post_command:
  assumes "body_offset c = Some off" and "body_text c off = Inr t"
    and "json_tokener_parse (jlib e) t = Some (post_body q cm)"
    and "update_ports_loop e [command (printed q) (int (unat cm))] 0 s = port_update e p cm s"
  shows "usb_monitor_client_handle_post e c s = and_then (port_update e p cm s) (command_reply e c)"
  using assms(4)
  by (simp add: usb_monitor_client_handle_post_def assms(1-3) post_body_def json_members_def
      usb_monitor_client_update_ports_def json_elements_def command_reply_def del: update_ports_loop.simps)

text \<open>The microcontroller is busy from the moment it is asked for its mask until it has answered the command.\<close>

lemma lanner_busy:
  assumes "port_type (heap s p) = PORT_TYPE_LANNER"
    and "mcu_state (shared s (shared_info (heap s p))) \<notin> {LANNER_MCU_IDLE, LANNER_MCU_PENDING}"
  shows "port_update e p cm s = Inr (503, s)"
  using assms by (simp add: port_update_def lanner_update_port_def Let_def)

lemma send_code_sent:
  "sent (trace (usb_monitor_client_send_code e c code s)) = sent (trace s) @ [(client_fd c, insert_http_header_code 1 0 code)]"
  "usb_monitor_client_send_code e c code s = s\<lparr>trace := trace (usb_monitor_client_send_code e c code s)\<rparr>"
  by (simp_all add: usb_monitor_client_send_code_def socket_utility_send_def sys_call_def Let_def)

section \<open>Requests as texts\<close>

text \<open>The callbacks of a text in which one message ends and no byte of a body lies.\<close>

lemma silent_events:
  "client_view data evs = [] \<Longrightarrow>
   \<exists>f. (\<forall>c. f c = c\<lparr>body_offset := body_offset (f c)\<rparr>) \<and> http_events e i evs s = Inr (client_upd i f s)"
proof (induction evs arbitrary: s)
  case Nil
  show ?case by (intro exI [of _ id]) (simp add: client_upd_def option.map_ident)
next
  case (Cons ev evs)
  have rest: "client_view data evs = []" "event_seen data ev = []" using Cons.prems by simp_all
  show ?case
  proof (cases "\<exists>at n. ev = On_Body at n")
    case True
    then obtain at n where ev: "ev = On_Body at n" by blast
    let ?g = "\<lambda>c. if body_offset c = None then c\<lparr>body_offset := Some at\<rparr> else c"
    obtain f where f: "\<forall>c. f c = c\<lparr>body_offset := body_offset (f c)\<rparr>"
      "http_events e i evs (client_upd i ?g s) = Inr (client_upd i f (client_upd i ?g s))"
      using Cons.IH [OF rest(1), of "client_upd i ?g s"] by blast
    have "\<forall>c. (f \<circ> ?g) c = c\<lparr>body_offset := body_offset ((f \<circ> ?g) c)\<rparr>"
      using f(1) by (auto simp: comp_def) (metis http_client.select_convs(2) http_client.surjective http_client.update_convs(2))
    moreover have "client_upd i f (client_upd i ?g s) = client_upd i (f \<circ> ?g) s"
      by (simp add: client_upd_def option.map_comp)
    ultimately show ?thesis
      using f(2) by (intro exI [of _ "f \<circ> ?g"]) (simp add: ev usb_monitor_client_on_body_def comp_def)
  next
    case False
    then have "http_events e i (ev # evs) s = http_events e i evs s" using rest(2) by (cases ev) auto
    then show ?thesis using Cons.IH [OF rest(1)] by simp
  qed
qed

lemma http_events_append:
  "http_events e i (A @ B) s = and_then (http_events e i A s) (http_events e i B)"
proof (induction A arbitrary: s)
  case (Cons ev A)
  then have "http_events e i (A @ B) = (\<lambda>s. and_then (http_events e i A s) (http_events e i B))" by (intro ext)
  then show ?case by (cases ev) (simp_all add: and_then_assoc)
qed simp

lemma events_split:
  assumes "client_view data evs = [Message_Done m]"
  obtains A B where "evs = A @ On_Message_Complete m # B" and "client_view data A = []" and "client_view data B = []"
proof -
  have "\<exists>A B. evs = A @ On_Message_Complete m # B \<and> client_view data A = [] \<and> client_view data B = []"
    using assms
  proof (induction evs)
    case Nil
    then show ?case by simp
  next
    case (Cons ev evs)
    show ?case
    proof (cases "event_seen data ev = []")
      case True
      then obtain A B where "evs = A @ On_Message_Complete m # B" "client_view data A = []" "client_view data B = []"
        using Cons by auto
      then show ?thesis using True by (intro exI [of _ "ev # A"] exI [of _ B]) simp
    next
      case False
      then have "ev = On_Message_Complete m" "client_view data evs = []"
        using Cons.prems by (cases ev; auto simp: Cons_eq_append_conv append_eq_Cons_conv map_eq_Cons_conv)+
      then show ?thesis by (intro exI [of _ "[]"] exI [of _ evs]) simp
    qed
  qed
  then show thesis using that by blast
qed

text \<open>The handler of a complete request.\<close>

definition request_handler :: "env \<Rightarrow> http_method \<Rightarrow> http_client \<Rightarrow> sys \<Rightarrow> sys result" where
  "request_handler e m c s =
     (if m = HTTP_GET then usb_monitor_client_handle_get e c s
      else if m = HTTP_POST then usb_monitor_client_handle_post e c s
      else Inr (usb_monitor_client_send_code e c 405 s))"

text \<open>
  A request that one read gets, from a client that has sent nothing before: its handler is called once and
  the client is closed.
\<close>

lemma whole_request:
  assumes "slots_ok s" and "i < MAX_HTTP_CLIENTS" and "\<not> bit (clients_map s) i"
    and "clients s i = Some c" and "recv_progress c = 0" and "recv_buf c = []"
    and "parser c = http_parser_init HTTP_REQUEST"
    and "input_data e (trace s) = http_request m url hs" and "length (http_request m url hs) \<le> MAX_REQUEST_SIZE"
    and "0 < answer e (trace s) (Recv (client_fd c))"
    and "m \<noteq> HTTP_CONNECT" and "path_ok url" and "\<forall>h\<in>set hs. plain_header h"
    and handled: "\<And>c1 s1. client_fd c1 = client_fd c \<Longrightarrow> heap s1 = heap s \<Longrightarrow> port_list s1 = port_list s \<Longrightarrow>
      sent (trace s1) = sent (trace s) \<Longrightarrow>
      \<exists>s2. request_handler e m c1 s1 = Inr s2 \<and> clients s2 = clients s1 \<and> clients_map s2 = clients_map s1 \<and>
        heap s2 = heap s \<and> sent (trace s2) = sent (trace s) @ txts"
  shows "\<exists>s'. usb_monitor_client_cb e i s = Inr s' \<and> slots_ok s' \<and> bit (clients_map s') i \<and> heap s' = heap s \<and>
           sent (trace s') = sent (trace s) @ txts"
proof -
  define b where "b = http_request m url hs"
  have b: "b \<noteq> []" "length b < 2 ^ 64" "length b \<le> 4096"
    using assms(9) by (cases m; simp add: b_def http_request_def request_head_def)+
  have init: "parser_inv 0 (parser c)" "\<not> upgrade (parser c)"
    using parser_ok_init [of HTTP_REQUEST] by (simp_all add: assms(7) parser_ok_def http_parser_init_def)
  obtain q0 where "feed (parser c) b = Some (q0, [Message_Done m])"
    using request_fed [OF assms(11-13)] b(3) by (auto simp: b_def assms(7))
  then obtain q evs where run: "http_parser_execute client_settings (parser c) b = Inr (q, evs, length b)"
      "http_errno q = HPE_OK" "client_view b evs = [Message_Done m]"
    using execute_feed [OF init b(1,2)] by auto
  obtain A B where evs: "evs = A @ On_Message_Complete m # B" "client_view b A = []" "client_view b B = []"
    by (rule events_split [OF run(3)])
  define s1 where "s1 = client_upd i (\<lambda>c. c\<lparr>recv_buf := b, recv_progress := recv_progress c + of_nat (length b), parser := q\<rparr>)
      (sys_do e (Recv (client_fd c)) s)"
  obtain f where f: "\<And>c. f c = c\<lparr>body_offset := body_offset (f c)\<rparr>" "http_events e i A s1 = Inr (client_upd i f s1)"
    using silent_events [OF evs(2), of e i s1] by blast
  define c2 where "c2 = f (c\<lparr>recv_buf := b, recv_progress := of_nat (length b), parser := q\<rparr>)"
  have c2: "client_fd c2 = client_fd c" "parser c2 = q" "req_done c2 = req_done c" "idx c2 = idx c"
    by (simp_all add: c2_def, (subst f(1), simp)+)
  define s2 where "s2 = client_upd i f s1"
  have s2: "clients s2 = (clients s)(i := Some c2)" "heap s2 = heap s" "port_list s2 = port_list s"
      "clients_map s2 = clients_map s" "sent (trace s2) = sent (trace s)"
    using assms(4,5) by (simp_all add: s2_def s1_def client_upd_def c2_def)
  obtain s3 where s3: "request_handler e m c2 s2 = Inr s3" "clients s3 = clients s2" "clients_map s3 = clients_map s2"
      "heap s3 = heap s" "sent (trace s3) = sent (trace s) @ txts"
    using handled [OF c2(1) s2(2,3,5)] by blast
  define s4 where "s4 = client_upd i (\<lambda>c. c\<lparr>req_done := True\<rparr>) s3"
  obtain g where g: "\<And>c. g c = c\<lparr>body_offset := body_offset (g c)\<rparr>" "http_events e i B s4 = Inr (client_upd i g s4)"
    using silent_events [OF evs(3), of e i s4] by blast
  define c5 where "c5 = g (c2\<lparr>req_done := True\<rparr>)"
  have c5: "client_fd c5 = client_fd c" "parser c5 = q" "req_done c5" "idx c5 = idx c"
    by (simp_all add: c5_def, (subst g(1), simp add: c2)+)
  define s5 where "s5 = client_upd i g s4"
  have s5: "clients s5 = (clients s)(i := Some c5)" "heap s5 = heap s" "clients_map s5 = clients_map s"
      "sent (trace s5) = sent (trace s) @ txts"
    by (simp_all add: s5_def s4_def client_upd_def s3 s2 c5_def)
  have ok: "slots_ok s5" "\<not> bit (clients_map s5) i" using assms(1-4) by (auto simp: slots_ok_def s5 c5(4))
  obtain s' where s': "usb_monitor_client_close e i s5 = Inr s'" "slots_ok s'" "bit (clients_map s') i"
    by (rule close_slots [OF ok(1) assms(2) ok(2), of e]) blast
  have all_events: "http_events e i evs s1 = Inr s5"
  proof -
    have "usb_monitor_client_on_complete e i m s2 = Inr s4"
      using s3(1) by (simp add: usb_monitor_client_on_complete_def with_client_def s2(1) request_handler_def s4_def)
    then show ?thesis using f(2) g(2) by (simp add: evs(1) http_events_append s2_def s5_def)
  qed
  have "usb_monitor_client_cb e i s = usb_monitor_client_close e i s5"
    using assms(4-6,8,10) b run(1,2) all_events s5(1) c5(2,3)
    by (simp add: usb_monitor_client_cb_def with_client_def sys_call_eq Let_def s1_def b_def [symmetric] not_le)
  with s' close_sent [OF s'(1)] show ?thesis
    by (intro exI [of _ s']) (simp add: s5)
qed

text \<open>A GET, and a method the interface does not know.\<close>

lemma get_handled:
  assumes "json_allocates e" and "\<forall>p\<in>set (port_list s). port_shown_ok (heap s p)"
    and "\<forall>tr t. t \<noteq> [] \<longrightarrow> 0 < answer e tr (Send (client_fd c) t)"
    and s1: "client_fd c1 = client_fd c" "heap s1 = heap s" "port_list s1 = port_list s"
      "sent (trace s1) = sent (trace s)"
  shows "\<exists>s2. request_handler e HTTP_GET c1 s1 = Inr s2 \<and> clients s2 = clients s1 \<and> clients_map s2 = clients_map s1 \<and>
    heap s2 = heap s \<and> sent (trace s2) = sent (trace s) @
      [(client_fd c, insert_http_header 1 0),
       (client_fd c, json_to_string (jlib e) (JObject [(''ports'', JArray (shown (heap s) (port_list s)))]))]"
proof -
  obtain s2 where "usb_monitor_client_handle_get e c1 s1 = Inr s2" "heap s2 = heap s1" "clients s2 = clients s1"
      "clients_map s2 = clients_map s1"
      "sent (trace s2) = sent (trace s1) @
         [(client_fd c1, insert_http_header 1 0),
          (client_fd c1, json_to_string (jlib e) (JObject [(''ports'', JArray (shown (heap s1) (port_list s1)))]))]"
    by (rule handle_get_replies [OF assms(1), of s1 c1]) (use assms(2,3) s1 in simp_all)
  then show ?thesis using s1 by (simp add: request_handler_def)
qed

lemma other_method_handled:
  assumes "m \<noteq> HTTP_GET" and "m \<noteq> HTTP_POST" and "client_fd c1 = client_fd c" and "heap s1 = heap s"
    and "sent (trace s1) = sent (trace s)"
  shows "\<exists>s2. request_handler e m c1 s1 = Inr s2 \<and> clients s2 = clients s1 \<and> clients_map s2 = clients_map s1 \<and>
    heap s2 = heap s \<and> sent (trace s2) = sent (trace s) @ [(client_fd c, insert_http_header_code 1 0 405)]"
  using assms send_code_sent(1) [of e c1 405 s1]
  by (subst (1) request_handler_def) (simp, subst (1 2 3) send_code_sent(2), simp)

end
