(* ===== verification/Lanner_Protocol.thy ===== *)
theory Lanner_Protocol
  imports Lanner_Handler
begin

text \<open>
  The protocol between the Lanner handler and the microcontroller as a state machine, and that
  every callback of the handler follows it.
\<close>

section \<open>The states of the microcontroller in order\<close>

text \<open>The order of the enumeration in the header; an update passes through the states in this order.\<close>

primrec mcu_num :: "mcu_state \<Rightarrow> nat" where
  "mcu_num LANNER_MCU_IDLE = 0"
| "mcu_num LANNER_MCU_PENDING = 1"
| "mcu_num LANNER_MCU_GET_VERSION = 2"
| "mcu_num LANNER_MCU_GET_DIGITAL_OUT = 3"
| "mcu_num LANNER_MCU_SET_DIGITAL_OUT = 4"
| "mcu_num LANNER_MCU_UPDATE_DONE = 5"

lemma mcu_num_eq [simp]: "mcu_num a = mcu_num b \<longleftrightarrow> a = b"
  by (cases a; cases b) simp_all

instantiation mcu_state :: linorder
begin

definition less_eq_mcu_state :: "mcu_state \<Rightarrow> mcu_state \<Rightarrow> bool" where
  "less_eq_mcu_state a b \<longleftrightarrow> mcu_num a \<le> mcu_num b"

definition less_mcu_state :: "mcu_state \<Rightarrow> mcu_state \<Rightarrow> bool" where
  "less_mcu_state a b \<longleftrightarrow> mcu_num a < mcu_num b"

instance
  by standard (auto simp: less_eq_mcu_state_def less_mcu_state_def)

end

lemmas mcu_order = less_eq_mcu_state_def less_mcu_state_def

section \<open>What the operations leave alone\<close>

text \<open>The part of the shared record that the protocol is about.\<close>

definition mcu_view :: "sys \<Rightarrow> nat \<Rightarrow> mcu_state \<times> u8" where
  "mcu_view s l = (mcu_state (shared s l), pending_ports_mask (shared s l))"

definition mcu_kept :: "nat \<Rightarrow> sys \<Rightarrow> sys \<Rightarrow> bool" where
  "mcu_kept l s s' \<longleftrightarrow> mcu_view s' l = mcu_view s l \<and> mcu_info s' = mcu_info s"

lemma mcu_kept_trans: "mcu_kept l s s' \<Longrightarrow> mcu_kept l s' s'' \<Longrightarrow> mcu_kept l s s''"
  by (simp add: mcu_kept_def)

lemma mcu_kept_upd [simp]:
  "mcu_kept l s (sys_do e c s') = mcu_kept l s s'" "mcu_kept l (sys_do e c s') s = mcu_kept l s' s"
  "mcu_kept l s (snd (backend_event_loop_update e c s')) = mcu_kept l s s'"
  "mcu_kept l s (store_cmd k txt s') = mcu_kept l s s'" "mcu_kept l (store_cmd k txt s') s = mcu_kept l s' s"
  "mcu_kept l s (s'\<lparr>timers := tms\<rparr>) = mcu_kept l s s'" "mcu_kept l (s'\<lparr>timers := tms\<rparr>) s = mcu_kept l s' s"
  "mcu_kept l s (s'\<lparr>timer_q := q\<rparr>) = mcu_kept l s s'"
  "mcu_kept l (snd (clock_ms e s')) s = mcu_kept l s' s"
  "mcu_kept l s s"
  by (auto simp: mcu_kept_def mcu_view_def store_cmd_def shared_upd_def backend_event_loop_update_def sys_call_eq
      clock_ms_def clock_gettime_def Let_def)

lemma mcu_kept_refl: "mcu_kept l s s"
  by simp

lemma mcu_kept_shared [simp]:
  assumes "\<And>sh. mcu_state (f sh) = mcu_state sh \<and> pending_ports_mask (f sh) = pending_ports_mask sh"
  shows "mcu_kept l s (shared_upd k f s') = mcu_kept l s s'" "mcu_kept l (shared_upd k f s') s = mcu_kept l s' s"
  using assms by (auto simp: mcu_kept_def mcu_view_def shared_upd_def)

lemma insert_timeout_mcu: "backend_insert_timeout t s = Inr s' \<Longrightarrow> mcu_kept l s s'"
  by (auto simp: backend_insert_timeout_def and_then_eq_Inr Let_def split: if_splits option.splits)

lemma private_timer_mcu: "lanner_handler_start_private_timer e k ms s = Inr s' \<Longrightarrow> mcu_kept l s s'"
  unfolding lanner_handler_start_private_timer_def Let_def case_prod_beta
  by (drule insert_timeout_mcu [where l = l]) simp

lemma write_cmd_mcu: "lanner_handler_write_cmd_buf e k s = Inr s' \<Longrightarrow> mcu_kept l s s'"
  by (auto simp: lanner_handler_write_cmd_buf_def sys_call_eq Let_def split: if_splits)

lemma set_digital_out_mcu: "lanner_handler_set_digital_out e k s = Inr s' \<Longrightarrow> mcu_kept l s s'"
  by (auto simp: lanner_handler_set_digital_out_def Let_def dest!: write_cmd_mcu [where l = l])

lemma get_digital_out_mcu: "lanner_handler_get_digital_out e s = Inr s' \<Longrightarrow> mcu_kept l s s'"
  by (auto simp: lanner_handler_get_digital_out_def with_mcu_info_def dest!: write_cmd_mcu [where l = l] split: option.splits)

lemma get_version_mcu: "lanner_handler_get_version e s = Inr s' \<Longrightarrow> mcu_kept l s s'"
  by (auto simp: lanner_handler_get_version_def with_mcu_info_def dest!: write_cmd_mcu [where l = l] split: option.splits)

lemma flush_mcu: "lanner_flush_mcu e k n s = Inr s' \<Longrightarrow> mcu_kept l s s'"
  by (induction n arbitrary: s) (fastforce simp: sys_call_eq split: if_splits)+

lemma open_mcu: "mcu_kept l s (snd (lanner_handler_open_mcu e k s))"
  by (simp add: lanner_handler_open_mcu_def sys_call_eq Let_def)


lemma mcu_keptD:
  assumes "mcu_kept l s s'"
  shows "mcu_view s' l = mcu_view s l" and "mcu_info s' = mcu_info s"
  using assms by (simp_all add: mcu_kept_def)

section \<open>The protocol\<close>

text \<open>
  The steps of the board, as the ports see it: its state and the commands that wait. Commands
  are taken while no update runs; an update is started, the answers move it on, and it ends
  when no command is left.
\<close>

definition submask :: "u8 \<Rightarrow> u8 \<Rightarrow> bool" where
  "submask v w \<longleftrightarrow> and v w = v"

lemma submask_refl [simp]: "submask w w"
  by (simp add: submask_def)

lemma submask_trans: "submask u v \<Longrightarrow> submask v w \<Longrightarrow> submask u w"
  unfolding submask_def by (metis and.assoc)

lemma submask_clear [simp]: "submask (and w b) w"
  by (simp add: submask_def and.commute and.left_commute)

datatype mcu_label = Command | Update | Answer | Finish

inductive mcu_step :: "mcu_label \<Rightarrow> mcu_state \<times> u8 \<Rightarrow> mcu_state \<times> u8 \<Rightarrow> bool" where
  command: "a \<le> LANNER_MCU_PENDING \<Longrightarrow> mcu_step Command (a, w) (LANNER_MCU_PENDING, or w b)"
| opened: "mcu_step Update (LANNER_MCU_PENDING, w) (LANNER_MCU_GET_VERSION, w)"
| version: "mcu_step Answer (LANNER_MCU_GET_VERSION, w) (LANNER_MCU_GET_DIGITAL_OUT, w)"
| mask: "mcu_step Answer (LANNER_MCU_GET_DIGITAL_OUT, w) (LANNER_MCU_SET_DIGITAL_OUT, w)"
| some_left: "submask v w \<Longrightarrow> mcu_step Answer (LANNER_MCU_SET_DIGITAL_OUT, w) (LANNER_MCU_SET_DIGITAL_OUT, v)"
| none_left: "mcu_step Answer (LANNER_MCU_SET_DIGITAL_OUT, w) (LANNER_MCU_UPDATE_DONE, 0)"
| closed: "mcu_step Finish (LANNER_MCU_UPDATE_DONE, w) (LANNER_MCU_IDLE, w)"

inductive_simps mcu_answer_simps: "mcu_step Answer (a, w) (b, v)"

text \<open>No command waits at an idle board, nor at one whose update is done.\<close>

definition nothing_lost :: "mcu_state \<times> u8 \<Rightarrow> bool" where
  "nothing_lost x \<longleftrightarrow> (fst x \<in> {LANNER_MCU_IDLE, LANNER_MCU_UPDATE_DONE} \<longrightarrow> snd x = 0)"

lemma mcu_step_nothing_lost: "mcu_step lab x y \<Longrightarrow> nothing_lost x \<Longrightarrow> nothing_lost y"
  by (induction rule: mcu_step.induct) (auto simp: nothing_lost_def)

lemma mcu_steps_nothing_lost: "(mcu_step lab)\<^sup>*\<^sup>* x y \<Longrightarrow> nothing_lost x \<Longrightarrow> nothing_lost y"
  by (induction rule: rtranclp_induct) (auto intro: mcu_step_nothing_lost)

text \<open>Answers move the board forward, and only while an update runs.\<close>

lemma mcu_answers_forward:
  "(mcu_step Answer)\<^sup>*\<^sup>* x y \<Longrightarrow> fst x \<le> fst y \<and> (x = y \<or> LANNER_MCU_GET_VERSION \<le> fst x \<and> fst x < LANNER_MCU_UPDATE_DONE)"
proof (induction rule: rtranclp_induct)
  case (step y z)
  from step.hyps(2) have "fst y \<le> fst z \<and> LANNER_MCU_GET_VERSION \<le> fst y \<and> fst y < LANNER_MCU_UPDATE_DONE"
    by (cases y; cases z) (auto simp: mcu_answer_simps mcu_order)
  with step.IH show ?case by (auto simp: mcu_order)
qed simp

section \<open>The handler follows the protocol\<close>

lemma ok_port_mcu:
  "submask (pending_ports_mask (shared (ok_port k p s) l)) (pending_ports_mask (shared s l))"
  "mcu_state (shared (ok_port k p s) l) = mcu_state (shared s l)" "mcu_info (ok_port k p s) = mcu_info s"
  by (auto simp: ok_port_def Let_def shared_upd_def)

lemma ok_loop_mcu:
  "submask (pending_ports_mask (shared (ok_reply_loop k ps s) l)) (pending_ports_mask (shared s l)) \<and>
   mcu_state (shared (ok_reply_loop k ps s) l) = mcu_state (shared s l) \<and> mcu_info (ok_reply_loop k ps s) = mcu_info s"
  by (induction ps arbitrary: s) (auto simp: ok_port_mcu intro: submask_trans [OF _ ok_port_mcu(1)])

text \<open>Steps of one kind, from one state of the monitor to another.\<close>

definition mcu_moves :: "mcu_label \<Rightarrow> nat \<Rightarrow> sys \<Rightarrow> sys \<Rightarrow> bool" where
  "mcu_moves lab l s s' \<longleftrightarrow> (mcu_step lab)\<^sup>*\<^sup>* (mcu_view s l) (mcu_view s' l) \<and> mcu_info s' = mcu_info s"

lemma mcu_moves_kept: "mcu_kept l s s' \<Longrightarrow> mcu_moves lab l s s'"
  by (simp add: mcu_moves_def mcu_kept_def)

lemma mcu_moves_trans: "mcu_moves lab l s s' \<Longrightarrow> mcu_moves lab l s' s'' \<Longrightarrow> mcu_moves lab l s s''"
  by (auto simp: mcu_moves_def)

lemma mcu_moves_step: "mcu_step lab (mcu_view s l) (mcu_view s' l) \<Longrightarrow> mcu_info s' = mcu_info s \<Longrightarrow> mcu_moves lab l s s'"
  by (auto simp: mcu_moves_def)

lemma mcu_moves_state:
  assumes "mcu_kept l (shared_upd l (\<lambda>sh. sh\<lparr>mcu_state := b\<rparr>) t) s'" and "mcu_kept l s t"
    and "\<And>w. mcu_step lab (mcu_state (shared s l), w) (b, w)"
  shows "mcu_moves lab l s s'"
proof (rule mcu_moves_step)
  show "mcu_step lab (mcu_view s l) (mcu_view s' l)" "mcu_info s' = mcu_info s"
    using mcu_keptD [OF assms(1)] mcu_keptD [OF assms(2)] assms(3) by (simp_all add: mcu_view_def shared_upd_def)
qed

lemma ok_reply_mcu:
  assumes "lanner_handler_ok_reply e l s = Inr s'" and "mcu_state (shared s l) = LANNER_MCU_SET_DIGITAL_OUT"
  shows "mcu_moves Answer l s s'"
proof -
  define t where "t = shared_upd l (\<lambda>sh. sh\<lparr>mcu_bitmask_to_write := 0\<rparr>)
    (shared_upd l (\<lambda>sh. sh\<lparr>mcu_bitmask := mcu_bitmask_to_write sh\<rparr>) (ok_reply_loop l (port_list s) s))"
  have t: "submask (pending_ports_mask (shared t l)) (pending_ports_mask (shared s l))"
      "mcu_state (shared t l) = mcu_state (shared s l)" "mcu_info t = mcu_info s"
    using ok_loop_mcu [of l "port_list s" s l] by (auto simp: t_def shared_upd_def)
  show ?thesis
  proof (cases "pending_ports_mask (shared t l) = 0")
    case True
    then have "s' = usb_monitor_start_itr_cb (shared_upd l (\<lambda>sh. sh\<lparr>mcu_state := LANNER_MCU_UPDATE_DONE\<rparr>) t)"
      using assms(1) by (simp add: lanner_handler_ok_reply_def Let_def t_def split: if_splits)
    then show ?thesis using True t assms(2)
      by (intro mcu_moves_step)
        (simp_all add: mcu_view_def usb_monitor_start_itr_cb_def shared_upd_def mcu_step.none_left)
  next
    case False
    then have "lanner_handler_start_private_timer e l LANNER_HANDLER_RESTART_MS t = Inr s'"
      using assms(1) by (simp add: lanner_handler_ok_reply_def Let_def t_def)
    from mcu_keptD [OF private_timer_mcu [OF this]] show ?thesis
      using t assms(2) by (intro mcu_moves_step) (simp_all add: mcu_view_def mcu_step.some_left)
  qed
qed

lemma reply_mcu:
  assumes "lanner_handler_reply e l s = Inr s'" and "mcu_state (shared s l) = LANNER_MCU_GET_DIGITAL_OUT"
  shows "mcu_moves Answer l s s'"
proof (rule mcu_moves_state)
  let ?t = "store_bitmask l (scan_bitmask (cstr (buf_input (shared s l)))) s"
  show "mcu_kept l (shared_upd l (\<lambda>sh. sh\<lparr>mcu_state := LANNER_MCU_SET_DIGITAL_OUT\<rparr>) ?t) s'"
    using assms(1) by (auto simp: lanner_handler_reply_def Let_def dest: set_digital_out_mcu split: if_splits)
  show "mcu_kept l s ?t" by (simp add: store_bitmask_def split: scan.split)
qed (simp add: assms(2) mcu_step.mask)

lemma version_mcu:
  assumes "lanner_handler_get_digital_out e (shared_upd l (\<lambda>sh. sh\<lparr>mcu_state := LANNER_MCU_GET_DIGITAL_OUT\<rparr>) s) = Inr s'"
    and "mcu_state (shared s l) = LANNER_MCU_GET_VERSION"
  shows "mcu_moves Answer l s s'"
  by (rule mcu_moves_state [OF get_digital_out_mcu [OF assms(1)]]) (simp_all add: assms(2) mcu_step.version)

lemma handle_msg_mcu: "lanner_handler_handle_msg e l s = Inr s' \<Longrightarrow> mcu_moves Answer l s s'"
  unfolding lanner_handler_handle_msg_def Let_def
  by (auto split: if_splits mcu_state.splits intro: version_mcu reply_mcu ok_reply_mcu mcu_moves_kept write_cmd_mcu)

lemma input_loop_mcu: "lanner_input_loop e l n s = Inr s' \<Longrightarrow> mcu_moves Answer l s s'"
proof (induction n arbitrary: s)
  case (Suc n)
  have loop: "mcu_moves Answer l s0 s'" if "lanner_input_loop e l n (shared_upd l f s1) = Inr s'" "mcu_moves Answer l s0 s1"
    "\<And>sh. mcu_state (f sh) = mcu_state sh \<and> pending_ports_mask (f sh) = pending_ports_mask sh" for f s0 s1
  proof -
    have "mcu_moves Answer l s1 (shared_upd l f s1)" using that(3) by (intro mcu_moves_kept) simp
    with Suc.IH [OF that(1)] that(2) show ?thesis by (blast intro: mcu_moves_trans)
  qed
  have msg: "mcu_moves Answer l s t" if "lanner_handler_handle_msg e l (shared_upd l (\<lambda>sh. sh\<lparr>buf_input := b sh\<rparr>) s) = Inr t" for b t
    by (rule mcu_moves_trans [OF mcu_moves_kept handle_msg_mcu [OF that]]) simp
  have clear: "mcu_moves Answer l s0 (shared_upd l (\<lambda>sh. sh\<lparr>input_progress := i, buf_input := b\<rparr>) s1)"
    if "mcu_moves Answer l s0 s1" for s0 s1 i b
    by (rule mcu_moves_trans [OF that mcu_moves_kept]) simp
  show ?case
    using Suc.prems unfolding lanner_input_loop.simps Let_def
    by (auto simp: and_then_eq_Inr split: if_splits intro: mcu_moves_kept loop clear dest!: msg)
qed simp

lemma handle_input_mcu:
  assumes "lanner_handler_handle_input e l s = Inr s'"
  shows "mcu_moves Answer l s s'"
proof -
  have read: "mcu_kept l s (snd (read_call e fd n s))" for fd n
    by (simp add: read_call_def sys_call_eq Let_def)
  have loop: "mcu_moves Answer l s s'"
    if "lanner_input_loop e l n (shared_upd l f (snd (read_call e fd m s))) = Inr s'"
      "\<And>sh. mcu_state (f sh) = mcu_state sh \<and> pending_ports_mask (f sh) = pending_ports_mask sh" for n f fd m
  proof -
    have "mcu_kept l s (shared_upd l f (snd (read_call e fd m s)))" using read that(2) by simp
    with input_loop_mcu [OF that(1)] show ?thesis by (blast intro: mcu_moves_trans mcu_moves_kept)
  qed
  show ?thesis
    using assms unfolding lanner_handler_handle_input_def Let_def case_prod_beta
    by (auto split: if_splits elim!: loop)
qed

lemma event_mcu:
  assumes "lanner_handler_event_cb e ev s = Inr s'" and "mcu_info s = Some l"
  shows "mcu_moves Answer l s s'"
proof -
  obtain s1 where s1: "(if and ev 1 \<noteq> 0 then with_mcu_info s (\<lambda>l. lanner_handler_handle_input e l s) else Inr s) = Inr s1"
      "(if and ev 4 \<noteq> 0 then with_mcu_info s1 (\<lambda>l. lanner_handler_write_cmd_buf e l s1) else Inr s1) = Inr s'"
    using assms(1) unfolding lanner_handler_event_cb_def and_then_eq_Inr by blast
  have first: "mcu_moves Answer l s s1"
    using s1(1) assms(2) by (auto simp: with_mcu_info_def intro: handle_input_mcu mcu_moves_kept split: if_splits)
  then have "mcu_info s1 = Some l" using assms(2) by (simp add: mcu_moves_def)
  then have "mcu_moves Answer l s1 s'"
    using s1(2) by (auto simp: with_mcu_info_def intro: mcu_moves_kept write_cmd_mcu split: if_splits)
  with first show ?thesis by (rule mcu_moves_trans)
qed

lemma acquire_mcu:
  assumes "lanner_acquire_mcu e n l s = Inr (go, s')" and "mcu_state (shared s l) = LANNER_MCU_PENDING"
  shows "mcu_moves Update l s s'"
proof -
  let ?t = "sys_do e (Flock (lock_fd (shared s l)) True) s"
  let ?o = "lanner_handler_open_mcu e l ?t"
  have o: "mcu_kept l s (snd ?o)" using open_mcu [of l ?t] by simp
  have timer: "mcu_moves Update l s s'" if "lanner_handler_start_private_timer e l ms t = Inr s'" "mcu_kept l s t" for ms t
    using private_timer_mcu [OF that(1)] that(2) by (blast intro: mcu_moves_kept mcu_kept_trans)
  have flushed: "mcu_moves Update l s s'"
    if "lanner_flush_mcu e l n (snd ?o) = Inr t"
      "s' = shared_upd l (\<lambda>sh. sh\<lparr>mcu_state := LANNER_MCU_GET_VERSION\<rparr>) (snd (backend_event_loop_update e c t))" for t c
    unfolding that(2)
    by (rule mcu_moves_state [OF mcu_kept_refl])
      (use mcu_kept_trans [OF o flush_mcu [OF that(1)]] in \<open>simp_all add: assms(2) mcu_step.opened\<close>)
  show ?thesis
    using assms(1) o unfolding lanner_acquire_mcu_def sys_call_eq Let_def case_prod_beta fst_conv snd_conv
    by (auto simp: and_then_eq_Inr split: if_splits elim!: timer flushed)
qed

lemma start_update_mcu:
  assumes "lanner_handler_start_mcu_update e n s = Inr s'" and "mcu_info s = Some l"
  shows "mcu_moves Update l s s'"
proof -
  obtain go s1 where s1: "(if mcu_state (shared s l) = LANNER_MCU_PENDING then lanner_acquire_mcu e n l s else Inr (True, s)) = Inr (go, s1)"
      "(if \<not> go then Inr s1
        else case mcu_state (shared s1 l) of
             LANNER_MCU_GET_VERSION \<Rightarrow> lanner_handler_get_version e s1
           | LANNER_MCU_GET_DIGITAL_OUT \<Rightarrow> lanner_handler_get_digital_out e s1
           | LANNER_MCU_SET_DIGITAL_OUT \<Rightarrow> lanner_handler_set_digital_out e l s1
           | _ \<Rightarrow> Inr s1) = Inr s'"
    using assms by (auto simp: lanner_handler_start_mcu_update_def with_mcu_info_def and_then_eq_Inr)
  have "mcu_moves Update l s s1"
    using s1(1) by (auto intro: acquire_mcu mcu_moves_kept split: if_splits)
  moreover have "mcu_moves Update l s1 s'"
    using s1(2) by (auto intro!: mcu_moves_kept intro: get_version_mcu get_digital_out_mcu set_digital_out_mcu
        split: if_splits mcu_state.splits)
  ultimately show ?thesis by (rule mcu_moves_trans)
qed

lemma update_port_mcu: "mcu_moves Command (shared_info (heap s p)) s (snd (lanner_update_port p cmd s))"
proof (cases "mcu_state (shared s (shared_info (heap s p))) \<le> LANNER_MCU_PENDING")
  case True
  then have "mcu_step Command (mcu_view s (shared_info (heap s p)))
      (mcu_view (snd (lanner_update_port p cmd s)) (shared_info (heap s p)))"
    by (cases "mcu_state (shared s (shared_info (heap s p)))")
      (auto simp: mcu_order lanner_update_port_def Let_def mcu_view_def usb_monitor_start_itr_cb_def shared_upd_def port_upd_def
        intro: mcu_step.command)
  moreover have "mcu_info (snd (lanner_update_port p cmd s)) = mcu_info s"
    by (simp add: lanner_update_port_def Let_def usb_monitor_start_itr_cb_def)
  ultimately show ?thesis by (rule mcu_moves_step)
next
  case False
  then show ?thesis
    by (cases "mcu_state (shared s (shared_info (heap s p)))")
      (auto simp: mcu_order lanner_update_port_def Let_def intro!: mcu_moves_kept)
qed

section \<open>Runs of the handler\<close>

text \<open>
  The callbacks that work on the record of the board: a command to one of its ports, the
  private timer, the descriptor, and the end of a turn of the loop, which closes a board whose
  update is done and otherwise goes on with it. Everything else leaves the record alone.
\<close>

inductive lanner_step :: "env \<Rightarrow> nat \<Rightarrow> mcu_label \<Rightarrow> sys \<Rightarrow> sys \<Rightarrow> bool" for e l where
  command: "shared_info (heap s p) = l \<Longrightarrow> lanner_step e l Command s (snd (lanner_update_port p cmd s))"
| timer: "lanner_handle_private_timeout e n s = Inr s' \<Longrightarrow> lanner_step e l Update s s'"
| event: "lanner_handler_event_cb e ev s = Inr s' \<Longrightarrow> lanner_step e l Answer s s'"
| itr_done: "mcu_state (shared s l) = LANNER_MCU_UPDATE_DONE \<Longrightarrow> lanner_handler_itr_cb e n s = Inr s' \<Longrightarrow>
    lanner_step e l Finish s s'"
| itr_more: "mcu_state (shared s l) \<noteq> LANNER_MCU_UPDATE_DONE \<Longrightarrow> lanner_handler_itr_cb e n s = Inr s' \<Longrightarrow>
    lanner_step e l Update s s'"
| other: "mcu_kept l s s' \<Longrightarrow> lanner_step e l lab s s'"

lemma itr_done_mcu:
  assumes "lanner_handler_itr_cb e n s = Inr s'" and "mcu_info s = Some l"
    and "mcu_state (shared s l) = LANNER_MCU_UPDATE_DONE"
  shows "mcu_moves Finish l s s'"
  using assms by (intro mcu_moves_step)
    (auto simp: lanner_handler_itr_cb_def with_mcu_info_def mcu_view_def shared_upd_def intro: mcu_step.closed)

lemma lanner_step_moves:
  assumes "lanner_step e l lab s s'" and "mcu_info s = Some l"
  shows "mcu_moves lab l s s'"
  using assms
proof cases
  case (itr_more n)
  then have "lanner_handler_start_mcu_update e n s = Inr s'"
    using assms(2) by (simp add: lanner_handler_itr_cb_def with_mcu_info_def)
  with assms(2) itr_more(1) show ?thesis by (blast intro: start_update_mcu)
qed (use assms(2) in \<open>auto simp: lanner_handle_private_timeout_def
      intro: update_port_mcu start_update_mcu event_mcu itr_done_mcu mcu_moves_kept\<close>)

inductive lanner_run :: "env \<Rightarrow> nat \<Rightarrow> sys \<Rightarrow> sys \<Rightarrow> bool" for e l s0 where
  start: "lanner_run e l s0 s0"
| step: "lanner_run e l s0 s \<Longrightarrow> lanner_step e l lab s s' \<Longrightarrow> lanner_run e l s0 s'"

lemma lanner_run_nothing_lost:
  assumes "lanner_run e l s0 s" and "mcu_info s0 = Some l" and "nothing_lost (mcu_view s0 l)"
  shows "mcu_info s = Some l \<and> nothing_lost (mcu_view s l)"
  using assms
proof induction
  case (step s lab s')
  then have "mcu_moves lab l s s'" by (intro lanner_step_moves) simp_all
  with step show ?case by (auto simp: mcu_moves_def intro: mcu_steps_nothing_lost)
qed simp

end
