(* ===== verification/Samples.thy ===== *)
theory Samples
  imports Monitor_Setup Timer_Callbacks Requests Lanner_Protocol
begin

section \<open>A concrete monitor\<close>

text \<open>
  An environment in which every call succeeds, one in which files cannot be opened, and a
  monitor with one GPIO port and two ports of a Lanner device. The properties of the root
  theory are applied to them, which shows that their hypotheses can hold together.
\<close>

definition sample_jlib :: json_lib where
  "sample_jlib =
     \<lparr>json_tokener_parse = (\<lambda>_. None), json_to_string = (\<lambda>_. []),
      json_object_get_int = (\<lambda>j. case j of JInt i \<Rightarrow> i | _ \<Rightarrow> 0),
      json_object_get_string = (\<lambda>j. case j of JString t \<Rightarrow> Some t | _ \<Rightarrow> None)\<rparr>"

definition sample_answer :: "trace \<Rightarrow> call \<Rightarrow> int" where
  "sample_answer tr c =
     (case c of
        Open_File _ \<Rightarrow> 3 | Write_Fd _ _ \<Rightarrow> 1 | Accept \<Rightarrow> 9 | Strdup \<Rightarrow> 1 | Calloc \<Rightarrow> 1 | Malloc \<Rightarrow> 1
      | Json_Alloc \<Rightarrow> 1 | Usb_Alloc_Transfer \<Rightarrow> 1 | Recv _ \<Rightarrow> 2 | Read_Fd _ \<Rightarrow> 4 | Send _ t \<Rightarrow> int (length t)
      | _ \<Rightarrow> 0)"

definition sample_env :: env where
  "sample_env =
     \<lparr>answer = sample_answer, clock = (\<lambda>_. 10000000), device_list = (\<lambda>_. Some [7]),
      id_vendor = (\<lambda>_. 0x1234), id_product = (\<lambda>_. 0x5678), bcd_usb = (\<lambda>_. 0x200),
      bus_number = (\<lambda>_. 1), port_numbers = (\<lambda>_. [1]), parent_dev = (\<lambda>_. None),
      hub_desc = (\<lambda>_. (4, 0)), char_signed = True, jlib = sample_jlib, usb_events = (\<lambda>_. []),
      epoll_events = (\<lambda>_. Some []), input_data = (\<lambda>_. ''ab''), pollfds = (\<lambda>_. Some []),
      stack_word = (\<lambda>_. 0)\<rparr>"

definition no_files :: env where
  "no_files =
     sample_env\<lparr>answer := (\<lambda>tr c. case c of Open_File _ \<Rightarrow> -1 | _ \<Rightarrow> sample_answer tr c)\<rparr>"

definition gpio_sample :: usb_port where
  "gpio_sample =
     zero_port\<lparr>path := [Some [1, 1], None], path_len := [2, 0], enabled := True, pwr_state := True,
               port_type := PORT_TYPE_GPIO, gpio_path := Some ''/sys/gpio'', on_val := 1,
               off_val := 0\<rparr>"

definition lanner_sample :: "u8 \<Rightarrow> u8 \<Rightarrow> usb_port" where
  "lanner_sample n b =
     zero_port\<lparr>path := [Some [1, n], None], path_len := [2, 0], enabled := True, pwr_state := True,
               port_type := PORT_TYPE_LANNER, bitmask := b\<rparr>"

definition sample_sys :: sys where
  "sample_sys =
     zero_sys\<lparr>heap := (\<lambda>_. zero_port)(0 := gpio_sample, 1 := lanner_sample 2 1, 2 := lanner_sample 3 2),
              next_pid := 3, port_list := [0, 1, 2], mcu_info := Some 0, clients_map := 0x1F\<rparr>"

text \<open>The same with the GPIO port waiting for its next ping, five seconds overdue.\<close>

definition waiting_sys :: sys where
  "waiting_sys =
     (port_upd 0 (\<lambda>pt. pt\<lparr>msg_mode := PING, timeout_expire := 5000000, dev := Some 7,
                            num_retrans := USB_RETRANS_LIMIT\<rparr>) sample_sys)
       \<lparr>timeout_q := list_insert_head 0 lq_init\<rparr>"

text \<open>Two timers: a periodic one that has expired, and the one of the Lanner handler.\<close>

definition timers_sys :: sys where
  "timers_sys =
     sample_sys
       \<lparr>timers := (timers sample_sys)
          (0 := \<lparr>timeout_clock = 9000, cb = Check_Reset_Cb, intvl = 120000, auto_free = True\<rparr>,
           1 := \<lparr>timeout_clock = 20000, cb = Lanner_Private_Cb, intvl = 0, auto_free = False\<rparr>),
        next_tid := 2, shared := (shared sample_sys)(0 := zero_shared\<lparr>mcu_timeout_handle := 1\<rparr>),
        timer_q := list_insert_head 0 (list_insert_head 1 lq_init)\<rparr>"

text \<open>The parser in the middle of the path of a GET, and a client in slot 0 that has sent this much.\<close>

definition path_parser :: http_parser where
  "path_parser = (http_parser_init HTTP_REQUEST)
     \<lparr>parser_state := s_req_path, req_method := HTTP_GET, match_index := 4, nread := 5, content_length := - 1\<rparr>"

definition client_sample :: http_client where
  "client_sample =
     \<lparr>recv_buf = ''GET /'', body_offset = None, parser = path_parser, client_fd = 9, recv_progress = 5,
      req_done = False, idx = 0\<rparr>"

definition client_sys :: sys where
  "client_sys = sample_sys\<lparr>clients := (clients sample_sys)(0 := Some client_sample), clients_map := 0x1E\<rparr>"

text \<open>A client that has sent nothing yet, and an environment in which it sends a GET.\<close>

definition fresh_client :: http_client where
  "fresh_client = client_sample\<lparr>recv_buf := [], parser := http_parser_init HTTP_REQUEST, recv_progress := 0\<rparr>"

definition fresh_client_sys :: sys where
  "fresh_client_sys = sample_sys\<lparr>clients := (clients sample_sys)(0 := Some fresh_client), clients_map := 0x1E\<rparr>"

definition get_text :: string where
  "get_text = http_request HTTP_GET ''/'' [(''Host'', ''x'')]"

definition get_env :: env where
  "get_env = sample_env\<lparr>input_data := (\<lambda>_. get_text)\<rparr>"

text \<open>A client with a body at offset 2, and an environment in which every text is a command to restart 1-2.\<close>

definition post_client :: http_client where
  "post_client = client_sample\<lparr>recv_buf := ''abb'', body_offset := Some 2\<rparr>"

definition post_env :: env where
  "post_env = sample_env\<lparr>jlib := sample_jlib\<lparr>json_tokener_parse := (\<lambda>_. Some (post_body [1, 2] CMD_RESTART))\<rparr>\<rparr>"

text \<open>A configuration file with one GPIO port that has two paths.\<close>

definition config_env :: env where
  "config_env = sample_env\<lparr>
     answer := (\<lambda>tr c. case c of Fopen _ \<Rightarrow> 1 | _ \<Rightarrow> sample_answer tr c),
     jlib := sample_jlib\<lparr>json_tokener_parse := (\<lambda>_. Some (JObject [(''handlers'', JArray [JObject
       [(''name'', JString ''GPIO''), (''ports'', JArray [JObject
         [(''path'', JArray [JString ''1-1'', JString ''2-1'']), (''gpio_num'', JInt 4)]])]])]))\<rparr>\<rparr>"

definition sample_args :: "string list" where
  "sample_args = [''-s'', ''-c'', ''conf'', ''-g7'']"

lemmas sample_defs = sample_env_def sample_answer_def sample_jlib_def no_files_def
  gpio_sample_def lanner_sample_def sample_sys_def waiting_sys_def timers_sys_def
  zero_sys_def zero_port_def zero_shared_def port_upd_def

lemma sample_tq: "tq sample_sys []"
  by (simp add: tq_def sample_defs)

lemma waiting_tq: "tq waiting_sys [0]"
  using list_insert_head_list [of lq_init "[]" 0] by (simp add: tq_def waiting_sys_def)

lemma timers_tmq: "tmq timers_sys [0, 1]"
proof -
  have "lq_list (list_insert_head 0 (list_insert_head 1 lq_init)) [0, 1 :: nat]"
    by (intro list_insert_head_list) simp_all
  then show ?thesis by (simp add: tmq_def timers_sys_def)
qed

lemma sample_fields [simp]:
  "port_list sample_sys = [0, 1, 2]" "heap sample_sys 0 = gpio_sample"
  "heap sample_sys (Suc 0) = lanner_sample 2 1" "heap sample_sys 2 = lanner_sample 3 2"
  "mcu_info sample_sys = Some 0" "trace sample_sys = []" "clients sample_sys = (\<lambda>_. None)"
  "clients_map sample_sys = 0x1F" "trace waiting_sys = []" "port_list waiting_sys = [0, 1, 2]"
  "heap waiting_sys 0 = gpio_sample\<lparr>msg_mode := PING, timeout_expire := 5000000, dev := Some 7,
                                    num_retrans := USB_RETRANS_LIMIT\<rparr>"
  "next_tid timers_sys = 2" "trace timers_sys = []" "hub_list sample_sys = []"
  "num_bad_device_ids sample_sys = 0" "clock sample_env = (\<lambda>_. 10000000)" "clock no_files = (\<lambda>_. 10000000)"
  "id_vendor sample_env d = 0x1234" "id_product sample_env d = 0x5678" "jlib sample_env = sample_jlib"
  "port_numbers sample_env d = [1]" "bus_number sample_env d = 1" "answer sample_env = sample_answer"
  by (simp_all add: sample_defs)

lemma gpio_sample_fields [simp]:
  "path gpio_sample = [Some [1, 1], None]" "path_len gpio_sample = [2, 0]" "enabled gpio_sample"
  "pwr_state gpio_sample" "msg_mode gpio_sample = IDLE" "port_type gpio_sample = PORT_TYPE_GPIO"
  "on_val gpio_sample = 1" "off_val gpio_sample = 0" "dev gpio_sample = None"
  by (simp_all add: gpio_sample_def zero_port_def)

lemma lanner_sample_fields [simp]:
  "path (lanner_sample n b) = [Some [1, n], None]" "path_len (lanner_sample n b) = [2, 0]"
  "enabled (lanner_sample n b)" "pwr_state (lanner_sample n b)" "msg_mode (lanner_sample n b) = IDLE"
  "port_type (lanner_sample n b) = PORT_TYPE_LANNER" "bitmask (lanner_sample n b) = b"
  "shared_info (lanner_sample n b) = 0" "dev (lanner_sample n b) = None"
  by (simp_all add: lanner_sample_def zero_port_def)

lemma sample_ready:
  "p \<in> {0, 1, 2} \<Longrightarrow> port_ready (heap sample_sys p)" "port_ready (heap waiting_sys 0)"
  by (auto simp: port_ready_def)

lemma sample_intact: "\<forall>p\<in>set (port_list sample_sys). paths_intact (heap sample_sys p)"
  by (simp add: sample_defs paths_intact_def)

lemma sample_masks: "masks_disjoint sample_sys (port_list sample_sys)"
  by (simp add: masks_disjoint_def sample_defs)

lemma sample_pin: "pin_writable sample_env f"
  by (simp add: pin_writable_def sample_defs)

lemma sample_json: "json_allocates sample_env" "json_lib_ok (jlib sample_env)"
  by (simp_all add: json_allocates_def json_lib_ok_def sample_defs)

lemma timers_inv: "timer_inv sample_env 10000 (snd (clock_ms sample_env timers_sys))"
  by (auto simp: timer_inv_def clock_forward_def private_timer_def sample_defs clock_ms_def
      clock_gettime_def less_2_cases_iff)

lemma sample_slots: "slots_ok sample_sys"
  by (auto simp: slots_ok_def bit_numeral_rec less_Suc_eq numeral_eq_Suc bit_Suc dest: bit_imp_le_length split: nat.splits)

lemma client_slots: "slots_ok client_sys"
  by (auto simp: slots_ok_def client_sys_def client_sample_def bit_numeral_rec less_Suc_eq numeral_eq_Suc bit_Suc dest: bit_imp_le_length split: nat.splits)

lemma fresh_client_fields [simp]:
  "clients fresh_client_sys 0 = Some fresh_client" "port_list fresh_client_sys = [0, 1, 2]"
  "heap fresh_client_sys = heap sample_sys" "trace fresh_client_sys = []" "clients_map fresh_client_sys = 0x1E"
  "client_fd fresh_client = 9" "recv_progress fresh_client = 0" "recv_buf fresh_client = []"
  "answer get_env = sample_answer" "input_data get_env t = get_text" "json_to_string (jlib get_env) j = []"
  "parser fresh_client = http_parser_init HTTP_REQUEST"
  by (simp_all add: fresh_client_sys_def fresh_client_def client_sample_def get_env_def sample_env_def sample_jlib_def)

lemma sample_headers: "plain_header (''Host'', ''x'')" "path_ok ''/''"
  by code_simp (simp add: path_ok_def)

lemma get_text_length: "length get_text = 27" "length (http_request HTTP_DELETE ''/'' []) = 21"
  by (simp_all add: get_text_def http_request_def request_head_def crlf_def)

text \<open>How the parser gets into the path, and the beginning of the first piece again, as a piece of the path.\<close>

lemma path_reached: "parser_reach HTTP_REQUEST path_parser"
proof (rule reach_call [OF reach_init])
  show "http_parser_execute client_settings (http_parser_init HTTP_REQUEST) ''GET /'' = Inr (path_parser, [], 5)"
    by code_simp
qed simp

lemma path_parsed: "http_parser_execute client_settings path_parser ''GE'' = Inr (path_parser\<lparr>nread := 7\<rparr>, [], 2)"
  by code_simp

lemma fresh_client_slots: "slots_ok fresh_client_sys"
  using client_slots by (auto simp: slots_ok_def fresh_client_sys_def fresh_client_def client_sys_def client_sample_def)

section \<open>The set-up on the configuration file\<close>

lemma two_paths_parsed:
  "usb_helpers_convert_char_to_path ''1-1'' = Some [1, 1]" "usb_helpers_convert_char_to_path ''2-1'' = Some [2, 1]"
  by code_simp+

lemma config_configured:
  "\<exists>s. usb_monitor_configure config_env True s0 = Inr (0, s) \<and> port_list s = [] \<and> heap s = heap s0 \<and> next_pid s = next_pid s0"
  by (simp add: usb_monitor_configure_def backend_event_loop_create_def backend_create_epoll_handle_def
      usb_monitor_configure_unix_socket_def socket_utility_create_unix_socket_def backend_event_loop_update_def
      sys_call_eq Let_def config_env_def sample_env_def sample_answer_def)

lemma config_parsed:
  assumes "port_list s = []" "next_pid s = 0"
  shows "\<exists>s'. usb_monitor_parse_config config_env ''conf'' s = Inr (0, s') \<and>
     port_list s' = [0] \<and> path (heap s' 0) = [Some [1, 1], Some [2, 1]] \<and> path_len (heap s' 0) = [2, 2]"
  using assms
  by (simp add: usb_monitor_parse_config_def usb_monitor_parse_handlers_def gpio_handler_parse_json_def
      strdup_call_def gpio_handler_add_port_def gpio_handler_add_port_gpio_num_def two_paths_parsed
      gpio_handler_get_port_def gpio_handler_create_port_def usb_helpers_configure_port_def
      usb_helpers_port_add_path_def strndup_call_def strndup_def usb_monitor_lists_add_port_def
      json_members_def json_elements_def jint_u8_def gpio_vars_init_def json_ptr_def zero_port_def
      sys_call_eq Let_def config_env_def sample_env_def sample_answer_def sample_jlib_def)

lemma sample_args_parsed:
  "getopt [] sample_args = [(CHR ''s'', []), (CHR ''c'', ''conf''), (CHR ''g'', ''7'')]"
  by (simp add: sample_args_def)

lemma config_main:
  "\<exists>opts s. main_setup config_env sample_args zero_sys = Inr (opts, s) \<and> port_list s = [0] \<and> lengths_match (heap s 0)"
proof -
  define opts where "opts = no_options\<lparr>opt_conf := Some ''conf''\<rparr>"
  define s1 where "s1 = sys_do config_env Usb_Init (sys_do config_env Calloc (sys_do config_env (Lockf 3)
    (sys_do config_env (Open_File ''/var/run/usb_monitor.pid'') zero_sys))\<lparr>use_syslog := True, group_id := word_of_int (atoi ''7'')\<rparr>)"
  have ans: "answer config_env tr (Open_File f) = 3" "answer config_env tr (Lockf i) = 0" "answer config_env tr Calloc = 1"
    "answer config_env tr Usb_Init = 0" "answer config_env tr Sigaction = 0" for tr f i
    by (simp_all add: config_env_def sample_answer_def)
  obtain s2 where s2: "usb_monitor_configure config_env True s1 = Inr (0, s2)" "port_list s2 = []" "next_pid s2 = 0"
    using config_configured [of s1] by (auto simp: s1_def zero_sys_def)
  obtain s3 where s3: "usb_monitor_parse_config config_env ''conf'' s2 = Inr (0, s3)" "port_list s3 = [0]"
      "path (heap s3 0) = [Some [1, 1], Some [2, 1]]" "path_len (heap s3 0) = [2, 2]"
    using config_parsed [OF s2(2,3)] by auto
  have "main_setup config_env sample_args zero_sys = Inr (opts, sys_do config_env Sigaction s3)"
    unfolding main_setup_def sample_args_parsed
    by (simp add: sys_call_eq ans no_options_def opts_def s1_def [symmetric] s2(1) s3(1))
  then show ?thesis using s3 by (simp add: lengths_match_def)
qed

end
