(* ===== verification/Spec2Isabelle.thy ===== *)
theory Spec2Isabelle
  imports Samples Client Configuration Usb_Monitor Timer_Callbacks
begin

text \<open>
  usb-monitor: a daemon that watches USB ports, pings the devices on them and power-cycles ports whose
  device no longer answers.

  PARTS OF THE PROGRAM. The core (usb_monitor.c) reads a JSON configuration, builds the ports and runs
  an epoll loop (backend_event_loop.c) with a sorted list of timers. A port has one of four handlers:
  GPIO pins (gpio_handler.c), YKUSH hub boards (ykush_handler.c), hubs with per-port power switching
  (generic_handler.c) and a Lanner board with a microcontroller on a serial line (lanner_handler.c). The
  core calls a handler through the update_port and handle_timeout pointers of the port. libusb reports
  devices (usb_monitor_callbacks.c); a device on a known port is pinged with an asynchronous control
  transfer (usb_helpers.c), and after too many failures the port is restarted. Ports that wait (for the
  next ping, or for the second half of a restart) are on an intrusive list, the timeout list
  (usb_monitor_lists.c), that a one-second timer walks. An HTTP server on a UNIX socket
  (usb_monitor_client.c, http_utility.c, socket_utility.c) shows the ports and takes commands; the bytes
  of a request go through the HTTP parser (http_parser.c), a state machine that calls back for the body
  and at the end of a message.

  THEORIES. Each holds one part, in the order of the code, with its lemmas.
    Prelude            words, faults as values (result), sequencing (and_then), succeeds
    Intrusive_List     the LIST macros of queue.h over a store of links, and the abstract list they keep
    Usb_Path           path printing and parsing (usb_helpers.c), with atoi, strtok_r and snprintf
    Json               values of json-c and the calls the sources make
    Http_Url           http_parser.c: characters, the states of a URL, http_parser_parse_url
    Http_Parser        http_parser.c: the record of the parser, one function per state, the marks, the
                       callbacks, http_parser_execute
    Monitor_State      the records: usb_port, usb_hub, lanner_shared, timer, http_client, sys (the context
                       and the heap), env (answers of libraries and the kernel), the trace of calls
    Monitor_Lists      usb_monitor_lists.c and the reset of a port
    Usb_Helpers        usb_helpers.c: ports, transfers, timeouts
    Event_Loop         backend_event_loop.c: timers, their list, a turn of the loop; locale timer_callbacks
    Port_Contract      locale port_handler, the contract of update_port and handle_timeout
    Gpio_Handler, Ykush_Handler, Generic_Handler, Lanner_Handler     the handlers
    Port_Dispatch      the calls through the pointers of a port; ping result; restart of all ports
    Monitor_Callbacks  usb_monitor_callbacks.c, arrival of hubs, the timeout check
    Configuration      the configuration parsers of usb_monitor.c and the handlers
    Client             usb_monitor_client.c: requests, replies, commands
    Usb_Monitor        usb_monitor.c: set-up, accept, the loop, main
    Monitor_Runs       the events of the monitor, its reachable states and the invariant they keep;
                       locale resting_handler, which extends port_handler
    Monitor_Setup      that the configuration leads to a state in which the invariant holds; the first timers
    Lanner_Protocol    the protocol with the microcontroller as a state machine, and its invariant
    Recovery           runs over several callbacks: failed pings up to the restart, the YKUSH power cycle
    Http_Invariant     what holds in each state of the parser, and that one byte keeps it
    Http_Runs          the same for the loop over the bytes: no assertion fails; the reachable parsers
    Http_Stream, Http_Feed     the parser against a reference that takes the bytes one at a time; texts
                       in pieces
    Http_Requests      requests as a client prints them, and what the parser makes of them
    Requests           whole requests of a client, with the texts that are sent
    Calm, Timer_Callbacks    what the callbacks leave alone (timers, hubs), used for termination and timers
    Samples            concrete states and environments on which the properties are evaluated

  STATE. The record sys holds the fields of usb_monitor_ctx and the heap: ports, hubs, the shared record
  of a Lanner board, timers and clients are maps from identifiers (addresses) to records, so aliasing is
  the aliasing of the code; list links are kept in stores of their own (timeout_q, timer_q), the port
  and hub lists as lists, since the code only inserts at the head, walks and removes. Every call of a library or of the kernel whose
  result matters is appended to the field trace; the record env gives its answer as a function of the
  trace, so the environment may answer differently every time and every theorem holds for all answers.
  A fault of the code (a null dereference, an access out of bounds, a use of freed memory, a loop that does not end)
  is an Inl value of the type result, and the functions are total.

  WHAT THE LEMMAS SHOW. Intrusive_List: the macros implement operations on lists, and where they break.
  Usb_Path: parsing and printing are inverse, and what truncation does. Event_Loop, locale
  timer_callbacks: for callbacks that keep the timers sorted, a run of the timers is the fold over those
  that are due; Timer_Callbacks interprets it on the callbacks of the monitor. Port_Contract, locale
  port_handler: a handler that keeps to its port makes the timeout walk a fold over the list; it is interpreted on the
  four handlers and on the dispatch over them. Monitor_Runs, locale
  resting_handler: a handler that also keeps a property of its resting port carries an invariant of the whole
  timeout list; with it, every event that event_ok allows is handled without a fault and the invariant
  holds in every reachable state; Monitor_Setup shows that main starts from such a state. Lanner_Protocol: each callback of the
  handler is a run of the protocol, whose invariant says that no command is lost. Http_Runs: a well-formed parser stays
  well formed and its callbacks get pieces of the text; Http_Feed: taking a body in pieces is taking its bytes, so a
  text may be cut anywhere; Http_Requests: printing a request and parsing it is a round trip. Recovery and
  Requests compose the callbacks into the runs the program is for. Calm: no
  callback of a port touches hubs or timers, hence the recursive device scan ends. Samples and the
  witnesses below: the hypotheses hold at concrete states.

  BOUNDS AND FUEL. Loops over lists with links, timers and nested scans take a fuel argument and give the
  fault No_Fuel when it is used up. Enough fuel: one more than the length of the list for the timeout
  walk, the number of timers ever made for the timer walk, one more than the number of unregistered YKUSH
  boards for the device scan, 256 for the input of the microcontroller, five for the turns that http_parser_execute spends on one byte
  (there are at most four returns to reexecute_byte), one more than the length of the text for its loop. The headers of a
  request are limited to 80 KB, as in the code. Words keep their width: paths,
  masks, progress counters and identifiers wrap as in C.

  ASSUMPTIONS. A 64-bit little-endian machine (a %u conversion into the 8-bit mask of the microcontroller writes its low byte
  there and the next ones into the neighbouring fields, which are modelled); the double arithmetic of the clock
  conversions is exact on the values used; signals are handled between turns of the loop; json-c,
  libusb and the kernel answer as env says, and what a theorem needs of the answers is a
  named hypothesis (json_allocates, json_lib_ok, pin_writable, ykush_parents, usb_works). The predicate event_ok
  of Monitor_Runs says which events the safety theorem is about: no YKUSH board arrives (it would add ports), no device
  arrives on a port that waits already and could take it, a transfer whose end starts the timeout ends for a port that
  does not wait, the pin of a GPIO port can be written when a ping has failed, and the elements of a POST are objects.
  start_timeout_twice_breaks, failed_restart_hangs and disable_during_restart_hangs show what happens otherwise.
  getopt is that of the GNU library. http_parser.c is compiled with HTTP_PARSER_STRICT, the default of its
  header, and with assertions: a failed one is the fault Abort.

  NOT MODELLED. Callbacks that pause the HTTP parser (the monitor has none) and its field data, which leads to the
  client, the rest of usb-kernel.h (only two request codes of that kernel header are used), queue.h is not part of the repository (its macros are
  documented and modelled in Intrusive_List), log output and the print functions, the usage text, termios flags, memory release of JSON
  objects and transfers (no theorem is about leaks), and libusb events nested inside a synchronous
  transfer.
\<close>

section \<open>The monitor as a whole\<close>

text \<open>
  C1.
  Whatever happens next, the monitor goes on. From a sound state, after any sequence of events (devices that
  come and go, ping results, timeouts, restarts of all ports, commands of clients, connections), the handling
  of the next event returns without a fault, leaves the ports and the client slots sound, and keeps the
  timeout list well formed; and an enabled GPIO port that is without power is on that list and in restart, so
  that it gets its power back. The events are those that do not make the code insert a port twice into its
  list (event_ok): no device arrives on a port that waits and could take it, no transfer that starts the
  timeout ends for a port that waits, and the pin can be written when a ping fails; arrivals of YKUSH boards
  are left out, and the elements of a POST are objects.
\<close>

theorem monitor_runs_safely:
  assumes "monitor_sound s0" and "reachable e s0 s" and "event_ok e ev s"
  shows "\<exists>s'. handle_event e ev s = Inr s' \<and> monitor_sound s' \<and> port_list s' = port_list s0 \<and>
           (\<exists>xs. tq s' xs \<and> (\<forall>p\<in>set (port_list s'). is_gpio s' p \<and> enabled (heap s' p) \<and> \<not> pwr_state (heap s' p) \<longrightarrow>
              p \<in> set xs \<and> msg_mode (heap s' p) = RESET))"
proof -
  have "monitor_sound s" "port_list s = port_list s0" using reachable_sound [OF assms(2,1)] by simp_all
  then obtain s' where "handle_event e ev s = Inr s'" "monitor_sound s'" "port_list s' = port_list s0"
    using event_sound [OF _ assms(3)] by (auto simp: succeeds_iff)
  with sound_off_waits show ?thesis by blast
qed

theorem monitor_runs_safely_witness:
  "\<exists>s1 s2. handle_event sample_env (Restart_Ports True) sample_sys = Inr s1 \<and>
     handle_event sample_env Timeouts_Due s1 = Inr s2 \<and> monitor_sound s2"
proof -
  have "ports_sound port_ready off_waits sample_sys []"
    using sample_tq sample_intact sample_ready by (auto simp: ports_sound_def off_waits_def)
  then have s0: "monitor_sound sample_sys" using sample_slots by (auto simp: monitor_sound_def)
  have ok: "event_ok sample_env (Restart_Ports True) s" "event_ok sample_env Timeouts_Due s" for s
    by (simp_all add: event_ok_def)
  obtain s1 where s1: "handle_event sample_env (Restart_Ports True) sample_sys = Inr s1"
    using monitor_runs_safely [OF s0 reachable.start ok(1)] by blast
  have "reachable sample_env sample_sys s1" by (rule reachable.event [OF reachable.start ok(1) s1])
  from monitor_runs_safely [OF s0 this ok(2)] s1 show ?thesis by blast
qed

text \<open>
  C2.
  When main gets through its options and its configuration, whatever the file says, the monitor starts from a
  sound state: the timeout list is empty, every port is enabled, powered, idle and without a device, no two
  addresses in the port list are the same and the links of the handlers are set. The stored lengths are
  assumed to be those of the stored paths, which holds where no path has a zero component.
\<close>

theorem setup_establishes_invariant:
  assumes "main_setup e argv zero_sys = Inr (opts, s)" and "\<forall>p\<in>set (port_list s). lengths_match (heap s p)"
  shows "monitor_sound s \<and> tq s [] \<and>
         (\<forall>p\<in>set (port_list s). enabled (heap s p) \<and> pwr_state (heap s p) \<and> msg_mode (heap s p) = IDLE \<and>
            dev (heap s p) = None)"
  using setup_sound [OF setup_main [OF assms(1)] assms(2)] setup_main [OF assms(1)]
  by (auto simp: setup_ok_def fresh_port_def)

theorem setup_establishes_invariant_witness:
  "\<exists>opts s. main_setup config_env sample_args zero_sys = Inr (opts, s) \<and> port_list s = [0] \<and> monitor_sound s"
proof -
  obtain opts s where s: "main_setup config_env sample_args zero_sys = Inr (opts, s)" "port_list s = [0]"
    "lengths_match (heap s 0)"
    using config_main by blast
  then have "\<forall>p\<in>set (port_list s). lengths_match (heap s p)" by simp
  with setup_establishes_invariant [OF s(1)] s show ?thesis by blast
qed

section \<open>Ports: power, restart, ping\<close>

text \<open>
  C3.
  Whatever the handler of a port, its update_port callback keeps to its port. On a port that is ready (its hub
  and device references are the ones its handler needs) in a state whose timeout list is a well-formed list
  xs, the call returns for every command byte, changes no other port of the heap, and leaves a well-formed
  timeout list that is xs, xs without the port, or xs with the port moved to the head.
\<close>

theorem port_update_contract:
  assumes "port_ready (heap s p)" and "tq s xs"
  shows "succeeds (port_update e p cmd s) (\<lambda>(r, s'). only_port p s s' \<and> (\<exists>ys. tq s' ys \<and>
           (ys = xs \<or> ys = remove1 p xs \<or> ys = p # remove1 p xs)))"
  using ports.update_local [OF assms] by (rule succeeds_mono) (auto simp: port_local_def local_tq_def)

theorem port_update_contract_witness:
  "succeeds (port_update sample_env 0 CMD_RESTART waiting_sys) (\<lambda>(r, s'). only_port 0 waiting_sys s')"
  using port_update_contract [OF sample_ready(2) waiting_tq, of sample_env CMD_RESTART]
  by (rule succeeds_mono) auto

text \<open>
  C4.
  A restart of a GPIO port is a power cycle. On an enabled, powered port with a writable value file,
  CMD_RESTART succeeds, writes the off value, marks the port unpowered and puts it on the timeout list; when
  the monitor takes it off the list and calls its timeout handler, the on value is written and the port is
  powered, enabled and idle again, off the list, and exactly those two values were written.
\<close>

theorem gpio_power_cycle:
  assumes "tq s xs" and "enabled (heap s p)" and "pwr_state (heap s p)"
    and "pin_writable e (gpio_file (heap s p))"
  shows "\<exists>s1 s2 s3. gpio_update_port e p CMD_RESTART s = Inr (0, s1) \<and> tq s1 (p # remove1 p xs) \<and>
           \<not> pwr_state (heap s1 p) \<and> usb_monitor_lists_del_timeout p s1 = Inr s2 \<and>
           gpio_handle_timeout e p s2 = Inr s3 \<and> tq s3 (remove1 p xs) \<and>
           pwr_state (heap s3 p) \<and> enabled (heap s3 p) \<and> msg_mode (heap s3 p) = IDLE \<and>
           writes (trace s3) = writes (trace s) @ [digit_of (off_val (heap s p)), digit_of (on_val (heap s p))]"
  by (rule gpio_cycle [OF assms])

theorem gpio_power_cycle_witness:
  "\<exists>s1 s2 s3. gpio_update_port sample_env 0 CMD_RESTART waiting_sys = Inr (0, s1) \<and>
     usb_monitor_lists_del_timeout 0 s1 = Inr s2 \<and> gpio_handle_timeout sample_env 0 s2 = Inr s3 \<and>
     writes (trace s3) = [''0'', ''1'']"
proof -
  have on: "enabled (heap waiting_sys 0)" "pwr_state (heap waiting_sys 0)" by simp_all
  have w: "writes (trace waiting_sys) @ [digit_of (off_val (heap waiting_sys 0)), digit_of (on_val (heap waiting_sys 0))] =
      [''0'', ''1'']" by (simp add: digit_of_def)
  from gpio_power_cycle [OF waiting_tq on sample_pin] show ?thesis unfolding w by blast
qed

text \<open>
  C5.
  The timeout walk of the one-second timer is the abstract walk over the list it started with: each port of
  the list, head first, is removed from the list and its timeout handler called exactly when its expiry is
  before or at the clock value read once at the start. The walk returns; afterwards the list is well formed
  and holds only ports it held before, no port that had not expired has changed, and every port that had not
  expired is still waiting. It rests on the contract of the port handlers.
\<close>

theorem check_timeouts_fires:
  assumes "tq s xs" and "length xs < n"
    and "\<forall>p\<in>set xs. port_ready (heap s p) \<and> msg_mode (heap s p) \<noteq> PROBE"
  shows "usb_monitor_check_timeouts e n s =
           fire_timeouts port_timeout e (clock e (trace s)) xs (s\<lparr>trace := (Clock_Gettime, 0) # trace s\<rparr>) \<and>
         (\<exists>s' ys. usb_monitor_check_timeouts e n s = Inr s' \<and> tq s' ys \<and> set ys \<subseteq> set xs \<and>
           (\<forall>p. (p \<in> set xs \<longrightarrow> clock e (trace s) < timeout_expire (heap s p)) \<longrightarrow> heap s' p = heap s p) \<and>
           (\<forall>p\<in>set xs. clock e (trace s) < timeout_expire (heap s p) \<longrightarrow> p \<in> set ys))"
proof -
  let ?s = "s\<lparr>trace := (Clock_Gettime, 0) # trace s\<rparr>"
  have "tq ?s ([] @ xs)" using assms(1) by (simp add: tq_def)
  from ports.fire_result [OF this, of e "clock e (trace s)"] show ?thesis
    using assms check_timeouts_fold [OF assms] by simp
qed

theorem check_timeouts_fires_witness:
  "\<exists>s' ys. usb_monitor_check_timeouts sample_env 2 waiting_sys = Inr s' \<and> tq s' ys \<and> set ys \<subseteq> {0}"
proof -
  have "\<forall>p\<in>set [0]. port_ready (heap waiting_sys p) \<and> msg_mode (heap waiting_sys p) \<noteq> PROBE"
    using sample_ready(2) by simp
  moreover have "length [0 :: pid] < 2" by simp
  ultimately
  have "\<exists>s' ys. usb_monitor_check_timeouts sample_env 2 waiting_sys = Inr s' \<and> tq s' ys \<and> set ys \<subseteq> set [0]"
    using check_timeouts_fires [OF waiting_tq, of 2 sample_env] by blast
  then show ?thesis by simp
qed

text \<open>
  C6.
  backend_event_loop_run_timers fires exactly the timers whose expiry is at or before the clock value it read,
  in the order of the list, each removed before its callback runs and re-armed or freed after it. Where it
  returns, the list is again sorted, every timer left expires in the future, and no periodic timer was lost.
  The callbacks are the ones the monitor registers.
\<close>

theorem timers_run_in_order:
  assumes "timer_inv e (clock e (trace s) div 1000) (snd (clock_ms e s))" and "tmq s xs"
    and "unat (clock e (trace s) div 1000) < 2 ^ 63" and "next_tid s < n"
  defines "cur \<equiv> clock e (trace s) div 1000"
  shows "backend_event_loop_run_timers e (run_timer_cb e m) n s =
           fire_timers e (run_timer_cb e m) cur (timers_upto s cur xs) (snd (clock_ms e s)) \<and>
         (\<forall>s'. backend_event_loop_run_timers e (run_timer_cb e m) n s = Inr s' \<longrightarrow>
            (\<exists>zs. tmq s' zs \<and> (\<forall>i\<in>set zs. cur < expires s' i) \<and>
                  (\<forall>i\<in>set xs. intvl (timers s i) \<noteq> 0 \<longrightarrow> i \<in> set zs)))"
proof -
  let ?s = "snd (clock_ms e s)"
  have s: "timers ?s = timers s" "timer_q ?s = timer_q s" "next_tid ?s = next_tid s"
    by (simp_all add: clock_ms_def clock_gettime_def)
  have "tmq ?s xs" "timers_upto ?s cur xs = timers_upto s cur xs"
    using assms(2) s by (simp_all add: tmq_def timers_upto_def)
  then show ?thesis
    using timers.run_timers_fires [OF assms(1-4)] timers.fire_keeps [of e cur ?s xs] assms(1,3) s
    by (auto simp: cur_def)
qed

theorem timers_run_in_order_witness:
  "backend_event_loop_run_timers sample_env (run_timer_cb sample_env 3) 3 timers_sys =
     fire_timers sample_env (run_timer_cb sample_env 3) 10000 [0] (snd (clock_ms sample_env timers_sys))"
proof -
  have c: "clock sample_env (trace timers_sys) div 1000 = 10000" by (simp add: sample_defs)
  have "timers_upto timers_sys 10000 [0, 1] = [0]" by (simp add: timers_upto_def timers_sys_def)
  then show ?thesis
    using timers_run_in_order [of sample_env timers_sys "[0, 1]" 3 3] timers_tmq timers_inv
    by (simp add: c)
qed



text \<open>
  C8.
  A GPIO port that is enabled but unpowered is always waiting for the timeout that powers it again: if that
  holds before an update (or the port is being restarted and is restarted once more), it holds after
  gpio_update_port for every command and whether or not the value file can be written.
\<close>

theorem gpio_never_left_off:
  assumes "tq s xs" and "gpio_on_or_waiting s p xs \<or> msg_mode (heap s p) = RESET \<and> cmd = CMD_RESTART"
  shows "succeeds (gpio_update_port e p cmd s) (\<lambda>(r, s'). \<exists>ys. tq s' ys \<and>
           (enabled (heap s' p) \<and> \<not> pwr_state (heap s' p) \<longrightarrow> p \<in> set ys \<and> msg_mode (heap s' p) = RESET))"
  using gpio_update_waiting [OF assms] unfolding gpio_on_or_waiting_def .

theorem gpio_never_left_off_witness:
  "succeeds (gpio_update_port no_files 0 CMD_RESTART waiting_sys) (\<lambda>(r, s'). \<exists>ys. tq s' ys \<and>
     (enabled (heap s' 0) \<and> \<not> pwr_state (heap s' 0) \<longrightarrow> 0 \<in> set ys \<and> msg_mode (heap s' 0) = RESET))"
  by (rule gpio_never_left_off [OF waiting_tq]) (simp add: gpio_on_or_waiting_def)

text \<open>
  C9.
  A device that stops answering is power-cycled. While pings of a GPIO port fail, the port stays powered, in
  ping mode and on the timeout list, and the number of failures is counted, up to the limit; the next failed
  ping restarts the port: it is without power, in restart, still enabled, and waits for the timeout that
  powers it again.
\<close>

theorem dead_device_restarted:
  assumes "usb_works e" and "tq s (p # xs)" and "is_gpio s p" and "pinged (heap s p)" and "pwr_state (heap s p)"
    and "num_retrans (heap s p) = 0" and "pin_writable e (gpio_file (heap s p))"
  shows "(\<forall>k\<le>unat USB_RETRANS_LIMIT. \<exists>s'. failed_pings e p k s = Inr s' \<and> tq s' (p # xs) \<and>
            pwr_state (heap s' p) \<and> msg_mode (heap s' p) = PING \<and> num_retrans (heap s' p) = of_nat k) \<and>
         (\<exists>s'. failed_pings e p (Suc (unat USB_RETRANS_LIMIT)) s = Inr s' \<and> tq s' (p # xs) \<and>
            enabled (heap s' p) \<and> \<not> pwr_state (heap s' p) \<and> msg_mode (heap s' p) = RESET)"
proof -
  have count: "\<exists>s' ex. failed_pings e p k s = Inr s' \<and> tq s' (p # xs) \<and>
      heap s' = (heap s)(p := (heap s p)\<lparr>num_retrans := of_nat k, timeout_expire := ex\<rparr>)"
    if "k \<le> unat USB_RETRANS_LIMIT" for k
    using failed_pings_count [OF assms(1,2,4), of k] that assms(6) by simp
  obtain s1 ex where s1: "failed_pings e p (unat USB_RETRANS_LIMIT) s = Inr s1" "tq s1 (p # xs)"
      "heap s1 = (heap s)(p := (heap s p)\<lparr>num_retrans := USB_RETRANS_LIMIT, timeout_expire := ex\<rparr>)"
    using count [of "unat USB_RETRANS_LIMIT"] by auto
  have "pinged (heap s1 p)" "num_retrans (heap s1 p) = USB_RETRANS_LIMIT" "is_gpio s1 p" "pwr_state (heap s1 p)"
      "pin_writable e (gpio_file (heap s1 p))"
    using assms by (simp_all add: s1(3) pinged_def gpio_file_def cong: option.case_cong)
  from last_failed_ping [OF assms(1) s1(2) _ this] obtain s' where "failed_ping e p s1 = Inr s'" "tq s' (p # xs)"
      "enabled (heap s' p)" "\<not> pwr_state (heap s' p)" "msg_mode (heap s' p) = RESET"
    by auto
  then have "\<exists>s'. failed_pings e p (Suc (unat USB_RETRANS_LIMIT)) s = Inr s' \<and> tq s' (p # xs) \<and>
            enabled (heap s' p) \<and> \<not> pwr_state (heap s' p) \<and> msg_mode (heap s' p) = RESET"
    unfolding failed_pings_Suc s1(1) by simp
  moreover have "\<exists>s'. failed_pings e p k s = Inr s' \<and> tq s' (p # xs) \<and>
            pwr_state (heap s' p) \<and> msg_mode (heap s' p) = PING \<and> num_retrans (heap s' p) = of_nat k"
    if "k \<le> unat USB_RETRANS_LIMIT" for k
    using count [OF that] assms(4,5) by (auto simp: pinged_def)
  ultimately show ?thesis by blast
qed

theorem dead_device_restarted_witness:
  "\<exists>s'. failed_pings sample_env 0 6 (port_upd 0 (\<lambda>pt. pt\<lparr>num_retrans := 0, dev_handle := Some 4\<rparr>) waiting_sys) = Inr s' \<and>
     enabled (heap s' 0) \<and> \<not> pwr_state (heap s' 0)"
proof -
  let ?s = "port_upd 0 (\<lambda>pt. pt\<lparr>num_retrans := 0, dev_handle := Some 4\<rparr>) waiting_sys"
  have "usb_works sample_env" by (simp add: usb_works_def sample_defs)
  moreover have "tq ?s [0]" "is_gpio ?s 0" "pinged (heap ?s 0)" "pwr_state (heap ?s 0)" "num_retrans (heap ?s 0) = 0"
    using waiting_tq by (simp_all add: pinged_def)
  ultimately have "\<exists>s'. failed_pings sample_env 0 (Suc (unat USB_RETRANS_LIMIT)) ?s = Inr s' \<and> tq s' [0] \<and>
      enabled (heap s' 0) \<and> \<not> pwr_state (heap s' 0) \<and> msg_mode (heap s' 0) = RESET"
    using dead_device_restarted [of sample_env ?s 0 "[]"] sample_pin by blast
  moreover have "Suc (unat USB_RETRANS_LIMIT) = 6" by simp
  ultimately show ?thesis by metis
qed

text \<open>
  C10.
  A restart of a YKUSH port is a power cycle with two transfers. CMD_RESTART submits the command that switches
  the port off; when it is answered the port is without power and waits at the head of the timeout list; its
  timeout submits the command that switches it on; when that is answered the port is powered, enabled and idle
  and off the list. Exactly these two commands were sent to the board.
\<close>

theorem ykush_power_cycle:
  assumes "usb_works e" and "tq s xs" and "enabled (heap s p)" and "pwr_state (heap s p)"
    and "parent (heap s p) = Some h" and "ykush_port_cmd (port_num (heap s p)) = Some c"
  shows "\<exists>s1 s2 s3 s4. ykush_update_port e p CMD_RESTART s = Inr (0, s1) \<and> tq s1 (remove1 p xs) \<and>
           s2 = ykush_reset_cb e p True s1 \<and> \<not> pwr_state (heap s2 p) \<and> tq s2 (p # remove1 p xs) \<and>
           and_then (usb_monitor_lists_del_timeout p s2) (ykush_handle_timeout e p) = Inr s3 \<and>
           s4 = ykush_reset_cb e p True s3 \<and> pwr_state (heap s4 p) \<and> enabled (heap s4 p) \<and>
           msg_mode (heap s4 p) = IDLE \<and> tq s4 (remove1 p xs) \<and>
           submitted (trace s4) = submitted (trace s) @
             [Ykush_Transfer p (comm_handle (hubs s h)) ((buf (heap s p))[0 := c, 1 := c]) Ykush_Reset_Cb,
              Ykush_Transfer p (comm_handle (hubs s h)) ((buf (heap s p))[0 := or c 0x10, 1 := or c 0x10]) Ykush_Reset_Cb]"
  by (rule ykush_cycle [OF assms])

theorem ykush_power_cycle_witness:
  "\<exists>s1. ykush_update_port sample_env 1 CMD_RESTART
      (port_upd 1 (\<lambda>_. zero_port\<lparr>parent := Some 0, port_num := 2, enabled := True, pwr_state := True\<rparr>) sample_sys) = Inr (0, s1)"
proof -
  let ?s = "port_upd 1 (\<lambda>_. zero_port\<lparr>parent := Some 0, port_num := 2, enabled := True, pwr_state := True\<rparr>) sample_sys"
  have w: "usb_works sample_env" by (simp add: usb_works_def sample_defs)
  have q: "tq ?s []" using sample_tq by simp
  have s: "enabled (heap ?s 1)" "pwr_state (heap ?s 1)" "parent (heap ?s 1) = Some 0"
      "ykush_port_cmd (port_num (heap ?s 1)) = Some 2" by (simp_all add: ykush_port_cmd_def)
  from ykush_power_cycle [OF w q s] show ?thesis by blast
qed

section \<open>The Lanner microcontroller\<close>

text \<open>
  C11.
  A restart of a Lanner port goes through two accepted requests. After CMD_RESTART the mask sent to the
  microcontroller has the port's bit set (off); when the first OK reply is handled the port is off, still
  pending, and the next mask has its bit cleared (on); when the second is handled the port is powered,
  enabled, idle and no longer pending. The mask the microcontroller reported in between is arbitrary.
\<close>

theorem lanner_power_cycle:
  assumes "masks_disjoint s (port_list s)" and "p \<in> set (port_list s)" and "is_lanner s p"
    and "bit (bitmask (heap s p)) i" and "mcu_state (shared s l) \<in> {LANNER_MCU_IDLE, LANNER_MCU_PENDING}"
    and "l = shared_info (heap s p)"
  defines "s1 \<equiv> snd (lanner_update_port p CMD_RESTART s)"
  defines "s2 \<equiv> ok_reply_loop l (port_list s1) s1"
  defines "s3 \<equiv> ok_reply_loop l (port_list s2) s2"
  shows "bit (lanner_handler_create_mcu_bitmask l w s1) i \<and>
         \<not> pwr_state (heap s2 p) \<and> \<not> enabled (heap s2 p) \<and> bit (pending_ports_mask (shared s2 l)) i \<and>
         \<not> bit (lanner_handler_create_mcu_bitmask l w' s2) i \<and>
         pwr_state (heap s3 p) \<and> enabled (heap s3 p) \<and> msg_mode (heap s3 p) = IDLE \<and>
         \<not> bit (pending_ports_mask (shared s3 l)) i"
  using lanner_cycle [OF assms(1-6)] unfolding s1_def s2_def s3_def by blast

theorem lanner_power_cycle_witness:
  "bit (lanner_handler_create_mcu_bitmask 0 0 (snd (lanner_update_port 1 CMD_RESTART sample_sys))) 0"
  using lanner_power_cycle [OF sample_masks, of 1 0 0 0] by (simp add: sample_defs)

text \<open>
  C12.
  The callbacks of the Lanner handler refine the protocol with the microcontroller, a state machine over the
  state of the board and the mask of waiting commands: a command is only taken while no update runs, an update
  is started from the pending state, answers move the board from one request to the next and clear commands,
  and the end of a turn closes a board whose update is done. However many messages an input holds, answers
  never move the board back and only move it while an update runs.
\<close>

theorem lanner_protocol:
  assumes "lanner_step e l lab s s'" and "mcu_info s = Some l"
  shows "(mcu_step lab)\<^sup>*\<^sup>* (mcu_view s l) (mcu_view s' l) \<and> mcu_info s' = Some l \<and>
         (lab = Answer \<longrightarrow> mcu_state (shared s l) \<le> mcu_state (shared s' l) \<and>
            (mcu_view s' l = mcu_view s l \<or>
             LANNER_MCU_GET_VERSION \<le> mcu_state (shared s l) \<and> mcu_state (shared s l) < LANNER_MCU_UPDATE_DONE))"
  using lanner_step_moves [OF assms] mcu_answers_forward [of "mcu_view s l" "mcu_view s' l"] assms(2)
  by (auto simp: mcu_moves_def mcu_view_def)

theorem lanner_protocol_witness:
  "(mcu_step Command)\<^sup>*\<^sup>* (mcu_view sample_sys 0) (mcu_view (snd (lanner_update_port 1 CMD_RESTART sample_sys)) 0)"
proof -
  have "lanner_step sample_env 0 Command sample_sys (snd (lanner_update_port 1 CMD_RESTART sample_sys))"
    by (rule lanner_step.command) simp
  from lanner_protocol [OF this] show ?thesis by simp
qed

text \<open>
  C13.
  No command is lost: in every state that the callbacks of the Lanner handler can reach, a board that is idle,
  or whose update is done, has no port with a command that waits.
\<close>

theorem no_command_lost:
  assumes "lanner_run e l s0 s" and "mcu_info s0 = Some l" and "pending_ports_mask (shared s0 l) = 0"
    and "mcu_state (shared s l) \<in> {LANNER_MCU_IDLE, LANNER_MCU_UPDATE_DONE}"
  shows "pending_ports_mask (shared s l) = 0"
  using lanner_run_nothing_lost [OF assms(1,2)] assms(3,4) by (auto simp: nothing_lost_def mcu_view_def)

theorem no_command_lost_witness:
  "\<exists>s'. lanner_handler_itr_cb sample_env 0 (shared_upd 0 (\<lambda>l. l\<lparr>mcu_state := LANNER_MCU_UPDATE_DONE\<rparr>) sample_sys) = Inr s' \<and>
     mcu_state (shared s' 0) = LANNER_MCU_IDLE \<and> pending_ports_mask (shared s' 0) = 0"
proof -
  let ?s = "shared_upd 0 (\<lambda>l. l\<lparr>mcu_state := LANNER_MCU_UPDATE_DONE\<rparr>) sample_sys"
  have done_state: "mcu_state (shared ?s 0) = LANNER_MCU_UPDATE_DONE" "mcu_info ?s = Some 0" "pending_ports_mask (shared ?s 0) = 0"
    by (simp_all add: shared_upd_def sample_sys_def zero_sys_def zero_shared_def)
  obtain s' where s': "lanner_handler_itr_cb sample_env 0 ?s = Inr s'" "mcu_state (shared s' 0) = LANNER_MCU_IDLE"
    by (simp add: lanner_handler_itr_cb_def with_mcu_info_def done_state shared_upd_def)
  have "lanner_run sample_env 0 ?s s'"
    by (rule lanner_run.step [OF lanner_run.start lanner_step.itr_done [OF done_state(1) s'(1)]])
  from no_command_lost [OF this done_state(2,3)] s' show ?thesis by simp
qed

text \<open>
  C14.
  Bit i of the mask written to the microcontroller: where a pending port owns the bit, it is set exactly if
  that port's command is not an enable; where none does, it is the bit the microcontroller reported. Ports are
  assumed to have disjoint masks.
\<close>

theorem lanner_mask:
  assumes "masks_disjoint s (port_list s)" and "pend = pending_ports_mask (shared s l)"
  shows "bit (lanner_handler_create_mcu_bitmask l b s) i \<longleftrightarrow>
           (if \<exists>p\<in>set (port_list s). pending_port s pend p \<and> bit (bitmask (heap s p)) i
            then \<forall>p\<in>set (port_list s). pending_port s pend p \<and> bit (bitmask (heap s p)) i \<longrightarrow>
                   cmd_to_check (heap s p) \<noteq> CMD_ENABLE
            else bit b i)"
proof (cases "\<exists>p\<in>set (port_list s). pending_port s pend p \<and> bit (bitmask (heap s p)) i")
  case True
  then obtain p where p: "p \<in> set (port_list s)" "pending_port s pend p" "bit (bitmask (heap s p)) i" by blast
  have other: "\<forall>q\<in>set (port_list s). q \<noteq> p \<longrightarrow> is_lanner s q \<longrightarrow> \<not> bit (bitmask (heap s q)) i"
    using masks_disjoint_bit [OF assms(1) p(1)] p(2,3) by (auto simp: pending_port_def)
  have "distinct (port_list s)" using assms(1) by (simp add: masks_disjoint_def)
  from create_mask_bit [OF p(1) this p(2,3) other] show ?thesis
    using True p other by (auto simp: lanner_handler_create_mcu_bitmask_def assms(2) pending_port_def)
next
  case False
  then show ?thesis
    using create_mask_untouched [of "port_list s" s pend i b]
    by (auto simp: lanner_handler_create_mcu_bitmask_def assms(2))
qed

theorem lanner_mask_witness:
  "bit (lanner_handler_create_mcu_bitmask 0 5 sample_sys) 2"
  using lanner_mask [OF sample_masks refl, of 0 5 2]
  by (simp add: pending_port_def sample_defs bit_numeral_rec)

text \<open>
  C15.
  The state reply of the microcontroller is read back: for every mask n below 256 printed in decimal, with or
  without a blank after the equals sign and whatever follows that is not a digit, the scanned reply stores n
  as the mask of the microcontroller.
\<close>

theorem lanner_reply_stored:
  assumes "n < 256" and "rest = [] \<or> \<not> is_digit (hd rest)"
    and "txt = LANNER_HANDLER_REPLY @ ''='' @ dec n @ rest \<or> txt = LANNER_HANDLER_REPLY @ ''= '' @ dec n @ rest"
  shows "mcu_bitmask (shared (store_bitmask l (scan_bitmask txt) s) l) = of_nat n"
proof -
  have "n < 2 ^ 32" using assms(1) by simp
  note reply = scan_reply [OF this assms(2)]
  have "scan_format (LANNER_HANDLER_REPLY @ ''= '') txt = Scan_Val (of_nat n)"
    using assms(3) by (elim disjE) (simp_all only: reply)
  then have "scan_bitmask txt = Scan_Val (of_nat n)"
    unfolding scan_bitmask_def Let_def by (simp only: scan.distinct if_False)
  moreover have "(ucast (of_nat n :: u32) :: u8) = of_nat n"
    by (rule bit_word_eqI) (simp add: bit_simps)
  ultimately show ?thesis by (simp add: store_bitmask_def shared_upd_def)
qed

theorem lanner_reply_stored_witness:
  "mcu_bitmask (shared (store_bitmask 0 (scan_bitmask (LANNER_HANDLER_REPLY @ ''= '' @ dec 200 @ [newline])) sample_sys) 0) = 200"
  using lanner_reply_stored [of 200 "[newline]" _ 0 sample_sys] by (simp add: is_digit_def)

section \<open>The timeout list and the timers\<close>

text \<open>
  C16.
  The timeout list is the abstract list of waiting ports: the activity test is membership, starting the
  timeout of a port that is not waiting puts it at the head, deleting a waiting port removes it, and deleting
  a port that is not on the list dereferences a null back pointer.
\<close>

theorem timeout_list_operations:
  assumes "tq s xs"
  shows "usb_monitor_lists_is_timeout_active s p = (p \<in> set xs) \<and>
         (p \<notin> set xs \<longrightarrow> tq (usb_helpers_start_timeout e p t s) (p # xs)) \<and>
         (p \<in> set xs \<longrightarrow> (\<exists>q. usb_monitor_lists_del_timeout p s = Inr (s\<lparr>timeout_q := q\<rparr>) \<and>
                               tq (s\<lparr>timeout_q := q\<rparr>) (remove1 p xs))) \<and>
         (p \<notin> set xs \<longrightarrow> usb_monitor_lists_del_timeout p s = Inl Null_Deref)"
proof -
  have "\<exists>q. usb_monitor_lists_del_timeout p s = Inr (s\<lparr>timeout_q := q\<rparr>) \<and> tq (s\<lparr>timeout_q := q\<rparr>) (remove1 p xs)"
    if "p \<in> set xs"
    using del_timeout_member [OF assms that] by (metis sys.select_convs(4) sys.surjective sys.update_convs(4) tq_def)
  then show ?thesis
    using start_timeout_tq [OF assms] del_timeout_non_member [OF assms] tq_active [OF assms] by blast
qed

theorem timeout_list_operations_witness:
  "tq (usb_helpers_start_timeout sample_env 1 5 waiting_sys) [1, 0] \<and>
   usb_monitor_lists_del_timeout 1 waiting_sys = Inl Null_Deref"
  using timeout_list_operations [OF waiting_tq, of 1 sample_env 5] by simp

text \<open>
  C17.
  backend_insert_timeout keeps the timer list sorted by expiry and is stable: a new timer goes behind every
  timer that expires no later than it and before every timer that expires later.
\<close>

theorem insert_timeout_sorted:
  assumes "tmq s xs" and "t \<notin> set xs" and "t < next_tid s"
  shows "\<exists>q. backend_insert_timeout t s = Inr (s\<lparr>timer_q := q\<rparr>) \<and>
           tmq (s\<lparr>timer_q := q\<rparr>)
             (filter (\<lambda>i. expires s i \<le> expires s t) xs @ t # filter (\<lambda>i. expires s t < expires s i) xs)"
proof -
  have srt: "sorted (map (expires s) xs)" using assms(1) by (simp add: tmq_def)
  have "timers_after s (expires s t) xs = filter (\<lambda>i. expires s t < expires s i) xs"
    using srt by (rule timers_after_filter)
  then show ?thesis
    using insert_timeout_tmq [OF assms] timers_upto_filter [OF srt, of "expires s t"] by metis
qed

theorem insert_timeout_sorted_witness:
  "\<exists>q. backend_insert_timeout 1 (timers_sys\<lparr>timer_q := list_insert_head 0 lq_init\<rparr>) =
         Inr (timers_sys\<lparr>timer_q := q\<rparr>) \<and> tmq (timers_sys\<lparr>timer_q := q\<rparr>) [0, 1]"
proof -
  let ?s = "timers_sys\<lparr>timer_q := list_insert_head 0 lq_init\<rparr>"
  have "tmq ?s [0]"
    using list_insert_head_list [of lq_init "[]" 0] by (simp add: tmq_def timers_sys_def)
  then show ?thesis using insert_timeout_sorted [of ?s "[0]" 1] by (simp add: timers_sys_def)
qed

text \<open>
  C18.
  Starting the timeout of the port that is already at the head of the list destroys it: the port becomes its
  own successor, the result is no well-formed list, and the walk of the one-second timer does not end for any
  amount of fuel while the port has not expired.
\<close>

theorem start_timeout_twice_breaks:
  assumes "tq s (p # xs)"
  shows "(\<nexists>ys. tq (usb_helpers_start_timeout e p t s) ys) \<and>
         (\<forall>n cur. cur < timeout_expire (heap (usb_helpers_start_timeout e p t s) p) \<longrightarrow>
            check_timeouts_loop port_timeout e cur n (Some p) (usb_helpers_start_timeout e p t s) = Inl No_Fuel)"
  using start_timeout_twice [OF assms, of e t] self_loop_no_list walk_self_loop
  by (fastforce simp: tq_def)

theorem start_timeout_twice_breaks_witness:
  "check_timeouts_loop port_timeout sample_env 0 1000 (Some 0)
     (usb_helpers_start_timeout sample_env 0 5 waiting_sys) = Inl No_Fuel"
  using start_timeout_twice_breaks [OF waiting_tq, of sample_env 5] by simp

text \<open>
  C19.
  The double insertion happens: when the last allowed ping of an enabled GPIO port fails and its value file
  cannot be opened, gpio_update_port has already started the timeout and usb_helpers_ping_cb starts it again;
  the timeout list then has a cycle and the next timeout check does not end while the port has not expired.
\<close>

theorem failed_restart_hangs:
  assumes "is_gpio s p" and "tq s xs" and "enabled (heap s p)"
    and "msg_mode (heap s p) = PING" and "num_retrans (heap s p) = USB_RETRANS_LIMIT"
    and "\<And>tr f. answer e tr (Open_File f) = -1"
  shows "\<exists>s'. usb_helpers_ping_cb e p False s = Inr s' \<and> lh_first (timeout_q s') = Some p \<and>
           le_next (timeout_q s') p = Some p \<and>
           (\<forall>n. clock e (trace s') < timeout_expire (heap s' p) \<longrightarrow>
                usb_monitor_check_timeouts e n s' = Inl No_Fuel)"
  by (rule ping_failed_restart [OF assms])

theorem failed_restart_hangs_witness:
  "\<exists>s'. usb_helpers_ping_cb no_files 0 False waiting_sys = Inr s' \<and> le_next (timeout_q s') 0 = Some 0"
proof -
  have "\<And>tr f. answer no_files tr (Open_File f) = -1" by (simp add: no_files_def)
  from failed_restart_hangs [OF _ waiting_tq _ _ _ this, of 0] show ?thesis by auto
qed

text \<open>
  C20.
  The commands disable and enable do not take a port off the timeout list. When a restarting GPIO port is
  disabled and enabled by commands that the interface accepts, and its device arrives before the timeout of
  the restart is over, the port is inserted twice: it becomes its own successor and the next timeout check
  does not end while the port has not expired.
\<close>

theorem disable_during_restart_hangs:
  assumes "is_gpio s p" and "tq s xs" and "enabled (heap s p)" and "pwr_state (heap s p)"
    and "pin_writable e (gpio_file (heap s p))"
    and "\<forall>p\<in>set (port_list s). paths_intact (heap s p)" and "length (port_numbers e d) \<le> 7"
    and "List.find (\<lambda>p. device_path e d \<in> set (port_paths (path (heap s p)))) (port_list s) = Some p"
    and "dev (heap s p) \<noteq> Some d"
    and "\<not> list_ex (\<lambda>(v, i). id_vendor e d = v \<and> id_product e d = i)
           (take (unat (num_bad_device_ids s)) (bad_device_ids s))"
  shows "\<exists>s1 s2 s3 s4. port_update e p CMD_RESTART s = Inr (0, s1) \<and> takes_command (heap s1 p) CMD_DISABLE \<and>
           port_update e p CMD_DISABLE s1 = Inr (0, s2) \<and> takes_command (heap s2 p) CMD_ENABLE \<and>
           port_update e p CMD_ENABLE s2 = Inr (0, s3) \<and> usb_device_added e d s3 = Inr s4 \<and>
           le_next (timeout_q s4) p = Some p \<and>
           (\<forall>n. clock e (trace s4) < timeout_expire (heap s4 p) \<longrightarrow> usb_monitor_check_timeouts e n s4 = Inl No_Fuel)"
  by (rule disabled_while_restarting [OF assms])

theorem disable_during_restart_hangs_witness:
  "\<exists>s1 s2 s3 s4. port_update sample_env 0 CMD_RESTART sample_sys = Inr (0, s1) \<and>
     port_update sample_env 0 CMD_DISABLE s1 = Inr (0, s2) \<and> port_update sample_env 0 CMD_ENABLE s2 = Inr (0, s3) \<and>
     usb_device_added sample_env 7 s3 = Inr s4 \<and> le_next (timeout_q s4) 0 = Some 0"
proof -
  have f: "List.find (\<lambda>p. device_path sample_env 7 \<in> set (port_paths (path (heap sample_sys p)))) (port_list sample_sys) = Some 0"
    by (simp add: device_path_def)
  show ?thesis
    using disable_during_restart_hangs [OF _ sample_tq _ _ sample_pin sample_intact _ f] by fastforce
qed

section \<open>Devices and ports\<close>

text \<open>
  C21.
  A USB path of one to eight components below 100, printed by usb_helpers_convert_path_char and parsed again
  by usb_helpers_convert_char_to_path, is the path it was.
\<close>

theorem path_roundtrip:
  assumes "q \<noteq> []" and "length q \<le> 8" and "\<forall>b\<in>set q. unat b < 100"
  shows "\<exists>r. usb_helpers_convert_path_char sg q (of_nat (length q)) = Inr r \<and>
           usb_helpers_convert_char_to_path (path_text r) = Some q"
  using convert_path_char_prints [OF assms, of sg] convert_char_to_path_printed [OF assms(2)] by auto

theorem path_roundtrip_witness:
  "\<exists>r. usb_helpers_convert_path_char True [1, 12, 3] (of_nat (length [1, 12, 3 :: u8])) = Inr r \<and>
     usb_helpers_convert_char_to_path (path_text r) = Some [1, 12, 3]"
  by (rule path_roundtrip) simp_all


text \<open>
  C23.
  A device that appears on a known, idle port without a device and that is not on the list of bad ids becomes
  the device of that port: its ids are stored, the port is connected and in ping mode and at the head of the
  timeout list, and no other port changes.
\<close>

theorem device_added_starts_ping:
  assumes "\<forall>p\<in>set (port_list s). paths_intact (heap s p)" and "length (port_numbers e d) \<le> 7"
    and "List.find (\<lambda>p. device_path e d \<in> set (port_paths (path (heap s p)))) (port_list s) = Some p"
    and "can_take_device (heap s p) d" and "tq s xs" and "p \<notin> set xs"
    and "\<not> list_ex (\<lambda>(v, i). id_vendor e d = v \<and> id_product e d = i)
            (take (unat (num_bad_device_ids s)) (bad_device_ids s))"
  shows "\<exists>s' ex. usb_device_added e d s = Inr s' \<and> tq s' (p # xs) \<and>
           heap s' = (heap s)(p := (heap s p)\<lparr>vid := id_vendor e d, pid := id_product e d,
             status := PORT_DEV_CONNECTED, dev := Some d, msg_mode := PING, timeout_expire := ex\<rparr>)"
  by (rule device_added_result [OF assms])

theorem device_added_starts_ping_witness:
  "\<exists>s' ex. usb_device_added sample_env 7 sample_sys = Inr s' \<and> tq s' [0] \<and>
     heap s' = (heap sample_sys)(0 := (heap sample_sys 0)\<lparr>vid := id_vendor sample_env 7, pid := id_product sample_env 7,
       status := PORT_DEV_CONNECTED, dev := Some 7, msg_mode := PING, timeout_expire := ex\<rparr>)"
  by (rule device_added_starts_ping [OF sample_intact _ _ _ sample_tq])
    (simp_all add: device_path_def can_take_device_def)

text \<open>
  C24.
  When the device of a port leaves, the port has no device, ids or handle and no retransmissions any more, it
  is off the timeout list unless it is being restarted or probed (then it keeps its place), and no other port
  changes.
\<close>

theorem device_removed_clears_port:
  assumes "\<forall>p\<in>set (port_list s). paths_intact (heap s p)" and "length (port_numbers e d) \<le> 7"
    and "List.find (\<lambda>p. device_path e d \<in> set (port_paths (path (heap s p)))) (port_list s) = Some p"
    and "tq s xs"
  shows "\<exists>s'. usb_device_removed e d s = Inr s' \<and>
           tq s' (if msg_mode (heap s p) = RESET \<or> msg_mode (heap s p) = PROBE then xs else remove1 p xs) \<and>
           heap s' = (heap s)(p := (heap s p)\<lparr>vid := 0, pid := 0, dev := None, dev_handle := None,
                                            status := PORT_NO_DEV_CONNECTED, num_retrans := 0\<rparr>)"
  using reset_port_result [OF assms(4), of e p] find_device_port [OF assms(1,2)] assms(3)
  by (auto simp: usb_device_removed_def Let_def case_prod_beta)

theorem device_removed_clears_port_witness:
  "\<exists>s'. usb_device_removed sample_env 7 waiting_sys = Inr s' \<and> tq s' [] \<and> dev (heap s' 0) = None"
proof -
  have i: "\<forall>p\<in>set (port_list waiting_sys). paths_intact (heap waiting_sys p)"
    using sample_intact by (auto simp: waiting_sys_def port_upd_def paths_intact_def)
  have f: "List.find (\<lambda>p. device_path sample_env 7 \<in> set (port_paths (path (heap waiting_sys p)))) (port_list waiting_sys) = Some 0"
    by (simp add: device_path_def)
  show ?thesis
    using device_removed_clears_port [OF i _ f waiting_tq] by auto
qed

text \<open>
  C25.
  usb_helpers_reset_all_ports is the reference sequence that sends CMD_RESTART to the ports of the list that
  may be restarted, in the order of the list, each judged by its state before the call; it returns, keeps the
  timeout list well formed and changes no port outside that sequence.
\<close>

theorem reset_all_ports_restarts:
  fixes forced :: bool
  assumes "tq s xs" and "distinct (port_list s)" and "\<forall>p\<in>set (port_list s). port_ready (heap s p)"
  defines "ps \<equiv> filter (\<lambda>p. restartable forced (heap s p)) (port_list s)"
  shows "usb_helpers_reset_all_ports e forced s = restart_each e ps s \<and>
         succeeds (usb_helpers_reset_all_ports e forced s)
           (\<lambda>s'. (\<exists>ys. tq s' ys) \<and> (\<forall>q. q \<notin> set ps \<longrightarrow> heap s' q = heap s q) \<and> port_list s' = port_list s)"
proof -
  have run: "usb_helpers_reset_all_ports e forced s = restart_each e ps s"
    using reset_loop_restarts [OF assms(1-3)] by (simp add: usb_helpers_reset_all_ports_def ps_def)
  have "\<forall>p\<in>set ps. port_ready (heap s p)" using assms(3) by (simp add: ps_def)
  from restart_each_ok [OF assms(1) this] show ?thesis unfolding run by blast
qed

theorem reset_all_ports_restarts_witness:
  "usb_helpers_reset_all_ports sample_env True sample_sys = restart_each sample_env [0, 1, 2] sample_sys"
proof -
  have "\<forall>p\<in>set (port_list sample_sys). port_ready (heap sample_sys p)"
    using sample_ready(1) by auto
  from reset_all_ports_restarts [OF sample_tq _ this] show ?thesis by (simp add: restartable_def)
qed

text \<open>
  C26.
  When a probed device shows up on another port than expected, the swap exchanges the paths of the two ports
  and moves the device to the other port; no third port changes.
\<close>

theorem probe_swaps_paths:
  assumes "m \<noteq> p" and "null_tail (path (heap s m))" and "null_tail (path (heap s p))"
  defines "s' \<equiv> gpio_handler_swap_port_info m p s"
  shows "port_paths (path (heap s' m)) = port_paths (path (heap s p)) \<and>
         port_paths (path (heap s' p)) = port_paths (path (heap s m)) \<and>
         dev (heap s' p) = dev (heap s m) \<and> dev (heap s' m) = None \<and>
         (\<forall>q. q \<noteq> m \<longrightarrow> q \<noteq> p \<longrightarrow> heap s' q = heap s q)"
  unfolding s'_def using swap_paths [OF assms(1-3)] by blast

theorem probe_swaps_paths_witness:
  "port_paths (path (heap (gpio_handler_swap_port_info 0 1 sample_sys) 0)) = [[1, 2]] \<and>
   port_paths (path (heap (gpio_handler_swap_port_info 0 1 sample_sys) 1)) = [[1, 1]]"
  using probe_swaps_paths [of 0 1 sample_sys] by (simp add: null_tail_def path_count_def)

section \<open>The HTTP parser\<close>

text \<open>
  C27.
  http_parser_execute returns on every text, whatever it was given before and whatever the callbacks return:
  no assertion fails, no string or table is read past its end and the loop ends. It counts no more bytes than
  it got (one for a connection that ends too early), every callback gets a piece of the text, and without an
  error or a change of protocol all bytes are counted.
\<close>

theorem http_parser_never_aborts:
  assumes "parser_reach t p" and "length data < 2 ^ 64"
  shows "\<exists>q evs k. http_parser_execute S p data = Inr (q, evs, k) \<and> k \<le> max 1 (length data) \<and>
    (\<forall>ev \<in> set evs. event_within (length data) ev) \<and>
    (http_errno q = HPE_OK \<and> \<not> upgrade q \<longrightarrow> k = length data)"
  by (rule execute_fine [OF reach_ok [OF assms(1)] assms(2), of S]) auto

theorem http_parser_never_aborts_witness:
  "\<exists>q evs k. http_parser_execute (\<lambda>_. Some 2) (http_parser_init HTTP_BOTH) ''HTTP'' = Inr (q, evs, k) \<and> k \<le> 4"
  using http_parser_never_aborts [OF reach_init, of "''HTTP''" "\<lambda>_. Some 2" HTTP_BOTH] by auto

text \<open>
  C28.
  Every parser that calls of http_parser_execute lead to, from one that was initialised, is well formed as
  long as no error is set: in each state the fields that its code relies on have the values it asserts, as the
  index into the name of the method, the state of the header being recognised, the chunked flag and the length
  of the body.
\<close>

theorem http_parser_well_formed:
  assumes "parser_reach t p" and "http_errno p = HPE_OK"
  shows "parser_inv 0 p"
  using reach_ok [OF assms(1)] assms(2) by (simp add: parser_ok_def)

theorem http_parser_well_formed_witness: "parser_inv 0 path_parser"
  by (rule http_parser_well_formed [OF path_reached]) (simp add: path_parser_def http_parser_init_def)

text \<open>
  C29.
  For the callbacks of the client the parser, which takes a piece of a body at once, is the reference that is
  given the bytes one at a time: it fails for the same texts, and otherwise ends in the same state and hands
  over the same bytes of the body and the same ends of messages in the same order.
\<close>

theorem http_parser_bytewise:
  assumes "parser_inv 0 p" and "\<not> upgrade p" and "data \<noteq> []" and "length data < 2 ^ 64"
  shows "parse_text p data = feed p data"
  by (rule parse_text_feed [OF assms])

theorem http_parser_bytewise_witness: "parse_text (http_parser_init HTTP_BOTH) get_text = feed (http_parser_init HTTP_BOTH) get_text"
proof (rule http_parser_bytewise [OF init_ready])
  show "get_text \<noteq> []" "length get_text < 2 ^ 64" using get_text_length by auto
qed

text \<open>
  C30.
  A text may be cut into pieces that are not empty at any place, as the network does: parsing the pieces one
  after the other fails exactly if parsing the whole text does, and otherwise ends in the same state with the
  same bytes of the body and the same ends of messages.
\<close>

theorem pieces_do_not_matter:
  assumes "parser_inv 0 p" and "\<not> upgrade p" and "[] \<notin> set ds" and "ds \<noteq> []" and "length (concat ds) < 2 ^ 64"
  shows "parse_pieces p ds = parse_text p (concat ds)"
  by (rule pieces_whole [OF assms])

theorem pieces_do_not_matter_witness:
  "parse_pieces (http_parser_init HTTP_BOTH) [''GE'', ''T / '', ''HTTP/1.1''] = parse_text (http_parser_init HTTP_BOTH) ''GET / HTTP/1.1''"
  using pieces_do_not_matter [OF init_ready, of "[''GE'', ''T / '', ''HTTP/1.1'']" HTTP_BOTH] by simp

text \<open>
  C31.
  A request as a client prints it, with any method but CONNECT, an absolute path of URL characters and any
  headers that mean nothing to the parser, within the limit of 80 KB and in any pieces, is read back as one
  message with this method and no body, and the parser is ready for the next one.
\<close>

theorem request_roundtrip:
  assumes "m \<noteq> HTTP_CONNECT" and "path_ok url" and "\<forall>h\<in>set hs. plain_header h"
    and "length (http_request m url hs) \<le> 81920" and "concat ds = http_request m url hs" and "[] \<notin> set ds"
  shows "\<exists>q. parse_pieces (http_parser_init HTTP_REQUEST) ds = Some (q, [Message_Done m]) \<and> parser_state q = s_start_req"
  by (rule request_pieces [OF assms])

theorem request_roundtrip_witness:
  "\<exists>q. parse_pieces (http_parser_init HTTP_REQUEST) [http_request HTTP_PATCH ''/'' [(''Host'', ''x'')]] = Some (q, [Message_Done HTTP_PATCH])"
proof -
  have "length (http_request HTTP_PATCH ''/'' [(''Host'', ''x'')]) = 29"
    by (simp add: http_request_def request_head_def crlf_def)
  then have "\<exists>q. parse_pieces (http_parser_init HTTP_REQUEST) [http_request HTTP_PATCH ''/'' [(''Host'', ''x'')]] =
      Some (q, [Message_Done HTTP_PATCH]) \<and> parser_state q = s_start_req"
    by (intro request_roundtrip [where url = "''/''" and hs = "[(''Host'', ''x'')]"])
      (auto simp: sample_headers simp del: plain_header.simps)
  then show ?thesis by blast
qed

text \<open>
  C32.
  The same with a body, whose length is printed in the header Content-Length: however the request is cut, the
  bytes handed over are the body, then the message ends.
\<close>

theorem request_body_roundtrip:
  assumes "m \<noteq> HTTP_CONNECT" and "path_ok url" and "\<forall>h\<in>set hs. plain_header h"
    and "length (http_request_with m url hs body) - length body \<le> 81920" and "length body < 10 ^ 18"
    and "concat ds = http_request_with m url hs body" and "[] \<notin> set ds"
  shows "\<exists>q. parse_pieces (http_parser_init HTTP_REQUEST) ds = Some (q, map Body_Byte body @ [Message_Done m]) \<and>
    parser_state q = s_start_req"
  by (rule request_with_pieces [OF assms])

theorem request_body_roundtrip_witness:
  "\<exists>q. parse_pieces (http_parser_init HTTP_REQUEST) [http_request_with HTTP_POST ''/'' [] ''ab''] =
     Some (q, [Body_Byte CHR ''a'', Body_Byte CHR ''b'', Message_Done HTTP_POST])"
proof -
  have "length (http_request_with HTTP_POST ''/'' [] ''ab'') = 40"
    by (simp add: http_request_with_def request_head_def crlf_def length_dec)
  then have "\<exists>q. parse_pieces (http_parser_init HTTP_REQUEST) [http_request_with HTTP_POST ''/'' [] ''ab''] =
      Some (q, map Body_Byte ''ab'' @ [Message_Done HTTP_POST]) \<and> parser_state q = s_start_req"
    by (intro request_body_roundtrip [where url = "''/''" and hs = "[]"]) (auto simp: sample_headers)
  then show ?thesis by (fastforce simp del: parse_pieces.simps)
qed

section \<open>The HTTP interface\<close>





text \<open>
  C35.
  A command for a port of the Lanner board while its microcontroller is busy with the last one is refused: the
  client is sent exactly the status 503, and nothing else changes in the state of the monitor.
\<close>

theorem busy_board_answers_503:
  assumes "json_lib_ok (jlib e)" and "\<forall>p\<in>set (port_list s). paths_intact (heap s p)"
    and "q \<noteq> []" and "length q \<le> 8"
    and "List.find (\<lambda>p. q \<in> set (port_paths (path (heap s p)))) (port_list s) = Some p"
    and "cm \<le> CMD_DISABLE" and "takes_command (heap s p) cm"
    and "body_offset c = Some off" and "body_text c off = Inr t"
    and "json_tokener_parse (jlib e) t = Some (post_body q cm)"
    and "is_lanner s p" and "mcu_state (shared s (shared_info (heap s p))) \<notin> {LANNER_MCU_IDLE, LANNER_MCU_PENDING}"
  shows "\<exists>tr. usb_monitor_client_handle_post e c s = Inr (s\<lparr>trace := tr\<rparr>) \<and>
           sent tr = sent (trace s) @ [(client_fd c, insert_http_header_code 1 0 503)]"
proof -
  let ?s = "usb_monitor_client_send_code e c 503 s"
  have "port_update e p cm s = Inr (503, s)" by (rule lanner_busy) (use assms(11,12) in simp_all)
  then have "usb_monitor_client_handle_post e c s = Inr ?s"
    using handle_post_command [OF assms(8-10) update_ports_command [OF assms(1-7)]] by (simp add: command_reply_def)
  with send_code_sent [of e c 503 s] show ?thesis by metis
qed

theorem busy_board_answers_503_witness:
  "\<exists>tr. usb_monitor_client_handle_post post_env post_client (shared_upd 0 (\<lambda>l. l\<lparr>mcu_state := LANNER_MCU_GET_DIGITAL_OUT\<rparr>) sample_sys) =
       Inr ((shared_upd 0 (\<lambda>l. l\<lparr>mcu_state := LANNER_MCU_GET_DIGITAL_OUT\<rparr>) sample_sys)\<lparr>trace := tr\<rparr>) \<and>
     sent tr = [(9, insert_http_header_code 1 0 503)]"
proof -
  let ?s = "shared_upd 0 (\<lambda>l. l\<lparr>mcu_state := LANNER_MCU_GET_DIGITAL_OUT\<rparr>) sample_sys"
  have "body_text post_client 2 = Inr ''b''" by (simp add: post_client_def client_sample_def body_text_def cstr_def)
  moreover have "json_tokener_parse (jlib post_env) ''b'' = Some (post_body [1, 2] CMD_RESTART)" "json_lib_ok (jlib post_env)"
    using sample_json(2) by (simp_all add: post_env_def json_lib_ok_def)
  moreover have "\<forall>p\<in>set (port_list ?s). paths_intact (heap ?s p)" using sample_intact by simp
  ultimately have "\<exists>tr. usb_monitor_client_handle_post post_env post_client ?s = Inr (?s\<lparr>trace := tr\<rparr>) \<and>
      sent tr = sent (trace ?s) @ [(client_fd post_client, insert_http_header_code 1 0 503)]"
    by (intro busy_board_answers_503 [where p = 1]) (simp_all add: takes_command_def post_client_def)
  then show ?thesis by (simp add: post_client_def client_sample_def)
qed



text \<open>
  C37.
  A request with any method of the table but GET, POST and CONNECT that arrives in one piece is answered with
  the status 405 and nothing else; no port has changed and the slot of the client is free again.
\<close>

theorem other_method_refused:
  assumes "slots_ok s" and "i < MAX_HTTP_CLIENTS" and "\<not> bit (clients_map s) i"
    and "clients s i = Some c" and "recv_progress c = 0" and "recv_buf c = []"
    and "parser c = http_parser_init HTTP_REQUEST"
    and "input_data e (trace s) = http_request m url hs" and "length (http_request m url hs) \<le> MAX_REQUEST_SIZE"
    and "0 < answer e (trace s) (Recv (client_fd c))"
    and "m \<noteq> HTTP_CONNECT" and "path_ok url" and "\<forall>h\<in>set hs. plain_header h"
    and "m \<noteq> HTTP_GET" and "m \<noteq> HTTP_POST"
  shows "\<exists>s'. usb_monitor_client_cb e i s = Inr s' \<and> slots_ok s' \<and> bit (clients_map s') i \<and> heap s' = heap s \<and>
           sent (trace s') = sent (trace s) @ [(client_fd c, insert_http_header_code 1 0 405)]"
  by (rule whole_request [OF assms(1-13) other_method_handled [OF assms(14,15)]])

theorem other_method_refused_witness:
  "\<exists>s'. usb_monitor_client_cb (sample_env\<lparr>input_data := \<lambda>_. http_request HTTP_DELETE ''/'' []\<rparr>) 0 fresh_client_sys = Inr s' \<and>
     bit (clients_map s') 0 \<and> sent (trace s') = [(9, insert_http_header_code 1 0 405)]"
proof -
  let ?e = "sample_env\<lparr>input_data := \<lambda>_. http_request HTTP_DELETE ''/'' []\<rparr>"
  have "answer ?e = sample_answer" by (simp add: sample_env_def)
  then have "\<exists>s'. usb_monitor_client_cb ?e 0 fresh_client_sys = Inr s' \<and> slots_ok s' \<and> bit (clients_map s') 0 \<and>
      heap s' = heap fresh_client_sys \<and>
      sent (trace s') = sent (trace fresh_client_sys) @ [(client_fd fresh_client, insert_http_header_code 1 0 405)]"
    by (intro other_method_refused [OF fresh_client_slots, where url = "''/''" and hs = "[]" and m = HTTP_DELETE])
      (simp_all add: sample_headers get_text_length sample_answer_def)
  then show ?thesis by auto
qed

text \<open>
  C38.
  While a client slot is free, accepting a connection takes the lowest free slot, clears exactly its bit in
  the bitmap, starts the client record of the slot with an empty buffer, and keeps bitmap and client records
  in step.
\<close>

theorem accept_takes_lowest_slot:
  assumes "slots_ok s" and "clients_map s \<noteq> 0"
    and "clients s (ffs (clients_map s) - 1) = None \<Longrightarrow> answer e ((Accept, answer e (trace s) Accept) # trace s) Malloc \<noteq> 0"
  defines "i \<equiv> ffs (clients_map s) - 1"
  shows "i < MAX_HTTP_CLIENTS \<and> bit (clients_map s) i \<and> (\<forall>j<i. \<not> bit (clients_map s) j) \<and>
         (\<forall>j. bit (clients_map (usb_monitor_accept_cb e s)) j \<longleftrightarrow> bit (clients_map s) j \<and> j \<noteq> i) \<and>
         clients (usb_monitor_accept_cb e s) = (clients s)(i := Some
           \<lparr>recv_buf = [], body_offset = None, parser = http_parser_init HTTP_REQUEST, client_fd = answer e (trace s) Accept,
            recv_progress = 0, req_done = False, idx = of_nat i\<rparr>) \<and>
         slots_ok (usb_monitor_accept_cb e s)"
  unfolding i_def using accept_slots [OF assms(1-3)] by blast

theorem accept_takes_lowest_slot_witness:
  "slots_ok (usb_monitor_accept_cb sample_env sample_sys)"
  using accept_takes_lowest_slot [OF sample_slots, of sample_env] by (simp add: sample_answer_def)

section \<open>Buffers\<close>





end
